(* ===== verification/Prelude.thy ===== *)
theory Prelude
  imports Complex_Main "HOL-Library.Word"
begin

text \<open>
  Shared vocabulary of the development: the types that name the program's values
  (\<open>u32\<close> for Rust's \<open>u32\<close>, \<open>vec2\<close> for the engine's \<open>Vec2\<close>), the panics of
  \<open>src/src/main.rs\<close> as values of the type \<open>error\<close>, a bind on results that plays
  the part of the sequencing of statements that may panic, Rust's \<open>+= 1\<close> on a
  \<open>u32\<close> in a debug build, and the generic lemmas on these that the component
  theories use through the collection \<open>result_simps\<close>.
\<close>

named_theorems result_simps "rules that evaluate the sequencing of fallible steps"

type_synonym u32 = "32 word"
type_synonym label = string
type_synonym vec2 = "real \<times> real"

text \<open>
  The program panics in two ways: an \<open>unwrap()\<close> of a lookup that found nothing
  (\<open>engine.texts.get_mut(..).unwrap()\<close>, \<open>engine.sprites.get_mut(..).unwrap()\<close>),
  recorded with the label that was looked up, and an arithmetic overflow of
  \<open>+= 1\<close> on a \<open>u32\<close>, which panics in a debug build.
\<close>

datatype error = UnwrapNone label | AddOverflow

type_synonym 'a result = "error + 'a"

definition bindr :: "'a result \<Rightarrow> ('a \<Rightarrow> 'b result) \<Rightarrow> 'b result" where
  "bindr r f = (case r of Inl e \<Rightarrow> Inl e | Inr a \<Rightarrow> f a)"

text \<open>Rust's \<open>x += 1\<close> on a \<open>u32\<close>: a panic when the sum does not fit.\<close>

definition inc_u32 :: "u32 \<Rightarrow> u32 result" where
  "inc_u32 w = (if 2 ^ 32 \<le> unat w + 1 then Inl AddOverflow else Inr (w + 1))"

lemma bindr_Inl [simp, result_simps]: "bindr (Inl e) f = Inl e"
  by (simp add: bindr_def)

lemma bindr_Inr [simp, result_simps]: "bindr (Inr a) f = f a"
  by (simp add: bindr_def)

lemma bindr_eq_Inr_iff:
  "bindr r f = Inr b \<longleftrightarrow> (\<exists>a. r = Inr a \<and> f a = Inr b)"
  by (cases r) auto

lemma bindr_eq_Inl_iff:
  "bindr r f = Inl e \<longleftrightarrow> r = Inl e \<or> (\<exists>a. r = Inr a \<and> f a = Inl e)"
  by (cases r) auto

lemma inc_u32_Inr_iff: "inc_u32 w = Inr w' \<longleftrightarrow> unat w < 2 ^ 32 - 1 \<and> w' = w + 1"
  by (auto simp: inc_u32_def)

lemma inc_u32_Inl_iff: "inc_u32 w = Inl e \<longleftrightarrow> unat w = 2 ^ 32 - 1 \<and> e = AddOverflow"
proof -
  have "unat w < 2 ^ 32" using unsigned_less [of w] by simp
  then show ?thesis by (auto simp: inc_u32_def)
qed

lemma unat_u32_less: "unat (w :: u32) < 2 ^ 32"
  using unsigned_less [of w] by simp

lemma unat_inc_u32:
  assumes "inc_u32 w = Inr w'"
  shows "unat w' = unat w + 1"
proof -
  from assms have lt: "unat w < 2 ^ 32 - 1" and w': "w' = w + 1"
    by (auto simp: inc_u32_Inr_iff)
  have "unat (w + 1) = (unat w + unat (1 :: u32)) mod 2 ^ 32"
    by (simp add: unat_word_ariths)
  with lt w' show ?thesis by simp
qed

lemma inc_u32_ok: "unat w < 2 ^ 32 - 1 \<Longrightarrow> inc_u32 w = Inr (w + 1)"
  by (simp add: inc_u32_Inr_iff)

lemma unat_of_nat_u32_small: "k < 2 ^ 32 \<Longrightarrow> unat (word_of_nat k :: u32) = k"
  by (simp add: unat_of_nat)

lemma div_add_split_nat:
  assumes "0 < (c::nat)"
  shows "(a + s) div c = a div c + (a mod c + s) div c"
proof -
  have split: "(x + c * q) div c = q + x div c" for x q
    using assms by simp
  have "a + s = (a mod c + s) + c * (a div c)" by simp
  then show ?thesis using split [of "a mod c + s" "a div c"] by simp
qed

lemma u32_le_add_of_nat: "unat (a :: u32) + n < 2 ^ 32 \<Longrightarrow> a \<le> a + of_nat n"
  by (simp add: word_le_nat_alt unat_word_ariths unat_of_nat)

lemma unat_add_of_nat_u32: "unat (a :: u32) + n < 2 ^ 32 \<Longrightarrow> unat (a + of_nat n) = unat a + n"
  by (simp add: unat_word_ariths unat_of_nat)

lemma restrict_map_UNIV [simp]: "restrict_map m UNIV = m"
  by (simp add: restrict_map_def)

end
