(* ===== verification/Timer.thy ===== *)
theory Timer
  imports Prelude
begin

text \<open>
  The repeating countdown that paces the periodic spawn: \<open>GameState::spawn_timer\<close>,
  built by \<open>Timer::from_seconds(2.0, true)\<close> and advanced by
  \<open>spawn_timer.tick(engine.delta).just_finished()\<close> in \<open>game_logic\<close>. The timer
  belongs to the engine library (bevy's \<open>Timer\<close>, re-exported by rusty_engine), so
  it is modelled from its contract in the specification (section 4.2) and the
  library's documented algorithm. Time is a \<open>Duration\<close>, an integral number of
  nanoseconds, so durations are \<open>nat\<close>; the number of completions in one tick is
  the library's \<open>u32\<close>, so the cast \<open>as u32\<close> truncates as a \<open>u32\<close> word.
  Pausing is not used by the program and is not modelled.
\<close>

record timer =
  duration :: nat
  elapsed :: nat
  repeating :: bool
  finished :: bool
  times_finished :: u32

definition from_seconds :: "nat \<Rightarrow> bool \<Rightarrow> timer" where
  "from_seconds secs rep =
     \<lparr>duration = secs * 1000000000, elapsed = 0, repeating = rep,
      finished = False, times_finished = 0\<rparr>"

text \<open>
  \<open>tick\<close>: a finished one-shot timer only clears its completion count; otherwise the
  stopwatch advances, and when it reaches the duration a repeating timer records how
  many whole durations passed and keeps the remainder (it subtracts, it does not
  reset), while a one-shot timer stops at its duration.
\<close>

definition tick :: "nat \<Rightarrow> timer \<Rightarrow> timer" where
  "tick delta t =
     (if \<not> repeating t \<and> finished t then t\<lparr>times_finished := 0\<rparr>
      else
        let e = elapsed t + delta in
        if duration t \<le> e then
          (if repeating t then
             let n = (word_of_nat (e div duration t) :: u32)
             in t\<lparr>elapsed := e - duration t * unat n, finished := True, times_finished := n\<rparr>
           else t\<lparr>elapsed := duration t, finished := True, times_finished := 1\<rparr>)
        else t\<lparr>elapsed := e, finished := False, times_finished := 0\<rparr>)"

definition just_finished :: "timer \<Rightarrow> bool" where
  "just_finished t \<longleftrightarrow> 0 < times_finished t"

text \<open>A run of ticks, and the completions it reports, tick by tick.\<close>

fun ticks :: "timer \<Rightarrow> nat list \<Rightarrow> timer" where
  "ticks t [] = t"
| "ticks t (d # ds) = ticks (tick d t) ds"

fun completions :: "timer \<Rightarrow> nat list \<Rightarrow> nat" where
  "completions t [] = 0"
| "completions t (d # ds) = unat (times_finished (tick d t)) + completions (tick d t) ds"

fun signals :: "timer \<Rightarrow> nat list \<Rightarrow> nat" where
  "signals t [] = 0"
| "signals t (d # ds) = (if just_finished (tick d t) then 1 else 0) + signals (tick d t) ds"

text \<open>
  Well-formedness of the repeating timer the program uses: a positive duration and
  an elapsed time below it. A tick is \<open>small\<close> when it cannot complete \<open>2 ^ 32\<close>
  durations at once (the count would wrap in the \<open>u32\<close>); at the program's two
  seconds this allows a frame of up to about 272 years.
\<close>

definition timer_wf :: "timer \<Rightarrow> bool" where
  "timer_wf t \<longleftrightarrow> repeating t \<and> 0 < duration t \<and> elapsed t < duration t"

definition small_tick :: "timer \<Rightarrow> nat \<Rightarrow> bool" where
  "small_tick t delta \<longleftrightarrow> elapsed t + delta < duration t * 2 ^ 32"

lemma tick_wf_step:
  assumes wf: "timer_wf t" and sm: "small_tick t d"
  shows "elapsed (tick d t) = (elapsed t + d) mod duration t"
    and "unat (times_finished (tick d t)) = (elapsed t + d) div duration t"
    and "duration (tick d t) = duration t"
    and "repeating (tick d t)"
    and "finished (tick d t) \<longleftrightarrow> duration t \<le> elapsed t + d"
proof -
  let ?e = "elapsed t + d" and ?D = "duration t"
  from wf have D: "0 < ?D" and rep: "repeating t" by (auto simp: timer_wf_def)
  from sm D have q: "?e div ?D < 2 ^ 32"
    by (simp add: small_tick_def div_less_iff_less_mult mult.commute)
  then have n: "unat (word_of_nat (?e div ?D) :: u32) = ?e div ?D"
    by (rule unat_of_nat_u32_small)
  have r: "?e - ?D * (?e div ?D) = ?e mod ?D"
    by (simp add: minus_mult_div_eq_mod)
  show "elapsed (tick d t) = ?e mod ?D"
    using rep n r by (auto simp: tick_def Let_def)
  show "unat (times_finished (tick d t)) = ?e div ?D"
    using rep n by (auto simp: tick_def Let_def)
  show "duration (tick d t) = ?D" "repeating (tick d t)"
    using rep by (auto simp: tick_def Let_def)
  show "finished (tick d t) \<longleftrightarrow> ?D \<le> ?e"
    using rep by (auto simp: tick_def Let_def)
qed

lemma tick_timer_wf: "timer_wf t \<Longrightarrow> small_tick t d \<Longrightarrow> timer_wf (tick d t)"
  using tick_wf_step [of t d] by (simp add: timer_wf_def)

lemma small_tick_bound:
  "timer_wf t \<Longrightarrow> d < duration t * (2 ^ 32 - 1) \<Longrightarrow> small_tick t d"
  by (auto simp: timer_wf_def small_tick_def algebra_simps)

theorem tick_just_finished_iff:
  assumes "timer_wf t" and "small_tick t d"
  shows "just_finished (tick d t) \<longleftrightarrow> duration t \<le> elapsed t + d"
proof -
  from assms(1) have "0 < duration t" by (simp add: timer_wf_def)
  then have "0 < (elapsed t + d) div duration t \<longleftrightarrow> duration t \<le> elapsed t + d"
    by (simp add: div_greater_zero_iff)
  moreover have "0 < times_finished (tick d t) \<longleftrightarrow> 0 < unat (times_finished (tick d t))"
    by (simp add: unat_gt_0 word_neq_0_conv)
  ultimately show ?thesis
    using tick_wf_step(2) [OF assms] by (simp add: just_finished_def)
qed

theorem ticks_no_drift:
  assumes "timer_wf t" and "\<forall>d \<in> set ds. d < duration t * (2 ^ 32 - 1)"
  shows "elapsed (ticks t ds) = (elapsed t + sum_list ds) mod duration t
       \<and> completions t ds = (elapsed t + sum_list ds) div duration t"
  using assms
proof (induction ds arbitrary: t)
  case Nil
  then show ?case by (simp add: timer_wf_def)
next
  case (Cons d ds)
  let ?t' = "tick d t" and ?D = "duration t"
  from Cons.prems have sm: "small_tick t d" by (simp add: small_tick_bound)
  note step = tick_wf_step [OF Cons.prems(1) sm]
  have wf': "timer_wf ?t'" using Cons.prems(1) sm by (rule tick_timer_wf)
  from Cons.prems(2) step(3) have "\<forall>d \<in> set ds. d < duration ?t' * (2 ^ 32 - 1)" by simp
  with wf' have IH: "elapsed (ticks ?t' ds) = (elapsed ?t' + sum_list ds) mod ?D
       \<and> completions ?t' ds = (elapsed ?t' + sum_list ds) div ?D"
    using Cons.IH step(3) by simp
  have D: "0 < ?D" using Cons.prems(1) by (simp add: timer_wf_def)
  have "elapsed (ticks t (d # ds)) = ((elapsed t + d) mod ?D + sum_list ds) mod ?D"
    using IH step(1) by simp
  also have "\<dots> = (elapsed t + sum_list (d # ds)) mod ?D"
    by (simp add: mod_add_left_eq add.assoc)
  finally have el: "elapsed (ticks t (d # ds)) = (elapsed t + sum_list (d # ds)) mod ?D" .
  have "completions t (d # ds) = (elapsed t + d) div ?D + ((elapsed t + d) mod ?D + sum_list ds) div ?D"
    using IH step(1,2) by simp
  also have "\<dots> = (elapsed t + sum_list (d # ds)) div ?D"
    using div_add_split_nat [OF D, of "elapsed t + d" "sum_list ds"] by (simp add: add.assoc)
  finally show ?case using el by simp
qed

theorem ticks_equiv_single_tick:
  assumes "timer_wf t" and "\<forall>d \<in> set ds. d < duration t * (2 ^ 32 - 1)"
    and "sum_list ds < duration t * (2 ^ 32 - 1)"
  shows "elapsed (ticks t ds) = elapsed (tick (sum_list ds) t)
       \<and> completions t ds = unat (times_finished (tick (sum_list ds) t))"
proof -
  have sm: "small_tick t (sum_list ds)" using assms(1,3) by (rule small_tick_bound)
  show ?thesis
    using ticks_no_drift [OF assms(1,2)] tick_wf_step(1,2) [OF assms(1) sm] by simp
qed

lemma just_finished_le_times: "(if just_finished t then 1 else 0) \<le> unat (times_finished t)"
  by (simp add: just_finished_def unat_gt_0 word_neq_0_conv Suc_leI)

theorem signals_le_completions: "signals t ds \<le> completions t ds"
proof (induction ds arbitrary: t)
  case Nil
  then show ?case by simp
next
  case (Cons d ds)
  have "(if just_finished (tick d t) then 1 else 0) \<le> unat (times_finished (tick d t))"
    by (rule just_finished_le_times)
  with Cons.IH [of "tick d t"] show ?case by simp
qed

lemma signals_pos:
  assumes "timer_wf t" and "\<forall>d \<in> set ds. d < duration t * (2 ^ 32 - 1)"
    and "duration t \<le> elapsed t + sum_list ds"
  shows "0 < signals t ds"
  using assms
proof (induction ds arbitrary: t)
  case Nil
  then show ?case by (simp add: timer_wf_def)
next
  case (Cons d ds)
  have sm: "small_tick t d" using Cons.prems(1,2) by (simp add: small_tick_bound)
  show ?case
  proof (cases "just_finished (tick d t)")
    case True
    then show ?thesis by simp
  next
    case False
    then have lt: "elapsed t + d < duration t"
      using tick_just_finished_iff [OF Cons.prems(1) sm] by simp
    have t1: "elapsed (tick d t) = elapsed t + d" "duration (tick d t) = duration t"
      using tick_wf_step(1,3) [OF Cons.prems(1) sm] lt by simp_all
    have "0 < signals (tick d t) ds"
      using Cons.IH [OF tick_timer_wf [OF Cons.prems(1) sm]] Cons.prems(2,3) t1 by simp
    then show ?thesis by simp
  qed
qed

theorem long_frame_signals_once:
  "completions (from_seconds 2 True) [5000000000] = 2
   \<and> signals (from_seconds 2 True) [5000000000] = 1"
  by (simp add: from_seconds_def tick_def just_finished_def)

theorem one_shot_signals_once:
  assumes "\<not> repeating t" and "finished t"
  shows "signals t ds = 0 \<and> finished (ticks t ds) \<and> elapsed (ticks t ds) = elapsed t"
  using assms
proof (induction ds arbitrary: t)
  case Nil
  then show ?case by simp
next
  case (Cons d ds)
  have "tick d t = t\<lparr>times_finished := 0\<rparr>" using Cons.prems by (simp add: tick_def)
  then show ?case using Cons.IH [of "tick d t"] Cons.prems by (simp add: just_finished_def)
qed

end
