(* ===== verification/Engine.thy ===== *)
theory Engine
  imports Prelude
begin

text \<open>
  The part of rusty_engine's \<open>Engine\<close> that \<open>game_logic\<close> reads and writes: the
  sprite map \<open>engine.sprites\<close> (a \<open>HashMap<String, Sprite>\<close>, here a map from
  labels), the text map \<open>engine.texts\<close>, the collision events of the frame, the
  exit flag, the audio queue, and the input state the engine fills in before it calls
  the logic (keyboard, mouse, frame time, window size). The engine is a library the
  program calls, so its operations are modelled from their documented behaviour:
  \<open>add_sprite\<close> inserts a fresh sprite under its label, replacing any sprite with
  that label; \<open>HashMap::remove\<close> of an absent label does nothing; \<open>get_mut\<close>
  returns nothing for an absent label, which the program's \<open>unwrap()\<close> turns into a
  panic. Positions and angles are \<open>f32\<close> in the code and \<open>real\<close> here: rounding is
  not modelled.
\<close>

datatype KeyCode =
  KeyQ | KeyR | KeyUp | KeyW | KeyDown | KeyS | KeyRight | KeyD | KeyLeft | KeyA
  | KeyOther nat

datatype MouseButton = MouseLeft | MouseRight | MouseMiddle

datatype SpritePreset = RacingCarBlue | RacingCarYellow

datatype MusicPreset = WhimsicalPopsicle

datatype SfxPreset = Minimize1

datatype CollisionState = Begin | End

record collision_event =
  ev_state :: CollisionState
  ev_pair :: "label \<times> label"

record sprite =
  label :: label
  preset :: SpritePreset
  translation :: vec2
  rotation :: real
  collision :: bool

record text_item =
  txt_value :: string
  txt_translation :: vec2

record engine =
  sprites :: "label \<rightharpoonup> sprite"
  texts :: "label \<rightharpoonup> text_item"
  collision_events :: "collision_event list"
  should_exit :: bool
  show_colliders :: bool
  sfx_queue :: "(SfxPreset \<times> real) list"
  music :: "(MusicPreset \<times> real) option"
  keys_pressed :: "KeyCode set"
  keys_just_pressed :: "KeyCode set"
  mouse_just_pressed :: "MouseButton set"
  mouse_location :: "vec2 option"
  delta :: nat
  delta_f32 :: real
  time_since_startup_f64 :: real
  window_dimensions :: vec2

text \<open>The engine's direction constants (radians).\<close>

definition SOUTH_WEST :: real where "SOUTH_WEST = pi * 1.25"

definition SOUTH_EAST :: real where "SOUTH_EAST = pi * 1.75"

text \<open>Rust's \<open>str::starts_with\<close> and the engine's \<open>CollisionPair::one_starts_with\<close>,
  which holds when exactly one of the two labels starts with the text (the engine's
  \<open>either_starts_with\<close> is the inclusive test).\<close>

definition starts_with :: "string \<Rightarrow> string \<Rightarrow> bool" where
  "starts_with s p \<longleftrightarrow> take (length p) s = p"

definition one_starts_with :: "label \<times> label \<Rightarrow> string \<Rightarrow> bool" where
  "one_starts_with pr p \<longleftrightarrow> starts_with (fst pr) p \<noteq> starts_with (snd pr) p"

text \<open>\<open>KeyboardState::pressed\<close>, \<open>pressed_any\<close> and \<open>just_pressed\<close>.\<close>

definition pressed :: "KeyCode \<Rightarrow> engine \<Rightarrow> bool" where
  "pressed k eng \<longleftrightarrow> k \<in> keys_pressed eng"

definition pressed_any :: "KeyCode list \<Rightarrow> engine \<Rightarrow> bool" where
  "pressed_any ks eng \<longleftrightarrow> list_ex (\<lambda>k. k \<in> keys_pressed eng) ks"

definition key_just_pressed :: "KeyCode \<Rightarrow> engine \<Rightarrow> bool" where
  "key_just_pressed k eng \<longleftrightarrow> k \<in> keys_just_pressed eng"

text \<open>
  \<open>Sprite::new\<close>: at the origin, unrotated, without collision. \<open>add_sprite\<close>
  inserts it and hands back a mutable reference; the caller's field assignments on
  that reference are the function \<open>f\<close>.
\<close>

definition new_sprite :: "label \<Rightarrow> SpritePreset \<Rightarrow> sprite" where
  "new_sprite l p = \<lparr>label = l, preset = p, translation = (0, 0), rotation = 0, collision = False\<rparr>"

definition add_sprite :: "label \<Rightarrow> SpritePreset \<Rightarrow> (sprite \<Rightarrow> sprite) \<Rightarrow> engine \<Rightarrow> engine" where
  "add_sprite l p f eng = eng\<lparr>sprites := (sprites eng)(l \<mapsto> f (new_sprite l p))\<rparr>"

definition remove_sprite :: "label \<Rightarrow> engine \<Rightarrow> engine" where
  "remove_sprite l eng = eng\<lparr>sprites := (sprites eng)(l := None)\<rparr>"

text \<open>\<open>sprites.get_mut(l).unwrap()\<close> followed by writes to the sprite.\<close>

definition update_sprite :: "label \<Rightarrow> (sprite \<Rightarrow> sprite) \<Rightarrow> engine \<Rightarrow> engine result" where
  "update_sprite l f eng =
     (case sprites eng l of
        None \<Rightarrow> Inl (UnwrapNone l)
      | Some s \<Rightarrow> Inr (eng\<lparr>sprites := (sprites eng)(l \<mapsto> f s)\<rparr>))"

text \<open>\<open>add_text\<close> and \<open>texts.get_mut(l).unwrap()\<close> followed by writes to the text.\<close>

definition add_text :: "label \<Rightarrow> string \<Rightarrow> (text_item \<Rightarrow> text_item) \<Rightarrow> engine \<Rightarrow> engine" where
  "add_text l v f eng =
     eng\<lparr>texts := (texts eng)(l \<mapsto> f \<lparr>txt_value = v, txt_translation = (0, 0)\<rparr>)\<rparr>"

definition update_text :: "label \<Rightarrow> (text_item \<Rightarrow> text_item) \<Rightarrow> engine \<Rightarrow> engine result" where
  "update_text l f eng =
     (case texts eng l of
        None \<Rightarrow> Inl (UnwrapNone l)
      | Some t \<Rightarrow> Inr (eng\<lparr>texts := (texts eng)(l \<mapsto> f t)\<rparr>))"

definition play_sfx :: "SfxPreset \<Rightarrow> real \<Rightarrow> engine \<Rightarrow> engine" where
  "play_sfx s v eng = eng\<lparr>sfx_queue := sfx_queue eng @ [(s, v)]\<rparr>"

definition play_music :: "MusicPreset \<Rightarrow> real \<Rightarrow> engine \<Rightarrow> engine" where
  "play_music m v eng = eng\<lparr>music := Some (m, v)\<rparr>"

named_theorems engine_simps "how the engine operations act on the sprite and text maps"

lemma update_text_Inr_iff [engine_simps]:
  "update_text l f eng = Inr eng' \<longleftrightarrow>
     (\<exists>t. texts eng l = Some t \<and> eng' = eng\<lparr>texts := (texts eng)(l \<mapsto> f t)\<rparr>)"
  by (auto simp: update_text_def split: option.splits)

lemma update_text_Inl_iff [engine_simps]:
  "update_text l f eng = Inl e \<longleftrightarrow> texts eng l = None \<and> e = UnwrapNone l"
  by (auto simp: update_text_def split: option.splits)

lemma update_sprite_Inr_iff [engine_simps]:
  "update_sprite l f eng = Inr eng' \<longleftrightarrow>
     (\<exists>s. sprites eng l = Some s \<and> eng' = eng\<lparr>sprites := (sprites eng)(l \<mapsto> f s)\<rparr>)"
  by (auto simp: update_sprite_def split: option.splits)

lemma update_sprite_Inl_iff [engine_simps]:
  "update_sprite l f eng = Inl e \<longleftrightarrow> sprites eng l = None \<and> e = UnwrapNone l"
  by (auto simp: update_sprite_def split: option.splits)

lemma update_text_present [engine_simps]:
  "texts eng l = Some t \<Longrightarrow> update_text l f eng = Inr (eng\<lparr>texts := (texts eng)(l \<mapsto> f t)\<rparr>)"
  by (simp add: update_text_def)

lemma update_sprite_present [engine_simps]:
  "sprites eng l = Some s \<Longrightarrow> update_sprite l f eng = Inr (eng\<lparr>sprites := (sprites eng)(l \<mapsto> f s)\<rparr>)"
  by (simp add: update_sprite_def)

lemma dom_add_sprite [simp]: "dom (sprites (add_sprite l p f eng)) = insert l (dom (sprites eng))"
  by (simp add: add_sprite_def)

lemma dom_remove_sprite [simp]: "dom (sprites (remove_sprite l eng)) = dom (sprites eng) - {l}"
  by (simp add: remove_sprite_def)

lemma starts_with_self [simp]: "starts_with s s"
  by (simp add: starts_with_def)

lemma update_text_Inr_D:
  assumes "update_text l f eng = Inr eng'"
  shows "\<exists>tx. eng' = eng\<lparr>texts := tx\<rparr> \<and> dom tx = dom (texts eng)"
proof -
  from assms obtain t where t: "texts eng l = Some t"
    and e: "eng' = eng\<lparr>texts := (texts eng)(l \<mapsto> f t)\<rparr>"
    by (auto simp: update_text_Inr_iff)
  have "dom ((texts eng)(l \<mapsto> f t)) = dom (texts eng)" using t by auto
  with e show ?thesis by blast
qed

end
