(* ===== verification/Labels.thy ===== *)
theory Labels
  imports Engine
begin

text \<open>
  The strings the program builds with \<open>format!\<close>: the labels of spawned cars,
  \<open>format!("ferris{}", ferris_index)\<close> for a click and
  \<open>format!("Ferris{}", ferris_index)\<close> for the timer, and the score texts
  \<open>format!("Score {}", ..)\<close> and \<open>format!("High Score {}", ..)\<close>. A \<open>u32\<close>
  is printed in decimal without leading zeros (Rust's \<open>Display\<close>), which is
  \<open>dec_string\<close> of its value. The round trip through \<open>parse_dec\<close> shows that
  printing is injective, hence that distinct spawn indices give distinct labels.
\<close>

fun dec_string :: "nat \<Rightarrow> string" where
  "dec_string n =
     (if n < 10 then [char_of (48 + n)]
      else dec_string (n div 10) @ [char_of (48 + n mod 10)])"

declare dec_string.simps [simp del]

definition u32_string :: "u32 \<Rightarrow> string" where
  "u32_string w = dec_string (unat w)"

definition parse_dec :: "string \<Rightarrow> nat" where
  "parse_dec s = foldl (\<lambda>acc c. 10 * acc + (of_char c - 48)) 0 s"

definition click_label :: "u32 \<Rightarrow> label" where
  "click_label i = ''ferris'' @ u32_string i"

definition timer_label :: "u32 \<Rightarrow> label" where
  "timer_label i = ''Ferris'' @ u32_string i"

definition score_string :: "u32 \<Rightarrow> string" where
  "score_string n = ''Score '' @ u32_string n"

definition high_score_string :: "u32 \<Rightarrow> string" where
  "high_score_string n = ''High Score '' @ u32_string n"

definition player_label :: label where
  "player_label = ''player''"

text \<open>The characters of a decimal numeral.\<close>

definition is_digit :: "char \<Rightarrow> bool" where
  "is_digit c \<longleftrightarrow> 48 \<le> (of_char c :: nat) \<and> (of_char c :: nat) \<le> 57"

lemma parse_dec_snoc: "parse_dec (s @ [c]) = 10 * parse_dec s + (of_char c - 48)"
  by (simp add: parse_dec_def)

lemma of_char_digit: "d < 10 \<Longrightarrow> of_char (char_of (48 + d) :: char) - 48 = (d :: nat)"
  by (simp add: of_char_of)

lemma parse_dec_dec_string: "parse_dec (dec_string n) = n"
proof (induction n rule: dec_string.induct)
  case (1 n)
  show ?case
  proof (cases "n < 10")
    case True
    then show ?thesis
      by (simp add: dec_string.simps [of n] parse_dec_def of_char_digit)
  next
    case False
    then have "parse_dec (dec_string n) = 10 * parse_dec (dec_string (n div 10)) + n mod 10"
      by (simp add: dec_string.simps [of n] parse_dec_snoc of_char_digit)
    with "1.IH" False show ?thesis by simp
  qed
qed

lemma of_char_digit_char: "d < 10 \<Longrightarrow> (of_char (char_of (48 + d) :: char) :: nat) = 48 + d"
  by (simp add: of_char_of)

lemma dec_string_digits: "list_all is_digit (dec_string n)"
proof (induction n rule: dec_string.induct)
  case (1 n)
  then show ?case
    by (cases "n < 10") (simp_all add: dec_string.simps [of n] is_digit_def of_char_digit_char)
qed

lemma dec_string_inj: "dec_string m = dec_string n \<longleftrightarrow> m = n"
  by (metis parse_dec_dec_string)

lemma u32_string_inj: "u32_string i = u32_string j \<longleftrightarrow> i = j"
  by (simp add: u32_string_def dec_string_inj word_unat_eq_iff)

lemma click_label_inj: "click_label i = click_label j \<longleftrightarrow> i = j"
  by (simp add: click_label_def u32_string_inj)

lemma timer_label_inj: "timer_label i = timer_label j \<longleftrightarrow> i = j"
  by (simp add: timer_label_def u32_string_inj)

lemma click_timer_label_distinct: "click_label i \<noteq> timer_label j"
  by (simp add: click_label_def timer_label_def)

lemma spawn_labels_ne_player [simp]:
  "click_label i \<noteq> player_label" "timer_label i \<noteq> player_label"
  by (simp_all add: click_label_def timer_label_def player_label_def)

lemma player_ne_spawn_labels [simp]:
  "player_label \<noteq> click_label i" "player_label \<noteq> timer_label i"
  using spawn_labels_ne_player [of i] by (simp_all add: eq_commute)

lemma score_string_zero: "score_string 0 = ''Score 0''"
  by code_simp

end
