(* ===== verification/GameState.thy ===== *)
theory GameState
  imports Timer Labels
begin

text \<open>
  The program's own state, \<open>struct GameState\<close> of \<open>src/src/main.rs\<close>: the two
  scores and the spawn counter as \<open>u32\<close> words and the spawn timer, with the
  initial value of \<open>impl Default for GameState\<close>. Beside it, the abstract contract
  of the score tracker of the specification (section 4.4): unbounded scores,
  \<open>register_point\<close> and \<open>reset_current\<close>; \<open>abs_score\<close> reads a game state
  as such an abstract score. The refinement lemmas that connect the two are in
  \<open>Collision\<close> and \<open>Input\<close>, where the code's score updates are.
\<close>

record game_state =
  high_score :: u32
  current_score :: u32
  ferris_index :: u32
  spawn_timer :: timer

definition default_game_state :: game_state where
  "default_game_state =
     \<lparr>high_score = 0, current_score = 0, ferris_index = 0, spawn_timer = from_seconds 2 True\<rparr>"

record score_spec =
  cur :: nat
  hi :: nat

definition register_point :: "score_spec \<Rightarrow> score_spec" where
  "register_point s = (let c = cur s + 1 in \<lparr>cur = c, hi = max (hi s) c\<rparr>)"

definition reset_current :: "score_spec \<Rightarrow> score_spec" where
  "reset_current s = s\<lparr>cur := 0\<rparr>"

definition abs_score :: "game_state \<Rightarrow> score_spec" where
  "abs_score gs = \<lparr>cur = unat (current_score gs), hi = unat (high_score gs)\<rparr>"

definition score_inv :: "score_spec \<Rightarrow> bool" where
  "score_inv s \<longleftrightarrow> cur s \<le> hi s"

lemma register_point_score_inv: "score_inv (register_point s)"
  by (simp add: register_point_def score_inv_def Let_def)

lemma reset_current_score_inv: "score_inv s \<Longrightarrow> score_inv (reset_current s)"
  by (simp add: reset_current_def score_inv_def)

lemma abs_score_default: "abs_score default_game_state = \<lparr>cur = 0, hi = 0\<rparr>"
  by (simp add: abs_score_def default_game_state_def)

lemma timer_wf_default: "timer_wf (spawn_timer default_game_state)"
  by (simp add: default_game_state_def from_seconds_def timer_wf_def)

lemma funpow_register_point:
  "cur s \<le> hi s \<Longrightarrow>
   (register_point ^^ n) s = \<lparr>cur = cur s + n, hi = (if n = 0 then hi s else max (hi s) (cur s + n))\<rparr>"
proof (induction n)
  case 0
  then show ?case by simp
next
  case (Suc n)
  then show ?case by (auto simp: register_point_def Let_def max_def)
qed

text \<open>
  C28: the program's spawn timer does not drift: over any sequence of frame times, its
  elapsed time is the total modulo two seconds and the completions it reports add up
  to the total divided by two seconds, however the total is split into frames.
\<close>

theorem spawn_timer_no_drift:
  assumes "\<forall>d \<in> set ds. d < 2000000000 * (2 ^ 32 - 1)"
  shows "elapsed (ticks (spawn_timer default_game_state) ds) = sum_list ds mod 2000000000
     \<and> completions (spawn_timer default_game_state) ds = sum_list ds div 2000000000"
  using ticks_no_drift [OF timer_wf_default, of ds] assms
  by (simp add: default_game_state_def from_seconds_def)

theorem spawn_timer_no_drift_witness:
  "elapsed (ticks (spawn_timer default_game_state) [1500000000, 1000000000, 2600000000]) = 1100000000
   \<and> completions (spawn_timer default_game_state) [1500000000, 1000000000, 2600000000] = 2"
  using spawn_timer_no_drift [of "[1500000000, 1000000000, 2600000000]"] by simp

end
