(* ===== verification/Setup.thy ===== *)
theory Setup
  imports GameState
begin

text \<open>
  The start of the session, \<open>main\<close> of \<open>src/src/main.rs\<close> (lines 22 to 40):
  \<open>Game::new()\<close> gives an engine with no sprites, texts or input
  (\<open>empty_engine\<close>, the library's initial value); \<open>main\<close> adds the player's car
  at the origin facing south-west with collision on, the two score texts, and starts
  the music (\<open>initial_engine\<close>). The session's game state is
  \<open>default_game_state\<close>.
\<close>

definition empty_engine :: engine where
  "empty_engine =
     \<lparr>sprites = Map.empty, texts = Map.empty, collision_events = [], should_exit = False,
      show_colliders = False, sfx_queue = [], music = None, keys_pressed = {},
      keys_just_pressed = {}, mouse_just_pressed = {}, mouse_location = None, delta = 0,
      delta_f32 = 0, time_since_startup_f64 = 0, window_dimensions = (1280, 720)\<rparr>"

definition initial_engine :: engine where
  "initial_engine =
     play_music WhimsicalPopsicle 0.1
       (add_text ''high_score'' ''High Score: 0'' (\<lambda>t. t\<lparr>txt_translation := (-520, 320)\<rparr>)
         (add_text ''score'' ''Score: 0'' (\<lambda>t. t\<lparr>txt_translation := (520, 320)\<rparr>)
           (add_sprite player_label RacingCarBlue
              (\<lambda>s. s\<lparr>translation := (0, 0), rotation := SOUTH_WEST, collision := True\<rparr>)
              empty_engine)))"

lemma initial_engine_fields [simp]:
  "dom (sprites initial_engine) = {player_label}"
  "dom (texts initial_engine) = {''score'', ''high_score''}"
  "collision_events initial_engine = []"
  "should_exit initial_engine = False"
  by (auto simp: initial_engine_def empty_engine_def add_text_def add_sprite_def play_music_def)

end
