(* ===== verification/Collision.thy ===== *)
theory Collision
  imports Setup
begin

text \<open>
  The collision resolver, the loop \<open>for event in engine.collision_events.drain(..)\<close>
  of \<open>game_logic\<close> (lines 58 to 82 of \<open>src/src/main.rs\<close>). An event scores when it
  is a \<open>Begin\<close> and exactly one of its two labels starts with \<open>"player"\<close>
  (\<open>is_scoring\<close>, through the library's \<open>one_starts_with\<close>); then every label of the pair other than \<open>"player"\<close> is removed
  from the sprite map (\<open>remove_pair\<close>), and \<open>score_point\<close> increments the current
  score, rewrites the score text, raises the high score and its text when the current
  score passed it, and queues the sound effect. The \<open>println!\<close> calls are output
  only and are not modelled.
\<close>

definition is_scoring :: "collision_event \<Rightarrow> bool" where
  "is_scoring ev \<longleftrightarrow> ev_state ev = Begin \<and> one_starts_with (ev_pair ev) player_label"

definition remove_pair :: "label \<times> label \<Rightarrow> engine \<Rightarrow> engine" where
  "remove_pair pr eng =
     fold (\<lambda>l e. if l \<noteq> player_label then remove_sprite l e else e) [fst pr, snd pr] eng"

definition score_point :: "engine \<Rightarrow> game_state \<Rightarrow> (engine \<times> game_state) result" where
  "score_point eng gs =
     bindr (inc_u32 (current_score gs)) (\<lambda>c.
     bindr (update_text ''score'' (\<lambda>t. t\<lparr>txt_value := score_string c\<rparr>) eng) (\<lambda>eng1.
     bindr (if high_score gs < c
            then bindr (update_text ''high_score'' (\<lambda>t. t\<lparr>txt_value := high_score_string c\<rparr>) eng1)
                   (\<lambda>eng2. Inr (eng2, gs\<lparr>current_score := c, high_score := c\<rparr>))
            else Inr (eng1, gs\<lparr>current_score := c\<rparr>))
     (\<lambda>(eng3, gs3). Inr (play_sfx Minimize1 0.3 eng3, gs3))))"

definition handle_event :: "collision_event \<Rightarrow> engine \<Rightarrow> game_state \<Rightarrow> (engine \<times> game_state) result" where
  "handle_event ev eng gs =
     (if is_scoring ev then score_point (remove_pair (ev_pair ev) eng) gs else Inr (eng, gs))"

fun drain_events :: "collision_event list \<Rightarrow> engine \<Rightarrow> game_state \<Rightarrow> (engine \<times> game_state) result" where
  "drain_events [] eng gs = Inr (eng, gs)"
| "drain_events (ev # evs) eng gs =
     bindr (handle_event ev eng gs) (\<lambda>(eng', gs'). drain_events evs eng' gs')"

definition drain_collisions :: "engine \<Rightarrow> game_state \<Rightarrow> (engine \<times> game_state) result" where
  "drain_collisions eng gs = drain_events (collision_events eng) (eng\<lparr>collision_events := []\<rparr>) gs"

text \<open>The labels a scoring event removes, and the labels a batch removes.\<close>

definition victims :: "label \<times> label \<Rightarrow> label set" where
  "victims pr = {l \<in> {fst pr, snd pr}. l \<noteq> player_label}"

definition batch_victims :: "collision_event list \<Rightarrow> label set" where
  "batch_victims evs = (\<Union>ev \<in> set (filter is_scoring evs). victims (ev_pair ev))"

definition batch_state :: "collision_event list \<Rightarrow> game_state \<Rightarrow> game_state" where
  "batch_state evs gs =
     (let n = length (filter is_scoring evs)
      in gs\<lparr>current_score := current_score gs + of_nat n,
            high_score := (if filter is_scoring evs = [] then high_score gs
                           else max (high_score gs) (current_score gs + of_nat n))\<rparr>)"

definition batch_engine :: "collision_event list \<Rightarrow> (label \<rightharpoonup> text_item) \<Rightarrow> engine \<Rightarrow> engine" where
  "batch_engine evs tx eng =
     eng\<lparr>collision_events := [],
         sprites := restrict_map (sprites eng) (- batch_victims evs), texts := tx,
         sfx_queue := sfx_queue eng @ replicate (length (filter is_scoring evs)) (Minimize1, 0.3)\<rparr>"

lemma remove_pair_eq:
  "remove_pair pr eng = eng\<lparr>sprites := restrict_map (sprites eng) (- victims pr)\<rparr>"
  by (cases pr) (auto simp: remove_pair_def remove_sprite_def victims_def restrict_map_def fun_eq_iff)

lemma score_point_eq:
  assumes ts: "texts eng ''score'' = Some ts" and th: "texts eng ''high_score'' = Some th"
    and lt: "unat (current_score gs) < 2 ^ 32 - 1"
  shows "\<exists>tx. score_point eng gs =
      Inr (eng\<lparr>texts := tx, sfx_queue := sfx_queue eng @ [(Minimize1, 0.3)]\<rparr>,
           gs\<lparr>current_score := current_score gs + 1,
              high_score := max (high_score gs) (current_score gs + 1)\<rparr>)
    \<and> dom tx = dom (texts eng)"
proof -
  let ?c = "current_score gs + 1"
  let ?tx1 = "(texts eng)(''score'' \<mapsto> ts\<lparr>txt_value := score_string ?c\<rparr>)"
  have th1: "?tx1 ''high_score'' = Some th" using th by simp
  show ?thesis
  proof (cases "high_score gs < ?c")
    case True
    let ?tx2 = "?tx1(''high_score'' \<mapsto> th\<lparr>txt_value := high_score_string ?c\<rparr>)"
    have "score_point eng gs =
      Inr (eng\<lparr>texts := ?tx2, sfx_queue := sfx_queue eng @ [(Minimize1, 0.3)]\<rparr>,
           gs\<lparr>current_score := ?c, high_score := max (high_score gs) ?c\<rparr>)"
      using True ts th1 lt
      by (simp add: score_point_def inc_u32_ok update_text_present play_sfx_def max_def)
    moreover have "dom ?tx2 = dom (texts eng)" using ts th by auto
    ultimately show ?thesis by blast
  next
    case False
    have "score_point eng gs =
      Inr (eng\<lparr>texts := ?tx1, sfx_queue := sfx_queue eng @ [(Minimize1, 0.3)]\<rparr>,
           gs\<lparr>current_score := ?c, high_score := max (high_score gs) ?c\<rparr>)"
      using False ts lt
      by (simp add: score_point_def inc_u32_ok update_text_present play_sfx_def max_def)
    moreover have "dom ?tx1 = dom (texts eng)" using ts by auto
    ultimately show ?thesis by blast
  qed
qed

lemma handle_event_other: "\<not> is_scoring ev \<Longrightarrow> handle_event ev eng gs = Inr (eng, gs)"
  by (simp add: handle_event_def)

lemma handle_event_scoring:
  assumes "is_scoring ev"
    and "''score'' \<in> dom (texts eng)" and "''high_score'' \<in> dom (texts eng)"
    and "unat (current_score gs) < 2 ^ 32 - 1"
  shows "\<exists>tx. handle_event ev eng gs =
      Inr (eng\<lparr>sprites := restrict_map (sprites eng) (- victims (ev_pair ev)), texts := tx,
               sfx_queue := sfx_queue eng @ [(Minimize1, 0.3)]\<rparr>,
           gs\<lparr>current_score := current_score gs + 1,
              high_score := max (high_score gs) (current_score gs + 1)\<rparr>)
    \<and> dom tx = dom (texts eng)"
proof -
  from assms(2,3) obtain ts th where "texts eng ''score'' = Some ts" "texts eng ''high_score'' = Some th"
    by auto
  then have "texts (remove_pair (ev_pair ev) eng) ''score'' = Some ts"
    "texts (remove_pair (ev_pair ev) eng) ''high_score'' = Some th"
    by (simp_all add: remove_pair_eq)
  from score_point_eq [OF this assms(4)] assms(1) show ?thesis
    by (simp add: handle_event_def remove_pair_eq)
qed

lemma drain_events_eq:
  assumes "''score'' \<in> dom (texts eng)" and "''high_score'' \<in> dom (texts eng)"
    and "unat (current_score gs) + length (filter is_scoring evs) < 2 ^ 32"
  shows "\<exists>tx. drain_events evs eng gs =
     Inr (eng\<lparr>sprites := restrict_map (sprites eng) (- batch_victims evs), texts := tx,
             sfx_queue := sfx_queue eng @ replicate (length (filter is_scoring evs)) (Minimize1, 0.3)\<rparr>,
          gs\<lparr>current_score := current_score gs + of_nat (length (filter is_scoring evs)),
             high_score := (if filter is_scoring evs = [] then high_score gs
                            else max (high_score gs)
                                   (current_score gs + of_nat (length (filter is_scoring evs))))\<rparr>)
     \<and> dom tx = dom (texts eng)"
  using assms
proof (induction evs arbitrary: eng gs)
  case Nil
  then show ?case by (auto simp: batch_victims_def intro: exI [where x = "texts eng"])
next
  case (Cons ev evs)
  show ?case
  proof (cases "is_scoring ev")
    case True
    let ?n = "length (filter is_scoring evs)"
    have lt: "unat (current_score gs) < 2 ^ 32 - 1" using Cons.prems(3) True by simp
    obtain tx where h: "handle_event ev eng gs =
      Inr (eng\<lparr>sprites := restrict_map (sprites eng) (- victims (ev_pair ev)), texts := tx,
               sfx_queue := sfx_queue eng @ [(Minimize1, 0.3)]\<rparr>,
           gs\<lparr>current_score := current_score gs + 1,
              high_score := max (high_score gs) (current_score gs + 1)\<rparr>)"
      and dtx: "dom tx = dom (texts eng)"
      using handle_event_scoring [OF True Cons.prems(1,2) lt] by blast
    have u1: "unat (current_score gs + 1) = unat (current_score gs) + 1"
      using lt by (simp add: unat_word_ariths)
    have "unat (current_score gs + 1) + ?n < 2 ^ 32" using Cons.prems(3) True u1 by simp
    with Cons.IH [of "eng\<lparr>sprites := restrict_map (sprites eng) (- victims (ev_pair ev)), texts := tx,
               sfx_queue := sfx_queue eng @ [(Minimize1, 0.3)]\<rparr>"
        "gs\<lparr>current_score := current_score gs + 1,
              high_score := max (high_score gs) (current_score gs + 1)\<rparr>"] Cons.prems(1,2) dtx
    obtain tx' where r: "drain_events evs
        (eng\<lparr>sprites := restrict_map (sprites eng) (- victims (ev_pair ev)), texts := tx,
               sfx_queue := sfx_queue eng @ [(Minimize1, 0.3)]\<rparr>)
        (gs\<lparr>current_score := current_score gs + 1,
              high_score := max (high_score gs) (current_score gs + 1)\<rparr>) =
      Inr (eng\<lparr>sprites := restrict_map (restrict_map (sprites eng) (- victims (ev_pair ev))) (- batch_victims evs),
               texts := tx', sfx_queue := (sfx_queue eng @ [(Minimize1, 0.3)]) @ replicate ?n (Minimize1, 0.3)\<rparr>,
           gs\<lparr>current_score := current_score gs + 1 + of_nat ?n,
              high_score := (if filter is_scoring evs = [] then max (high_score gs) (current_score gs + 1)
                             else max (max (high_score gs) (current_score gs + 1)) (current_score gs + 1 + of_nat ?n))\<rparr>)"
      and dtx': "dom tx' = dom (texts eng)"
      by auto
    have mono: "current_score gs + 1 \<le> current_score gs + 1 + of_nat ?n"
      using \<open>unat (current_score gs + 1) + ?n < 2 ^ 32\<close> by (rule u32_le_add_of_nat)
    have sv: "restrict_map (restrict_map (sprites eng) (- victims (ev_pair ev))) (- batch_victims evs)
        = restrict_map (sprites eng) (- batch_victims (ev # evs))"
      using True by (simp add: batch_victims_def Compl_Un)
    have cs: "current_score gs + 1 + of_nat ?n = current_score gs + of_nat (length (filter is_scoring (ev # evs)))"
      using True by simp
    have hs: "(if filter is_scoring evs = [] then max (high_score gs) (current_score gs + 1)
               else max (max (high_score gs) (current_score gs + 1)) (current_score gs + 1 + of_nat ?n))
            = max (high_score gs) (current_score gs + 1 + of_nat ?n)"
      using mono by (auto simp: max_def)
    have sq: "(sfx_queue eng @ [(Minimize1, 0.3)]) @ replicate ?n (Minimize1, 0.3)
            = sfx_queue eng @ replicate (length (filter is_scoring (ev # evs))) (Minimize1, 0.3)"
      using True by (simp add: replicate_append_same)
    show ?thesis using h r dtx' sv cs hs sq True by auto
  next
    case False
    then have h: "handle_event ev eng gs = Inr (eng, gs)" by (rule handle_event_other)
    have f: "filter is_scoring (ev # evs) = filter is_scoring evs" using False by simp
    have b: "batch_victims (ev # evs) = batch_victims evs" using f by (simp add: batch_victims_def)
    from Cons.prems(3) f have "unat (current_score gs) + length (filter is_scoring evs) < 2 ^ 32"
      by simp
    from Cons.IH [OF Cons.prems(1,2) this] h show ?thesis
      by (simp only: f b drain_events.simps bindr_Inr prod.case)
  qed
qed

lemma player_not_victim: "player_label \<notin> victims pr"
  by (simp add: victims_def)

lemma player_not_batch_victim: "player_label \<notin> batch_victims evs"
  by (simp add: batch_victims_def player_not_victim)

lemma unat_max_u32: "unat (max (a :: u32) b) = max (unat a) (unat b)"
  by (simp add: max_def word_le_nat_alt)

lemma score_point_Inr_D:
  assumes "score_point eng gs = Inr (eng', gs')"
  shows "unat (current_score gs) < 2 ^ 32 - 1 \<and> current_score gs' = current_score gs + 1
       \<and> high_score gs' = max (high_score gs) (current_score gs + 1)
       \<and> ferris_index gs' = ferris_index gs \<and> spawn_timer gs' = spawn_timer gs"
proof -
  let ?c = "current_score gs + 1"
  have "unat (current_score gs) < 2 ^ 32 - 1
     \<and> gs' = (if high_score gs < ?c then gs\<lparr>current_score := ?c, high_score := ?c\<rparr>
              else gs\<lparr>current_score := ?c\<rparr>)"
    using assms by (auto simp: score_point_def bindr_eq_Inr_iff inc_u32_Inr_iff split: if_splits)
  then show ?thesis by (auto simp: max_def)
qed

lemma score_point_Inr_engine:
  assumes "score_point eng gs = Inr (eng', gs')"
  shows "\<exists>tx. eng' = eng\<lparr>texts := tx, sfx_queue := sfx_queue eng @ [(Minimize1, 0.3)]\<rparr>
              \<and> dom tx = dom (texts eng)"
  using assms
  by (auto simp: score_point_def bindr_eq_Inr_iff update_text_Inr_iff play_sfx_def
      split: if_splits)

lemma handle_event_Inr_D:
  assumes "handle_event ev eng gs = Inr (eng', gs')"
  shows "\<exists>tx sq. eng' = eng\<lparr>sprites := restrict_map (sprites eng)
                             (- (if is_scoring ev then victims (ev_pair ev) else {})),
                           texts := tx, sfx_queue := sq\<rparr>
     \<and> dom tx = dom (texts eng)
     \<and> gs' = (if is_scoring ev
              then gs\<lparr>current_score := current_score gs + 1,
                      high_score := max (high_score gs) (current_score gs + 1)\<rparr>
              else gs)
     \<and> (is_scoring ev \<longrightarrow> unat (current_score gs) < 2 ^ 32 - 1)"
proof (cases "is_scoring ev")
  case True
  with assms have sp: "score_point (remove_pair (ev_pair ev) eng) gs = Inr (eng', gs')"
    by (simp add: handle_event_def)
  obtain tx where e: "eng' = (remove_pair (ev_pair ev) eng)\<lparr>texts := tx,
        sfx_queue := sfx_queue eng @ [(Minimize1, 0.3)]\<rparr>" and d: "dom tx = dom (texts eng)"
    using score_point_Inr_engine [OF sp] by (auto simp: remove_pair_eq)
  have g: "gs' = gs\<lparr>current_score := current_score gs + 1,
                    high_score := max (high_score gs) (current_score gs + 1)\<rparr>"
    and lt: "unat (current_score gs) < 2 ^ 32 - 1"
    using score_point_Inr_D [OF sp] by simp_all
  show ?thesis using e d g lt True by (auto simp: remove_pair_eq)
next
  case False
  with assms have "eng' = eng" "gs' = gs" by (simp_all add: handle_event_def)
  with False show ?thesis
    by (intro exI [where x = "texts eng"] exI [where x = "sfx_queue eng"]) simp
qed

lemma handle_event_Inl_overflow:
  assumes "handle_event ev eng gs = Inl e"
    and "''score'' \<in> dom (texts eng)" and "''high_score'' \<in> dom (texts eng)"
  shows "e = AddOverflow"
  using assms
  by (auto simp: handle_event_def score_point_def remove_pair_eq bindr_eq_Inl_iff bindr_eq_Inr_iff
      inc_u32_def update_text_def split: if_splits option.splits)

lemma handle_event_dom_texts:
  assumes "handle_event ev eng gs = Inr (eng', gs')"
  shows "dom (texts eng') = dom (texts eng)"
proof -
  from handle_event_Inr_D [OF assms] obtain tx sq where
    e: "eng' = eng\<lparr>sprites := restrict_map (sprites eng)
                             (- (if is_scoring ev then victims (ev_pair ev) else {})),
                           texts := tx, sfx_queue := sq\<rparr>"
    and d: "dom tx = dom (texts eng)"
    by blast
  from e d show ?thesis by simp
qed

lemma drain_events_Inr_D:
  assumes "drain_events evs eng gs = Inr (eng', gs')"
  shows "\<exists>tx sq. eng' = eng\<lparr>sprites := restrict_map (sprites eng) (- batch_victims evs),
                           texts := tx, sfx_queue := sq\<rparr>
     \<and> dom tx = dom (texts eng)
     \<and> unat (current_score gs') = unat (current_score gs) + length (filter is_scoring evs)
     \<and> high_score gs \<le> high_score gs'
     \<and> (current_score gs \<le> high_score gs \<longrightarrow> current_score gs' \<le> high_score gs')
     \<and> ferris_index gs' = ferris_index gs \<and> spawn_timer gs' = spawn_timer gs
     \<and> (filter is_scoring evs = [] \<longrightarrow> gs' = gs)"
  using assms
proof (induction evs arbitrary: eng gs)
  case Nil
  then have "eng' = eng" "gs' = gs" by simp_all
  then show ?case
    by (intro exI [where x = "texts eng"] exI [where x = "sfx_queue eng"]) (simp add: batch_victims_def)
next
  case (Cons ev evs)
  from Cons.prems obtain eng1 gs1 where h: "handle_event ev eng gs = Inr (eng1, gs1)"
    and r: "drain_events evs eng1 gs1 = Inr (eng', gs')"
    by (auto simp: bindr_eq_Inr_iff)
  obtain tx sq where e1: "eng1 = eng\<lparr>sprites := restrict_map (sprites eng)
                             (- (if is_scoring ev then victims (ev_pair ev) else {})),
                           texts := tx, sfx_queue := sq\<rparr>"
    and d1: "dom tx = dom (texts eng)"
    and g1: "gs1 = (if is_scoring ev
              then gs\<lparr>current_score := current_score gs + 1,
                      high_score := max (high_score gs) (current_score gs + 1)\<rparr>
              else gs)"
    and lt: "is_scoring ev \<longrightarrow> unat (current_score gs) < 2 ^ 32 - 1"
    using handle_event_Inr_D [OF h] by blast
  obtain tx' sq' where e2: "eng' = eng1\<lparr>sprites := restrict_map (sprites eng1) (- batch_victims evs),
                           texts := tx', sfx_queue := sq'\<rparr>"
    and d2: "dom tx' = dom (texts eng1)"
    and rest: "unat (current_score gs') = unat (current_score gs1) + length (filter is_scoring evs)"
       "high_score gs1 \<le> high_score gs'"
       "current_score gs1 \<le> high_score gs1 \<longrightarrow> current_score gs' \<le> high_score gs'"
       "ferris_index gs' = ferris_index gs1" "spawn_timer gs' = spawn_timer gs1"
       "filter is_scoring evs = [] \<longrightarrow> gs' = gs1"
    using Cons.IH [OF r] by blast
  have sv: "restrict_map (restrict_map (sprites eng) (- (if is_scoring ev then victims (ev_pair ev) else {})))
             (- batch_victims evs) = restrict_map (sprites eng) (- batch_victims (ev # evs))"
    by (auto simp: batch_victims_def Compl_Un)
  have u1: "is_scoring ev \<Longrightarrow> unat (current_score gs + 1) = unat (current_score gs) + 1"
    using lt by (simp add: unat_word_ariths)
  have hm: "high_score gs \<le> high_score gs1" using g1 by auto
  have cm: "current_score gs \<le> high_score gs \<Longrightarrow> current_score gs1 \<le> high_score gs1"
    using g1 by auto
  show ?case
    using e1 e2 d1 d2 rest sv u1 hm cm g1 by (auto split: if_splits)
qed

text \<open>
  C4: on every event that returns, the code's score update refines the score tracker
  of the specification: a scoring event acts on the abstract score as
  \<open>register_point\<close>, any other event leaves it unchanged.
\<close>

theorem handle_event_refines:
  assumes "handle_event ev eng gs = Inr (eng', gs')"
  shows "abs_score gs' = (if is_scoring ev then register_point (abs_score gs) else abs_score gs)"
proof (cases "is_scoring ev")
  case True
  with assms have sp: "score_point (remove_pair (ev_pair ev) eng) gs = Inr (eng', gs')"
    by (simp add: handle_event_def)
  have s: "unat (current_score gs) < 2 ^ 32 - 1" "current_score gs' = current_score gs + 1"
      "high_score gs' = max (high_score gs) (current_score gs + 1)"
    using score_point_Inr_D [OF sp] by simp_all
  have "unat (current_score gs + 1) = unat (current_score gs) + 1"
    using s(1) by (simp add: unat_word_ariths)
  with s True show ?thesis
    by (simp add: abs_score_def register_point_def unat_max_u32)
next
  case False
  with assms show ?thesis by (simp add: handle_event_def)
qed

text \<open>
  C5: an event panics exactly when it scores and either the current score is already
  \<open>u32::MAX\<close>, or the score text is missing, or the high score must be raised and
  the high-score text is missing; a non-scoring event never fails.
\<close>

theorem handle_event_Inl_iff:
  "handle_event ev eng gs = Inl e \<longleftrightarrow>
     is_scoring ev \<and>
     (unat (current_score gs) = 2 ^ 32 - 1 \<and> e = AddOverflow
      \<or> unat (current_score gs) < 2 ^ 32 - 1 \<and> texts eng ''score'' = None \<and> e = UnwrapNone ''score''
      \<or> unat (current_score gs) < 2 ^ 32 - 1 \<and> texts eng ''score'' \<noteq> None
         \<and> high_score gs < current_score gs + 1 \<and> texts eng ''high_score'' = None
         \<and> e = UnwrapNone ''high_score'')"
proof -
  have lt: "unat (current_score gs) < 2 ^ 32" using unsigned_less [of "current_score gs"] by simp
  show ?thesis
    using lt
    by (auto simp: handle_event_def score_point_def remove_pair_eq bindr_eq_Inl_iff bindr_eq_Inr_iff
        inc_u32_def update_text_def split: if_splits option.splits)
qed

lemma drain_collisions_eq:
  assumes "''score'' \<in> dom (texts eng)" and "''high_score'' \<in> dom (texts eng)"
    and "unat (current_score gs) + length (filter is_scoring (collision_events eng)) < 2 ^ 32"
  shows "\<exists>tx. drain_collisions eng gs =
            Inr (batch_engine (collision_events eng) tx eng, batch_state (collision_events eng) gs)
          \<and> dom tx = dom (texts eng)"
  using drain_events_eq [of "eng\<lparr>collision_events := []\<rparr>" gs "collision_events eng"] assms
  by (simp add: drain_collisions_def batch_engine_def batch_state_def Let_def)

lemma drain_events_Inr_high:
  assumes "drain_events evs eng gs = Inr (eng', gs')" and "filter is_scoring evs \<noteq> []"
  shows "high_score gs' = max (high_score gs) (current_score gs')"
  using assms
proof (induction evs arbitrary: eng gs)
  case Nil
  then show ?case by simp
next
  case (Cons ev evs)
  from Cons.prems(1) obtain eng1 gs1 where h: "handle_event ev eng gs = Inr (eng1, gs1)"
    and r: "drain_events evs eng1 gs1 = Inr (eng', gs')"
    by (auto simp: bindr_eq_Inr_iff)
  have g1: "gs1 = (if is_scoring ev
              then gs\<lparr>current_score := current_score gs + 1,
                      high_score := max (high_score gs) (current_score gs + 1)\<rparr>
              else gs)"
    using handle_event_Inr_D [OF h] by blast
  have rest: "unat (current_score gs') = unat (current_score gs1) + length (filter is_scoring evs)"
    "filter is_scoring evs = [] \<longrightarrow> gs' = gs1"
    using drain_events_Inr_D [OF r] by blast+
  show ?case
  proof (cases "filter is_scoring evs = []")
    case True
    with Cons.prems(2) have "is_scoring ev" by (auto split: if_splits)
    with True rest(2) g1 show ?thesis by simp
  next
    case False
    with Cons.IH [OF r] have ih: "high_score gs' = max (high_score gs1) (current_score gs')" .
    have "current_score gs1 \<le> current_score gs'"
      using rest(1) by (simp add: word_le_nat_alt)
    with ih g1 show ?thesis by (auto simp: max_def)
  qed
qed

lemma drain_collisions_abs:
  assumes "drain_collisions eng gs = Inr (eng', gs')" and "current_score gs \<le> high_score gs"
  shows "abs_score gs' = (register_point ^^ length (filter is_scoring (collision_events eng))) (abs_score gs)
     \<and> dom (sprites eng') = dom (sprites eng) - batch_victims (collision_events eng)
     \<and> ferris_index gs' = ferris_index gs \<and> spawn_timer gs' = spawn_timer gs"
proof -
  let ?evs = "collision_events eng" let ?n = "length (filter is_scoring ?evs)"
  from assms(1) have d: "drain_events ?evs (eng\<lparr>collision_events := []\<rparr>) gs = Inr (eng', gs')"
    by (simp add: drain_collisions_def)
  from drain_events_Inr_D [OF d] obtain tx sq where
    e: "eng' = eng\<lparr>collision_events := [], sprites := restrict_map (sprites eng) (- batch_victims ?evs),
                  texts := tx, sfx_queue := sq\<rparr>"
    and g: "unat (current_score gs') = unat (current_score gs) + ?n"
      "ferris_index gs' = ferris_index gs" "spawn_timer gs' = spawn_timer gs"
      "filter is_scoring ?evs = [] \<longrightarrow> gs' = gs"
    by auto
  have le: "cur (abs_score gs) \<le> hi (abs_score gs)"
    using assms(2) by (simp add: abs_score_def word_le_nat_alt)
  have "abs_score gs' = \<lparr>cur = cur (abs_score gs) + ?n,
      hi = (if ?n = 0 then hi (abs_score gs) else max (hi (abs_score gs)) (cur (abs_score gs) + ?n))\<rparr>"
  proof (cases "filter is_scoring ?evs = []")
    case True
    with g(4) show ?thesis by (simp add: abs_score_def)
  next
    case False
    have "high_score gs' = max (high_score gs) (current_score gs')"
      using drain_events_Inr_high [OF d False] .
    with g(1) False show ?thesis by (simp add: abs_score_def unat_max_u32)
  qed
  then show ?thesis using e g(2,3) funpow_register_point [OF le, of ?n] by auto
qed

lemma batch_engine_fields [simp]:
  "collision_events (batch_engine evs tx eng) = []"
  "sprites (batch_engine evs tx eng) = restrict_map (sprites eng) (- batch_victims evs)"
  "texts (batch_engine evs tx eng) = tx"
  "should_exit (batch_engine evs tx eng) = should_exit eng"
  by (simp_all add: batch_engine_def)

lemma batch_state_fields [simp]:
  "current_score (batch_state evs gs) = current_score gs + of_nat (length (filter is_scoring evs))"
  "high_score (batch_state evs gs) =
     (if filter is_scoring evs = [] then high_score gs
      else max (high_score gs) (current_score gs + of_nat (length (filter is_scoring evs))))"
  "ferris_index (batch_state evs gs) = ferris_index gs"
  "spawn_timer (batch_state evs gs) = spawn_timer gs"
  by (simp_all add: batch_state_def Let_def)

text \<open>
  C13: the collision resolver is equivalent to its reference that first keeps only the
  scoring events: every other event (an \<open>End\<close>, or a pair in which not exactly
  one label starts with \<open>"player"\<close>) is a no-op, on the registry, the texts, the sound queue and the scores, and
  cannot fail.
\<close>

theorem drain_events_scoring_only:
  "drain_events evs eng gs = drain_events (filter is_scoring evs) eng gs"
proof (induction evs arbitrary: eng gs)
  case Nil
  then show ?case by simp
next
  case (Cons ev evs)
  then show ?case by (cases "handle_event ev eng gs") (auto simp: handle_event_other)
qed

text \<open>
  C3: one frame's collision pass consumes the whole batch; it raises the current score
  by the number of scoring events, keeps the high score at the maximum of itself and
  the current score, removes exactly the non-player labels of the scoring events, and
  never removes the player.
\<close>

theorem drain_collisions_effect:
  assumes "''score'' \<in> dom (texts eng)" and "''high_score'' \<in> dom (texts eng)"
    and "unat (current_score gs) + length (filter is_scoring (collision_events eng)) < 2 ^ 32"
    and "current_score gs \<le> high_score gs"
  shows "\<exists>eng' gs'. drain_collisions eng gs = Inr (eng', gs') \<and> collision_events eng' = []
     \<and> unat (current_score gs') = unat (current_score gs) + length (filter is_scoring (collision_events eng))
     \<and> high_score gs' = max (high_score gs) (current_score gs')
     \<and> sprites eng' = restrict_map (sprites eng) (- batch_victims (collision_events eng))
     \<and> sprites eng' player_label = sprites eng player_label"
proof -
  let ?evs = "collision_events eng"
  let ?n = "length (filter is_scoring ?evs)"
  obtain tx where d: "drain_collisions eng gs = Inr (batch_engine ?evs tx eng, batch_state ?evs gs)"
    using drain_collisions_eq [OF assms(1-3)] by blast
  have u: "unat (current_score gs + of_nat ?n) = unat (current_score gs) + ?n"
    using assms(3) by (rule unat_add_of_nat_u32)
  have h: "high_score (batch_state ?evs gs) = max (high_score gs) (current_score (batch_state ?evs gs))"
    using assms(4) by (auto simp: max_def)
  have p: "player_label \<notin> batch_victims ?evs" by (rule player_not_batch_victim)
  show ?thesis
    using d u h p by auto
qed

text \<open>
  C12: the resolver does not de-duplicate: a scoring \<open>Begin\<close> event delivered twice in
  one batch removes the car once but scores twice (the specification's open question,
  section 9, recommends scoring only while the car is present).
\<close>

theorem duplicate_begin_scores_twice:
  assumes "is_scoring ev" and "collision_events eng = [ev, ev]"
    and "''score'' \<in> dom (texts eng)" and "''high_score'' \<in> dom (texts eng)"
    and "unat (current_score gs) + 2 < 2 ^ 32"
  shows "\<exists>eng' gs'. drain_collisions eng gs = Inr (eng', gs')
     \<and> unat (current_score gs') = unat (current_score gs) + 2
     \<and> sprites eng' = restrict_map (sprites eng) (- victims (ev_pair ev))"
proof -
  have n: "length (filter is_scoring (collision_events eng)) = 2" using assms(1,2) by simp
  have b: "batch_victims (collision_events eng) = victims (ev_pair ev)"
    using assms(1,2) by (simp add: batch_victims_def)
  have c: "unat (current_score gs) + length (filter is_scoring (collision_events eng)) < 2 ^ 32"
    using assms(5) n by simp
  obtain tx where d: "drain_collisions eng gs =
      Inr (batch_engine (collision_events eng) tx eng, batch_state (collision_events eng) gs)"
    using drain_collisions_eq [OF assms(3,4) c] by blast
  have u: "unat (current_score gs + of_nat 2) = unat (current_score gs) + 2"
    using assms(5) by (rule unat_add_of_nat_u32)
  show ?thesis
    using d n b u by auto
qed

theorem duplicate_begin_scores_twice_witness:
  "\<exists>eng' gs'. drain_collisions
      ((add_sprite (click_label 0) RacingCarYellow id initial_engine)
         \<lparr>collision_events := [\<lparr>ev_state = Begin, ev_pair = (player_label, click_label 0)\<rparr>,
                               \<lparr>ev_state = Begin, ev_pair = (player_label, click_label 0)\<rparr>]\<rparr>)
      default_game_state = Inr (eng', gs')
    \<and> unat (current_score gs') = unat (current_score default_game_state) + 2
    \<and> sprites eng' = restrict_map (sprites (add_sprite (click_label 0) RacingCarYellow id initial_engine))
                        (- victims (player_label, click_label 0))"
proof -
  let ?ev = "\<lparr>ev_state = Begin, ev_pair = (player_label, click_label 0)\<rparr>"
  let ?eng = "(add_sprite (click_label 0) RacingCarYellow id initial_engine)\<lparr>collision_events := [?ev, ?ev]\<rparr>"
  have sc: "is_scoring ?ev"
    by (simp add: is_scoring_def one_starts_with_def starts_with_def player_label_def click_label_def)
  have ev: "collision_events ?eng = [?ev, ?ev]" by simp
  have t1: "''score'' \<in> dom (texts ?eng)" and t2: "''high_score'' \<in> dom (texts ?eng)"
    by (simp_all add: add_sprite_def)
  have c: "unat (current_score default_game_state) + 2 < 2 ^ 32"
    by (simp add: default_game_state_def)
  from duplicate_begin_scores_twice [OF sc ev t1 t2 c] show ?thesis
    by simp
qed

theorem handle_event_refines_witness:
  "\<exists>eng' gs'. handle_event \<lparr>ev_state = Begin, ev_pair = (player_label, click_label 0)\<rparr>
       initial_engine default_game_state = Inr (eng', gs')
     \<and> abs_score gs' = register_point (abs_score default_game_state)"
proof -
  let ?ev = "\<lparr>ev_state = Begin, ev_pair = (player_label, click_label 0)\<rparr>"
  have sc: "is_scoring ?ev"
    by (simp add: is_scoring_def one_starts_with_def starts_with_def player_label_def click_label_def)
  have c: "unat (current_score default_game_state) < 2 ^ 32 - 1"
    by (simp add: default_game_state_def)
  have t1: "''score'' \<in> dom (texts initial_engine)" and t2: "''high_score'' \<in> dom (texts initial_engine)"
    by simp_all
  obtain eng' gs' where h: "handle_event ?ev initial_engine default_game_state = Inr (eng', gs')"
    using handle_event_scoring [OF sc t1 t2 c] by blast
  with handle_event_refines [OF h] sc show ?thesis by auto
qed

theorem handle_event_Inl_iff_witness:
  "handle_event \<lparr>ev_state = Begin, ev_pair = (player_label, click_label 0)\<rparr>
       (initial_engine\<lparr>texts := Map.empty\<rparr>) default_game_state = Inl (UnwrapNone ''score'')"
  using handle_event_Inl_iff [of "\<lparr>ev_state = Begin, ev_pair = (player_label, click_label 0)\<rparr>"
      "initial_engine\<lparr>texts := Map.empty\<rparr>" default_game_state "UnwrapNone ''score''"]
  by (simp add: is_scoring_def one_starts_with_def starts_with_def player_label_def click_label_def default_game_state_def)

theorem drain_collisions_effect_witness:
  "\<exists>eng' gs'. drain_collisions
      (initial_engine\<lparr>collision_events := [\<lparr>ev_state = Begin, ev_pair = (click_label 0, player_label)\<rparr>]\<rparr>)
      default_game_state = Inr (eng', gs') \<and> collision_events eng' = []
     \<and> unat (current_score gs') = 1 \<and> high_score gs' = max 0 (current_score gs')
     \<and> sprites eng' = restrict_map (sprites initial_engine) (- {click_label 0})
     \<and> sprites eng' player_label = sprites initial_engine player_label"
proof -
  let ?ev = "\<lparr>ev_state = Begin, ev_pair = (click_label 0, player_label)\<rparr>"
  let ?eng = "initial_engine\<lparr>collision_events := [?ev]\<rparr>"
  have sc: "is_scoring ?ev" by (simp add: is_scoring_def one_starts_with_def starts_with_def click_label_def player_label_def)
  have v: "batch_victims [?ev] = {click_label 0}"
    using sc by (auto simp: batch_victims_def victims_def)
  have t1: "''score'' \<in> dom (texts ?eng)" and t2: "''high_score'' \<in> dom (texts ?eng)"
    by simp_all
  have c: "unat (current_score default_game_state) + length (filter is_scoring (collision_events ?eng)) < 2 ^ 32"
    by (simp add: default_game_state_def)
  have le: "current_score default_game_state \<le> high_score default_game_state"
    by (simp add: default_game_state_def)
  from drain_collisions_effect [OF t1 t2 c le] sc v show ?thesis
    by (simp add: default_game_state_def)
qed

end
