(* ===== verification/Input.thy ===== *)
theory Input
  imports Collision
begin

text \<open>
  The rest of \<open>game_logic\<close> in \<open>src/src/main.rs\<close>, one definition per block, in
  the order of the code: the collider switch and the quit key (lines 43 to 46), the
  placement of the two score texts (lines 48 to 56), the player's movement
  (lines 84 to 114), the click spawn (lines 116 to 125), the timer spawn (lines 127
  to 134) and the reset key (lines 136 to 141). Each block that calls
  \<open>get_mut(..).unwrap()\<close> or \<open>+= 1\<close> returns a result. The two random numbers
  of the timer spawn are a parameter \<open>rnd\<close>: the values \<open>thread_rng()\<close>
  returned in this frame.
\<close>

definition check_quit :: "engine \<Rightarrow> engine" where
  "check_quit eng =
     (let eng1 = eng\<lparr>show_colliders := True\<rparr>
      in if key_just_pressed KeyQ eng1 then eng1\<lparr>should_exit := True\<rparr> else eng1)"

definition layout_texts :: "engine \<Rightarrow> engine result" where
  "layout_texts eng =
     (let offset = cos (time_since_startup_f64 eng * 4) * 5;
          wx = fst (window_dimensions eng); wy = snd (window_dimensions eng)
      in bindr (update_text ''score''
                  (\<lambda>t. t\<lparr>txt_translation := (wx / 2 - 80, wy / 2 - 30 + offset)\<rparr>) eng)
           (\<lambda>eng1. update_text ''high_score''
                  (\<lambda>t. t\<lparr>txt_translation := (- wx / 2 + 110, wy / 2 - 30)\<rparr>) eng1))"

definition MOVEMENT_SPEED :: real where
  "MOVEMENT_SPEED = 100"

definition move_by :: "engine \<Rightarrow> sprite \<Rightarrow> sprite" where
  "move_by eng s0 =
     (let d = MOVEMENT_SPEED * delta_f32 eng;
          s1 = (if pressed_any [KeyUp, KeyW] eng
                then s0\<lparr>translation := (fst (translation s0), snd (translation s0) + d)\<rparr> else s0);
          s2 = (if pressed_any [KeyDown, KeyS] eng
                then s1\<lparr>translation := (fst (translation s1), snd (translation s1) - d)\<rparr> else s1);
          s3 = (if pressed_any [KeyRight, KeyD] eng
                then s2\<lparr>translation := (fst (translation s2) + d, snd (translation s2))\<rparr> else s2)
      in if pressed_any [KeyLeft, KeyA] eng
         then s3\<lparr>translation := (fst (translation s3) - d, snd (translation s3))\<rparr> else s3)"

definition move_player :: "engine \<Rightarrow> engine result" where
  "move_player eng = update_sprite player_label (move_by eng) eng"

definition click_spawn :: "engine \<Rightarrow> game_state \<Rightarrow> (engine \<times> game_state) result" where
  "click_spawn eng gs =
     (if MouseLeft \<in> mouse_just_pressed eng then
        (case mouse_location eng of
           None \<Rightarrow> Inr (eng, gs)
         | Some loc \<Rightarrow>
             (let l = click_label (ferris_index gs)
              in bindr (inc_u32 (ferris_index gs)) (\<lambda>i.
                   Inr (add_sprite l RacingCarYellow
                          (\<lambda>s. s\<lparr>translation := loc, rotation := SOUTH_EAST, collision := True\<rparr>) eng,
                        gs\<lparr>ferris_index := i\<rparr>))))
      else Inr (eng, gs))"

definition timer_spawn :: "vec2 \<Rightarrow> engine \<Rightarrow> game_state \<Rightarrow> (engine \<times> game_state) result" where
  "timer_spawn rnd eng gs =
     (let t = tick (delta eng) (spawn_timer gs); gs1 = gs\<lparr>spawn_timer := t\<rparr>
      in if just_finished t then
           (let l = timer_label (ferris_index gs1)
            in bindr (inc_u32 (ferris_index gs1)) (\<lambda>i.
                 Inr (add_sprite l RacingCarYellow
                        (\<lambda>s. s\<lparr>translation := rnd, collision := True\<rparr>) eng,
                      gs1\<lparr>ferris_index := i\<rparr>)))
         else Inr (eng, gs1))"

definition reset_score :: "engine \<Rightarrow> game_state \<Rightarrow> (engine \<times> game_state) result" where
  "reset_score eng gs =
     (if pressed KeyR eng then
        bindr (update_text ''score'' (\<lambda>t. t\<lparr>txt_value := ''Score 0''\<rparr>) eng)
          (\<lambda>eng1. Inr (eng1, gs\<lparr>current_score := 0\<rparr>))
      else Inr (eng, gs))"

text \<open>The displacement the movement block applies, one term per direction.\<close>

definition key_axis :: "KeyCode list \<Rightarrow> KeyCode list \<Rightarrow> engine \<Rightarrow> real" where
  "key_axis pos neg eng = of_bool (pressed_any pos eng) - of_bool (pressed_any neg eng)"

lemma move_by_translation:
  "translation (move_by eng s) =
     (fst (translation s) + key_axis [KeyRight, KeyD] [KeyLeft, KeyA] eng * (MOVEMENT_SPEED * delta_f32 eng),
      snd (translation s) + key_axis [KeyUp, KeyW] [KeyDown, KeyS] eng * (MOVEMENT_SPEED * delta_f32 eng))"
  by (simp add: move_by_def key_axis_def Let_def algebra_simps)

lemma move_by_other_fields [simp]:
  "label (move_by eng s) = label s" "collision (move_by eng s) = collision s"
  "rotation (move_by eng s) = rotation s" "preset (move_by eng s) = preset s"
  by (simp_all add: move_by_def Let_def)

lemma move_player_eq:
  "sprites eng player_label = Some s \<Longrightarrow>
   move_player eng = Inr (eng\<lparr>sprites := (sprites eng)(player_label \<mapsto> move_by eng s)\<rparr>)"
  by (simp add: move_player_def update_sprite_present)

lemma click_spawn_eq:
  assumes "MouseLeft \<in> mouse_just_pressed eng" and "mouse_location eng = Some p"
    and "unat (ferris_index gs) < 2 ^ 32 - 1"
  shows "click_spawn eng gs =
     Inr (eng\<lparr>sprites := (sprites eng)(click_label (ferris_index gs) \<mapsto>
            \<lparr>label = click_label (ferris_index gs), preset = RacingCarYellow, translation = p,
             rotation = SOUTH_EAST, collision = True\<rparr>)\<rparr>,
          gs\<lparr>ferris_index := ferris_index gs + 1\<rparr>)"
  using assms by (simp add: click_spawn_def inc_u32_ok add_sprite_def new_sprite_def Let_def)

lemma timer_spawn_eq:
  assumes "unat (ferris_index gs) < 2 ^ 32 - 1"
  shows "timer_spawn rnd eng gs =
     Inr (if just_finished (tick (delta eng) (spawn_timer gs))
          then (add_sprite (timer_label (ferris_index gs)) RacingCarYellow
                  (\<lambda>s. s\<lparr>translation := rnd, collision := True\<rparr>) eng,
                gs\<lparr>spawn_timer := tick (delta eng) (spawn_timer gs), ferris_index := ferris_index gs + 1\<rparr>)
          else (eng, gs\<lparr>spawn_timer := tick (delta eng) (spawn_timer gs)\<rparr>))"
  using assms by (simp add: timer_spawn_def inc_u32_ok Let_def)

lemma reset_score_ok:
  assumes "''score'' \<in> dom (texts eng)"
  shows "\<exists>tx. reset_score eng gs =
     Inr (if pressed KeyR eng then (eng\<lparr>texts := tx\<rparr>, gs\<lparr>current_score := 0\<rparr>) else (eng, gs))
     \<and> dom tx = dom (texts eng)
     \<and> (pressed KeyR eng \<longrightarrow> map_option txt_value (tx ''score'') = Some ''Score 0'')"
proof -
  from assms obtain t where t: "texts eng ''score'' = Some t" by auto
  show ?thesis
  proof (cases "pressed KeyR eng")
    case True
    with t show ?thesis
      by (auto simp: reset_score_def update_text_present split: if_splits
          intro!: exI [where x = "(texts eng)(''score'' \<mapsto> t\<lparr>txt_value := ''Score 0''\<rparr>)"])
  next
    case False
    then show ?thesis by (auto simp: reset_score_def intro!: exI [where x = "texts eng"])
  qed
qed

lemma layout_texts_Inr_D:
  assumes "layout_texts eng = Inr eng'"
  shows "\<exists>tx. eng' = eng\<lparr>texts := tx\<rparr> \<and> dom tx = dom (texts eng)"
proof -
  from assms obtain eng1 where u1: "\<exists>f. update_text ''score'' f eng = Inr eng1"
    and u2: "\<exists>f. update_text ''high_score'' f eng1 = Inr eng'"
    by (auto simp: layout_texts_def Let_def bindr_eq_Inr_iff)
  from u1 obtain tx1 where "eng1 = eng\<lparr>texts := tx1\<rparr>" "dom tx1 = dom (texts eng)"
    using update_text_Inr_D by blast
  moreover from u2 obtain tx2 where "eng' = eng1\<lparr>texts := tx2\<rparr>" "dom tx2 = dom (texts eng1)"
    using update_text_Inr_D by blast
  ultimately show ?thesis by auto
qed

lemma layout_texts_ok:
  assumes "''score'' \<in> dom (texts eng)" and "''high_score'' \<in> dom (texts eng)"
  shows "\<exists>eng'. layout_texts eng = Inr eng'"
  using assms by (auto simp: layout_texts_def Let_def update_text_def)

lemma move_player_Inr_D:
  assumes "move_player eng = Inr eng'"
  shows "\<exists>s. sprites eng player_label = Some s
     \<and> eng' = eng\<lparr>sprites := (sprites eng)(player_label \<mapsto> move_by eng s)\<rparr>"
  using assms by (auto simp: move_player_def update_sprite_Inr_iff)

lemma click_spawn_Inr_D:
  assumes "click_spawn eng gs = Inr (eng', gs')"
  shows "(eng' = eng \<and> gs' = gs)
     \<or> (\<exists>s. eng' = eng\<lparr>sprites := (sprites eng)(click_label (ferris_index gs) \<mapsto> s)\<rparr>
           \<and> gs' = gs\<lparr>ferris_index := ferris_index gs + 1\<rparr>
           \<and> unat (ferris_index gs) < 2 ^ 32 - 1)"
  using assms
  by (auto simp: click_spawn_def Let_def bindr_eq_Inr_iff inc_u32_Inr_iff add_sprite_def
      split: if_splits option.splits)

lemma timer_spawn_Inr_D:
  assumes "timer_spawn rnd eng gs = Inr (eng', gs')"
  shows "(eng' = eng \<and> gs' = gs\<lparr>spawn_timer := tick (delta eng) (spawn_timer gs)\<rparr>)
     \<or> (\<exists>s. eng' = eng\<lparr>sprites := (sprites eng)(timer_label (ferris_index gs) \<mapsto> s)\<rparr>
           \<and> gs' = gs\<lparr>spawn_timer := tick (delta eng) (spawn_timer gs),
                      ferris_index := ferris_index gs + 1\<rparr>
           \<and> unat (ferris_index gs) < 2 ^ 32 - 1)"
  using assms
  by (auto simp: timer_spawn_def Let_def bindr_eq_Inr_iff inc_u32_Inr_iff add_sprite_def
      split: if_splits)

lemma click_spawn_Inr_eq:
  assumes "click_spawn eng gs = Inr (eng', gs')"
  shows "(if MouseLeft \<in> mouse_just_pressed eng \<and> mouse_location eng \<noteq> None
          then unat (ferris_index gs) < 2 ^ 32 - 1
             \<and> dom (sprites eng') = insert (click_label (ferris_index gs)) (dom (sprites eng))
             \<and> gs' = gs\<lparr>ferris_index := ferris_index gs + 1\<rparr>
          else eng' = eng \<and> gs' = gs)"
  using assms
  by (auto simp: click_spawn_def Let_def bindr_eq_Inr_iff inc_u32_Inr_iff add_sprite_def
      split: if_splits option.splits)

lemma timer_spawn_Inr_eq:
  assumes "timer_spawn rnd eng gs = Inr (eng', gs')"
  shows "(if just_finished (tick (delta eng) (spawn_timer gs))
          then unat (ferris_index gs) < 2 ^ 32 - 1
             \<and> dom (sprites eng') = insert (timer_label (ferris_index gs)) (dom (sprites eng))
             \<and> gs' = gs\<lparr>spawn_timer := tick (delta eng) (spawn_timer gs), ferris_index := ferris_index gs + 1\<rparr>
          else eng' = eng \<and> gs' = gs\<lparr>spawn_timer := tick (delta eng) (spawn_timer gs)\<rparr>)"
  using assms
  by (auto simp: timer_spawn_def Let_def bindr_eq_Inr_iff inc_u32_Inr_iff add_sprite_def
      split: if_splits)

lemma reset_score_Inr_D:
  assumes "reset_score eng gs = Inr (eng', gs')"
  shows "\<exists>tx. eng' = eng\<lparr>texts := tx\<rparr> \<and> dom tx = dom (texts eng)
     \<and> gs' = (if pressed KeyR eng then gs\<lparr>current_score := 0\<rparr> else gs)"
proof (cases "pressed KeyR eng")
  case True
  with assms obtain eng1 where u: "update_text ''score'' (\<lambda>t. t\<lparr>txt_value := ''Score 0''\<rparr>) eng = Inr eng1"
    and g: "eng' = eng1" "gs' = gs\<lparr>current_score := 0\<rparr>"
    by (auto simp: reset_score_def bindr_eq_Inr_iff)
  from update_text_Inr_D [OF u] g True show ?thesis by auto
next
  case False
  with assms have "eng' = eng" "gs' = gs" by (simp_all add: reset_score_def)
  with False show ?thesis by (intro exI [where x = "texts eng"]) simp
qed

lemma click_spawn_ok:
  "unat (ferris_index gs) < 2 ^ 32 - 1 \<Longrightarrow> \<exists>r. click_spawn eng gs = Inr r"
  by (auto simp: click_spawn_def inc_u32_ok Let_def split: option.splits)

text \<open>
  C29: the movement block moves the player by \<open>MOVEMENT_SPEED * delta\<close> along each
  axis for each held direction, opposite directions adding up rather than excluding
  each other, and changes nothing else of the player's car.
\<close>

theorem move_player_effect:
  assumes "sprites eng player_label = Some s"
  shows "\<exists>s'. move_player eng = Inr (eng\<lparr>sprites := (sprites eng)(player_label \<mapsto> s')\<rparr>)
     \<and> translation s' =
        (fst (translation s) + key_axis [KeyRight, KeyD] [KeyLeft, KeyA] eng * (100 * delta_f32 eng),
         snd (translation s) + key_axis [KeyUp, KeyW] [KeyDown, KeyS] eng * (100 * delta_f32 eng))
     \<and> s' = s\<lparr>translation := translation s'\<rparr>"
proof -
  have "move_by eng s = s\<lparr>translation := translation (move_by eng s)\<rparr>"
    by (simp add: move_by_def Let_def)
  then show ?thesis
    using move_player_eq [OF assms] move_by_translation [of eng s] by (auto simp: MOVEMENT_SPEED_def)
qed

theorem move_player_effect_witness:
  "\<exists>s'. move_player (initial_engine\<lparr>keys_pressed := {KeyRight, KeyW}, delta_f32 := 1 / 2\<rparr>) =
       Inr ((initial_engine\<lparr>keys_pressed := {KeyRight, KeyW}, delta_f32 := 1 / 2\<rparr>)
              \<lparr>sprites := (sprites initial_engine)(player_label \<mapsto> s')\<rparr>)
     \<and> translation s' = (50, 50)"
proof -
  let ?e = "initial_engine\<lparr>keys_pressed := {KeyRight, KeyW}, delta_f32 := 1 / 2\<rparr>"
  obtain s where s: "sprites ?e player_label = Some s" "translation s = (0, 0)"
    by (simp add: initial_engine_def empty_engine_def add_text_def add_sprite_def play_music_def new_sprite_def)
  from move_player_effect [OF s(1)] s(2) show ?thesis
    by (auto simp: key_axis_def pressed_any_def)
qed

text \<open>
  C30: a fresh left click with a cursor position spawns exactly one car, collision on,
  at the cursor, under the label minted from the spawn counter, and advances the
  counter by exactly one; every other sprite is left as it was.
\<close>

theorem click_spawn_one_car:
  assumes "MouseLeft \<in> mouse_just_pressed eng" and "mouse_location eng = Some p"
    and "unat (ferris_index gs) < 2 ^ 32 - 1"
  shows "\<exists>eng' gs' s. click_spawn eng gs = Inr (eng', gs')
     \<and> dom (sprites eng') = insert (click_label (ferris_index gs)) (dom (sprites eng))
     \<and> sprites eng' (click_label (ferris_index gs)) = Some s
     \<and> translation s = p \<and> collision s
     \<and> (\<forall>l. l \<noteq> click_label (ferris_index gs) \<longrightarrow> sprites eng' l = sprites eng l)
     \<and> unat (ferris_index gs') = unat (ferris_index gs) + 1"
proof -
  have u: "unat (ferris_index gs + 1) = unat (ferris_index gs) + 1"
    using assms(3) by (simp add: unat_word_ariths)
  show ?thesis
    using click_spawn_eq [OF assms] u by auto
qed

theorem click_spawn_one_car_witness:
  "\<exists>eng' gs' s. click_spawn
       (initial_engine\<lparr>mouse_just_pressed := {MouseLeft}, mouse_location := Some (200, 150)\<rparr>)
       default_game_state = Inr (eng', gs')
     \<and> dom (sprites eng') = {click_label 0, player_label}
     \<and> sprites eng' (click_label 0) = Some s \<and> translation s = (200, 150) \<and> collision s
     \<and> unat (ferris_index gs') = 1"
proof -
  let ?e = "initial_engine\<lparr>mouse_just_pressed := {MouseLeft}, mouse_location := Some (200, 150)\<rparr>"
  have m: "MouseLeft \<in> mouse_just_pressed ?e" and l: "mouse_location ?e = Some (200, 150)" by simp_all
  have c: "unat (ferris_index default_game_state) < 2 ^ 32 - 1" by (simp add: default_game_state_def)
  from click_spawn_one_car [OF m l c] show ?thesis
    by (fastforce simp: default_game_state_def)
qed

text \<open>
  C31: the timer spawn adds at most one car per frame: a frame long enough for the
  spawn timer to complete twice (its completion count is at least 2) still adds
  exactly one car and advances the spawn counter by one.
\<close>

theorem long_frame_spawns_once:
  assumes "timer_wf (spawn_timer gs)" and "small_tick (spawn_timer gs) (delta eng)"
    and "2 * duration (spawn_timer gs) \<le> elapsed (spawn_timer gs) + delta eng"
    and "unat (ferris_index gs) < 2 ^ 32 - 1"
  shows "\<exists>eng' gs'. timer_spawn rnd eng gs = Inr (eng', gs')
     \<and> 2 \<le> unat (times_finished (spawn_timer gs'))
     \<and> dom (sprites eng') = insert (timer_label (ferris_index gs)) (dom (sprites eng))
     \<and> unat (ferris_index gs') = unat (ferris_index gs) + 1"
proof -
  let ?t = "spawn_timer gs" and ?d = "delta eng"
  have D: "0 < duration ?t" using assms(1) by (simp add: timer_wf_def)
  have jf: "just_finished (tick ?d ?t)"
    using tick_just_finished_iff [OF assms(1,2)] assms(3) by simp
  have "2 \<le> (elapsed ?t + ?d) div duration ?t"
    using assms(3) D by (simp add: less_eq_div_iff_mult_less_eq mult.commute)
  then have tf: "2 \<le> unat (times_finished (tick ?d ?t))"
    using tick_wf_step(2) [OF assms(1,2)] by simp
  have u: "unat (ferris_index gs + 1) = unat (ferris_index gs) + 1"
    using assms(4) by (simp add: unat_word_ariths)
  show ?thesis
    using timer_spawn_eq [OF assms(4), of rnd eng] jf tf u by simp
qed

theorem long_frame_spawns_once_witness:
  "\<exists>eng' gs'. timer_spawn (0, 0) (initial_engine\<lparr>delta := 5000000000\<rparr>) default_game_state = Inr (eng', gs')
     \<and> 2 \<le> unat (times_finished (spawn_timer gs'))
     \<and> dom (sprites eng') = {timer_label 0, player_label}
     \<and> unat (ferris_index gs') = 1"
proof -
  let ?e = "initial_engine\<lparr>delta := 5000000000\<rparr>"
  have wf: "timer_wf (spawn_timer default_game_state)" by (rule timer_wf_default)
  have sm: "small_tick (spawn_timer default_game_state) (delta ?e)"
    by (simp add: small_tick_def default_game_state_def from_seconds_def)
  have two: "2 * duration (spawn_timer default_game_state) \<le> elapsed (spawn_timer default_game_state) + delta ?e"
    by (simp add: default_game_state_def from_seconds_def)
  have c: "unat (ferris_index default_game_state) < 2 ^ 32 - 1" by (simp add: default_game_state_def)
  from long_frame_spawns_once [OF wf sm two c, of "(0, 0)"] show ?thesis
    by (simp add: default_game_state_def)
qed

text \<open>
  C32: the reset block refines the specification's \<open>reset_current\<close> when the R key
  is held (level-sensitive, every frame it is held) and never changes the high score.
\<close>

theorem reset_score_refines:
  assumes "reset_score eng gs = Inr (eng', gs')"
  shows "abs_score gs' = (if pressed KeyR eng then reset_current (abs_score gs) else abs_score gs)
     \<and> high_score gs' = high_score gs"
  using assms
  by (auto simp: reset_score_def bindr_eq_Inr_iff abs_score_def reset_current_def split: if_splits)

theorem reset_score_refines_witness:
  "\<exists>eng' gs'. reset_score (initial_engine\<lparr>keys_pressed := {KeyR}\<rparr>)
       (default_game_state\<lparr>current_score := 7, high_score := 9\<rparr>) = Inr (eng', gs')
     \<and> abs_score gs' = reset_current (abs_score (default_game_state\<lparr>current_score := 7, high_score := 9\<rparr>))
     \<and> high_score gs' = 9"
proof -
  let ?e = "initial_engine\<lparr>keys_pressed := {KeyR}\<rparr>"
  let ?g = "default_game_state\<lparr>current_score := 7, high_score := 9\<rparr>"
  have "''score'' \<in> dom (texts ?e)" by simp
  then obtain eng' gs' where r: "reset_score ?e ?g = Inr (eng', gs')"
    using reset_score_ok [of ?e ?g] by (cases "pressed KeyR ?e") auto
  from reset_score_refines [OF r] r show ?thesis by (simp add: pressed_def)
qed

end
