(* ===== verification/Frame.thy ===== *)
theory Frame
  imports Input
begin

text \<open>
  The frame orchestrator: \<open>game_logic\<close> of \<open>src/src/main.rs\<close> as a whole
  (lines 42 to 142), the blocks of \<open>Collision\<close> and \<open>Input\<close> composed in the
  order of the code, and the engine's loop around it (\<open>game.run\<close>, line 39). Before
  each call of the logic the engine stores the frame's input in its state
  (\<open>begin_frame\<close>): the keyboard and mouse state, the frame time, the window size,
  and the collision events reported since the last frame; the sound requests of the
  previous frame have been played and are gone. The loop stops at the first frame
  boundary after the logic set \<open>should_exit\<close> (\<open>run_game\<close>). The reachable
  states are those of any run from the state \<open>main\<close> builds, with inputs the host
  can produce (\<open>input_ok\<close>).
\<close>

record frame_input =
  in_keys_pressed :: "KeyCode set"
  in_keys_just_pressed :: "KeyCode set"
  in_mouse_just_pressed :: "MouseButton set"
  in_mouse_location :: "vec2 option"
  in_delta :: nat
  in_window :: vec2
  in_collisions :: "collision_event list"
  in_random :: vec2

definition begin_frame :: "frame_input \<Rightarrow> engine \<Rightarrow> engine" where
  "begin_frame inp eng =
     eng\<lparr>keys_pressed := in_keys_pressed inp, keys_just_pressed := in_keys_just_pressed inp,
         mouse_just_pressed := in_mouse_just_pressed inp, mouse_location := in_mouse_location inp,
         delta := in_delta inp, delta_f32 := real (in_delta inp) / 1000000000,
         time_since_startup_f64 := time_since_startup_f64 eng + real (in_delta inp) / 1000000000,
         window_dimensions := in_window inp,
         collision_events := collision_events eng @ in_collisions inp, sfx_queue := []\<rparr>"

definition game_logic :: "vec2 \<Rightarrow> engine \<Rightarrow> game_state \<Rightarrow> (engine \<times> game_state) result" where
  "game_logic rnd eng0 gs0 =
     bindr (layout_texts (check_quit eng0)) (\<lambda>eng1.
     bindr (drain_collisions eng1 gs0) (\<lambda>(eng2, gs2).
     bindr (move_player eng2) (\<lambda>eng3.
     bindr (click_spawn eng3 gs2) (\<lambda>(eng4, gs4).
     bindr (timer_spawn rnd eng4 gs4) (\<lambda>(eng5, gs5).
     reset_score eng5 gs5)))))"

definition frame_step :: "frame_input \<Rightarrow> engine \<Rightarrow> game_state \<Rightarrow> (engine \<times> game_state) result" where
  "frame_step inp eng gs = game_logic (in_random inp) (begin_frame inp eng) gs"

fun run_game :: "frame_input list \<Rightarrow> engine \<Rightarrow> game_state \<Rightarrow> (engine \<times> game_state) result" where
  "run_game [] eng gs = Inr (eng, gs)"
| "run_game (inp # inps) eng gs =
     (if should_exit eng then Inr (eng, gs)
      else bindr (frame_step inp eng gs) (\<lambda>(eng', gs'). run_game inps eng' gs'))"

text \<open>
  Inputs the host produces: a frame shorter than about 272 years (so that the spawn
  timer's completion count fits its \<open>u32\<close>) and the two random draws in the ranges
  \<open>gen_range(-550.0..550.0)\<close> and \<open>gen_range(-325.0..325.0)\<close>.
\<close>

definition input_ok :: "frame_input \<Rightarrow> bool" where
  "input_ok inp \<longleftrightarrow> in_delta inp < 2000000000 * (2 ^ 32 - 1)
     \<and> -550 \<le> fst (in_random inp) \<and> fst (in_random inp) < 550
     \<and> -325 \<le> snd (in_random inp) \<and> snd (in_random inp) < 325"

inductive reachable :: "engine \<Rightarrow> game_state \<Rightarrow> bool" where
  init: "reachable initial_engine default_game_state"
| step: "reachable eng gs \<Longrightarrow> \<not> should_exit eng \<Longrightarrow> input_ok inp \<Longrightarrow>
         frame_step inp eng gs = Inr (eng', gs') \<Longrightarrow> reachable eng' gs'"

text \<open>
  The invariant: the player's car and both score texts exist, the high score is at
  least the current score, every other sprite carries a label minted from a spawn
  index below the counter, the spawn timer is the program's two-second repeating
  timer, and (between frames) no collision event is pending.
\<close>

definition labels_ok :: "label set \<Rightarrow> u32 \<Rightarrow> bool" where
  "labels_ok L idx \<longleftrightarrow>
     (\<forall>l \<in> L. l = player_label \<or> (\<exists>k < idx. l = click_label k \<or> l = timer_label k))"

definition frame_inv :: "engine \<Rightarrow> game_state \<Rightarrow> bool" where
  "frame_inv eng gs \<longleftrightarrow>
     player_label \<in> dom (sprites eng)
     \<and> ''score'' \<in> dom (texts eng) \<and> ''high_score'' \<in> dom (texts eng)
     \<and> current_score gs \<le> high_score gs
     \<and> labels_ok (dom (sprites eng)) (ferris_index gs)
     \<and> timer_wf (spawn_timer gs) \<and> duration (spawn_timer gs) = 2000000000"

definition game_inv :: "engine \<Rightarrow> game_state \<Rightarrow> bool" where
  "game_inv eng gs \<longleftrightarrow> frame_inv eng gs \<and> collision_events eng = []"

text \<open>The engine fields no block of \<open>game_logic\<close> writes, apart from the quit flag.\<close>

definition io_fields :: "engine \<Rightarrow> _" where
  "io_fields eng = (keys_pressed eng, keys_just_pressed eng, mouse_just_pressed eng,
     mouse_location eng, delta eng, delta_f32 eng, time_since_startup_f64 eng,
     window_dimensions eng, show_colliders eng, should_exit eng, music eng)"

text \<open>The input of one frame used by the witnesses below: nothing pressed, 16 ms.\<close>

definition idle_input :: frame_input where
  "idle_input =
     \<lparr>in_keys_pressed = {}, in_keys_just_pressed = {}, in_mouse_just_pressed = {},
      in_mouse_location = None, in_delta = 16000000, in_window = (1280, 720),
      in_collisions = [], in_random = (0, 0)\<rparr>"

lemma frame_inv_cong:
  "dom (sprites eng') = dom (sprites eng) \<Longrightarrow> dom (texts eng') = dom (texts eng) \<Longrightarrow>
   frame_inv eng' gs = frame_inv eng gs"
  by (simp add: frame_inv_def)

lemma labels_ok_mono: "labels_ok L idx \<Longrightarrow> L' \<subseteq> L \<Longrightarrow> labels_ok L' idx"
  by (auto simp: labels_ok_def)

lemma u32_less_succ: "unat (i :: u32) < 2 ^ 32 - 1 \<Longrightarrow> k < i \<Longrightarrow> k < i + 1"
  by (simp add: word_less_nat_alt unat_word_ariths)

lemma u32_self_less_succ: "unat (i :: u32) < 2 ^ 32 - 1 \<Longrightarrow> i < i + 1"
  by (simp add: word_less_nat_alt unat_word_ariths)

lemma labels_ok_spawn:
  assumes "labels_ok L idx" and "unat idx < 2 ^ 32 - 1"
    and "l = click_label idx \<or> l = timer_label idx"
  shows "labels_ok (insert l L) (idx + 1)"
  using assms u32_less_succ [OF assms(2)] u32_self_less_succ [OF assms(2)]
  unfolding labels_ok_def by blast

lemma check_quit_fields [simp]:
  "sprites (check_quit eng) = sprites eng" "texts (check_quit eng) = texts eng"
  "collision_events (check_quit eng) = collision_events eng" "delta (check_quit eng) = delta eng"
  "keys_pressed (check_quit eng) = keys_pressed eng"
  by (simp_all add: check_quit_def Let_def)

lemma layout_texts_frame_inv:
  assumes "layout_texts eng = Inr eng'"
  shows "frame_inv eng' gs = frame_inv eng gs \<and> collision_events eng' = collision_events eng
     \<and> delta eng' = delta eng \<and> keys_pressed eng' = keys_pressed eng \<and> sprites eng' = sprites eng"
proof -
  obtain tx where "eng' = eng\<lparr>texts := tx\<rparr>" "dom tx = dom (texts eng)"
    using layout_texts_Inr_D [OF assms] by blast
  then show ?thesis by (simp add: frame_inv_def)
qed

lemma drain_collisions_frame_inv:
  assumes "drain_collisions eng gs = Inr (eng', gs')" and "frame_inv eng gs"
  shows "frame_inv eng' gs' \<and> collision_events eng' = []
     \<and> delta eng' = delta eng \<and> keys_pressed eng' = keys_pressed eng"
proof -
  let ?V = "batch_victims (collision_events eng)"
  from assms(1) have "drain_events (collision_events eng) (eng\<lparr>collision_events := []\<rparr>) gs = Inr (eng', gs')"
    by (simp add: drain_collisions_def)
  from drain_events_Inr_D [OF this] obtain tx sq where
    e: "eng' = eng\<lparr>collision_events := [], sprites := restrict_map (sprites eng) (- ?V),
                  texts := tx, sfx_queue := sq\<rparr>"
    and d: "dom tx = dom (texts eng)"
    and g: "current_score gs \<le> high_score gs \<longrightarrow> current_score gs' \<le> high_score gs'"
      "ferris_index gs' = ferris_index gs" "spawn_timer gs' = spawn_timer gs"
    by auto
  have p: "player_label \<notin> ?V" by (rule player_not_batch_victim)
  have sub: "dom (sprites eng') \<subseteq> dom (sprites eng)" using e by auto
  have pl: "player_label \<in> dom (sprites eng')" using e p assms(2) by (auto simp: frame_inv_def)
  have lab: "labels_ok (dom (sprites eng')) (ferris_index gs')"
    using labels_ok_mono [OF _ sub] assms(2) g(2) by (simp add: frame_inv_def)
  show ?thesis
    using assms(2) e d g pl lab by (simp add: frame_inv_def)
qed

lemma move_player_frame_inv:
  assumes "move_player eng = Inr eng'"
  shows "frame_inv eng' gs = frame_inv eng gs \<and> collision_events eng' = collision_events eng
     \<and> delta eng' = delta eng \<and> keys_pressed eng' = keys_pressed eng"
proof -
  from move_player_Inr_D [OF assms] obtain s where
    s: "sprites eng player_label = Some s"
    and e: "eng' = eng\<lparr>sprites := (sprites eng)(player_label \<mapsto> move_by eng s)\<rparr>" by blast
  have "dom (sprites eng') = dom (sprites eng)" using e s by auto
  then show ?thesis using e frame_inv_cong [of eng' eng gs] by simp
qed

lemma click_spawn_frame_inv:
  assumes "click_spawn eng gs = Inr (eng', gs')" and "frame_inv eng gs"
  shows "frame_inv eng' gs' \<and> collision_events eng' = collision_events eng
     \<and> delta eng' = delta eng \<and> keys_pressed eng' = keys_pressed eng
     \<and> spawn_timer gs' = spawn_timer gs"
  using click_spawn_Inr_D [OF assms(1)]
proof
  assume "eng' = eng \<and> gs' = gs"
  with assms(2) show ?thesis by simp
next
  assume "\<exists>s. eng' = eng\<lparr>sprites := (sprites eng)(click_label (ferris_index gs) \<mapsto> s)\<rparr>
           \<and> gs' = gs\<lparr>ferris_index := ferris_index gs + 1\<rparr> \<and> unat (ferris_index gs) < 2 ^ 32 - 1"
  then obtain s where e: "eng' = eng\<lparr>sprites := (sprites eng)(click_label (ferris_index gs) \<mapsto> s)\<rparr>"
    and g: "gs' = gs\<lparr>ferris_index := ferris_index gs + 1\<rparr>" and lt: "unat (ferris_index gs) < 2 ^ 32 - 1"
    by blast
  have "labels_ok (insert (click_label (ferris_index gs)) (dom (sprites eng))) (ferris_index gs + 1)"
    using labels_ok_spawn [OF _ lt] assms(2) by (simp add: frame_inv_def)
  with assms(2) e g show ?thesis by (simp add: frame_inv_def)
qed

lemma timer_spawn_frame_inv:
  assumes "timer_spawn rnd eng gs = Inr (eng', gs')" and "frame_inv eng gs"
    and "small_tick (spawn_timer gs) (delta eng)"
  shows "frame_inv eng' gs' \<and> collision_events eng' = collision_events eng
     \<and> keys_pressed eng' = keys_pressed eng"
proof -
  let ?t = "tick (delta eng) (spawn_timer gs)"
  have wf: "timer_wf (spawn_timer gs)" using assms(2) by (simp add: frame_inv_def)
  have t: "timer_wf ?t \<and> duration ?t = 2000000000"
    using tick_timer_wf [OF wf assms(3)] tick_wf_step(3) [OF wf assms(3)] assms(2)
    by (simp add: frame_inv_def)
  from timer_spawn_Inr_D [OF assms(1)] show ?thesis
  proof
    assume "eng' = eng \<and> gs' = gs\<lparr>spawn_timer := ?t\<rparr>"
    with assms(2) t show ?thesis by (simp add: frame_inv_def)
  next
    assume "\<exists>s. eng' = eng\<lparr>sprites := (sprites eng)(timer_label (ferris_index gs) \<mapsto> s)\<rparr>
           \<and> gs' = gs\<lparr>spawn_timer := ?t, ferris_index := ferris_index gs + 1\<rparr>
           \<and> unat (ferris_index gs) < 2 ^ 32 - 1"
    then obtain s where e: "eng' = eng\<lparr>sprites := (sprites eng)(timer_label (ferris_index gs) \<mapsto> s)\<rparr>"
      and g: "gs' = gs\<lparr>spawn_timer := ?t, ferris_index := ferris_index gs + 1\<rparr>"
      and lt: "unat (ferris_index gs) < 2 ^ 32 - 1"
      by blast
    have "labels_ok (insert (timer_label (ferris_index gs)) (dom (sprites eng))) (ferris_index gs + 1)"
      using labels_ok_spawn [OF _ lt] assms(2) by (simp add: frame_inv_def)
    with assms(2) e g t show ?thesis by (simp add: frame_inv_def)
  qed
qed

lemma reset_score_frame_inv:
  assumes "reset_score eng gs = Inr (eng', gs')" and "frame_inv eng gs"
  shows "frame_inv eng' gs' \<and> collision_events eng' = collision_events eng"
proof -
  obtain tx where "eng' = eng\<lparr>texts := tx\<rparr>" "dom tx = dom (texts eng)"
    and "gs' = (if pressed KeyR eng then gs\<lparr>current_score := 0\<rparr> else gs)"
    using reset_score_Inr_D [OF assms(1)] by blast
  with assms(2) show ?thesis by (simp add: frame_inv_def)
qed

lemma game_logic_InrE:
  assumes "game_logic rnd eng gs = Inr (eng', gs')"
  obtains eng1 eng2 gs2 eng3 eng4 gs4 eng5 gs5 where
    "layout_texts (check_quit eng) = Inr eng1"
    "drain_collisions eng1 gs = Inr (eng2, gs2)"
    "move_player eng2 = Inr eng3"
    "click_spawn eng3 gs2 = Inr (eng4, gs4)"
    "timer_spawn rnd eng4 gs4 = Inr (eng5, gs5)"
    "reset_score eng5 gs5 = Inr (eng', gs')"
  using assms by (auto simp: game_logic_def bindr_eq_Inr_iff split: prod.splits)

lemma game_logic_frame_inv:
  assumes "game_logic rnd eng gs = Inr (eng', gs')" and "frame_inv eng gs"
    and "small_tick (spawn_timer gs) (delta eng)"
  shows "frame_inv eng' gs' \<and> collision_events eng' = []"
proof -
  from assms(1) obtain eng1 eng2 gs2 eng3 eng4 gs4 eng5 gs5 where
    s1: "layout_texts (check_quit eng) = Inr eng1" and
    s2: "drain_collisions eng1 gs = Inr (eng2, gs2)" and
    s3: "move_player eng2 = Inr eng3" and
    s4: "click_spawn eng3 gs2 = Inr (eng4, gs4)" and
    s5: "timer_spawn rnd eng4 gs4 = Inr (eng5, gs5)" and
    s6: "reset_score eng5 gs5 = Inr (eng', gs')"
    by (rule game_logic_InrE)
  have i0: "frame_inv (check_quit eng) gs" using assms(2) frame_inv_cong [of "check_quit eng" eng gs] by simp
  note r1 = layout_texts_frame_inv [OF s1, of gs]
  have i1: "frame_inv eng1 gs" using r1 i0 by simp
  note r2 = drain_collisions_frame_inv [OF s2 i1]
  note r3 = move_player_frame_inv [OF s3, of gs2]
  have i3: "frame_inv eng3 gs2" using r2 r3 by simp
  note r4 = click_spawn_frame_inv [OF s4 i3]
  have sm: "small_tick (spawn_timer gs4) (delta eng4)"
    using assms(3) r1 r2 r3 r4 drain_collisions_frame_inv [OF s2 i1]
      drain_events_Inr_D [of "collision_events eng1" "eng1\<lparr>collision_events := []\<rparr>" gs eng2 gs2] s2
    by (auto simp: drain_collisions_def)
  note r5 = timer_spawn_frame_inv [OF s5 _ sm]
  note r6 = reset_score_frame_inv [OF s6]
  show ?thesis using r2 r3 r4 r5 r6 by simp
qed

lemma begin_frame_fields [simp]:
  "sprites (begin_frame inp eng) = sprites eng" "texts (begin_frame inp eng) = texts eng"
  "delta (begin_frame inp eng) = in_delta inp"
  "collision_events (begin_frame inp eng) = collision_events eng @ in_collisions inp"
  "keys_pressed (begin_frame inp eng) = in_keys_pressed inp"
  "keys_just_pressed (begin_frame inp eng) = in_keys_just_pressed inp"
  "should_exit (begin_frame inp eng) = should_exit eng"
  "mouse_just_pressed (begin_frame inp eng) = in_mouse_just_pressed inp"
  "mouse_location (begin_frame inp eng) = in_mouse_location inp"
  by (simp_all add: begin_frame_def)

lemma game_inv_init: "game_inv initial_engine default_game_state"
  by (simp add: game_inv_def frame_inv_def labels_ok_def timer_wf_default)
     (simp add: default_game_state_def from_seconds_def)

lemma input_ok_small_tick:
  "frame_inv eng gs \<Longrightarrow> input_ok inp \<Longrightarrow> small_tick (spawn_timer gs) (in_delta inp)"
  by (auto simp: frame_inv_def input_ok_def intro: small_tick_bound)

lemma frame_start:
  assumes "game_inv eng gs" and "input_ok inp"
  shows "frame_inv (begin_frame inp eng) gs" and "small_tick (spawn_timer gs) (delta (begin_frame inp eng))"
  using assms frame_inv_cong [of "begin_frame inp eng" eng gs] input_ok_small_tick [of eng gs inp]
  by (simp_all add: game_inv_def)

lemma frame_step_game_inv:
  assumes "game_inv eng gs" and "input_ok inp" and "frame_step inp eng gs = Inr (eng', gs')"
  shows "game_inv eng' gs'"
  using game_logic_frame_inv [OF _ frame_start [OF assms(1,2)]] assms(3)
  by (simp add: frame_step_def game_inv_def)

lemma reachable_game_inv_lemma: "reachable eng gs \<Longrightarrow> game_inv eng gs"
proof (induction rule: reachable.induct)
  case init
  show ?case by (rule game_inv_init)
next
  case (step eng gs inp eng' gs')
  then show ?case by (blast intro: frame_step_game_inv)
qed

text \<open>
  C1: in every state the session reaches, between frames, the player's car and both
  score texts exist, the high score is at least the current score, every other
  sprite is a spawned car whose label was minted from an index below the spawn
  counter, the spawn timer is the two-second repeating timer with its elapsed time
  below two seconds, and the collision queue is empty.
\<close>

theorem reachable_game_inv:
  assumes "reachable eng gs"
  shows "player_label \<in> dom (sprites eng) \<and> ''score'' \<in> dom (texts eng)
     \<and> ''high_score'' \<in> dom (texts eng) \<and> current_score gs \<le> high_score gs
     \<and> (\<forall>l \<in> dom (sprites eng). l = player_label
           \<or> (\<exists>k < ferris_index gs. l = click_label k \<or> l = timer_label k))
     \<and> repeating (spawn_timer gs) \<and> duration (spawn_timer gs) = 2000000000
     \<and> elapsed (spawn_timer gs) < 2000000000 \<and> collision_events eng = []"
  using reachable_game_inv_lemma [OF assms]
  by (auto simp: game_inv_def frame_inv_def labels_ok_def timer_wf_def)

theorem reachable_game_inv_witness:
  "player_label \<in> dom (sprites initial_engine) \<and> current_score default_game_state \<le> high_score default_game_state
   \<and> collision_events initial_engine = []"
  using reachable_game_inv [OF reachable.init] by simp

lemma io_fields_update [simp]:
  "io_fields (eng\<lparr>sprites := x\<rparr>) = io_fields eng" "io_fields (eng\<lparr>texts := y\<rparr>) = io_fields eng"
  "io_fields (eng\<lparr>sfx_queue := z\<rparr>) = io_fields eng" "io_fields (eng\<lparr>collision_events := w\<rparr>) = io_fields eng"
  by (simp_all add: io_fields_def)

lemma stages_io_fields:
  "layout_texts eng = Inr eng' \<Longrightarrow> io_fields eng' = io_fields eng"
  "drain_collisions eng gs = Inr (eng', gs') \<Longrightarrow> io_fields eng' = io_fields eng"
  "move_player eng = Inr eng' \<Longrightarrow> io_fields eng' = io_fields eng"
  "click_spawn eng gs = Inr (eng', gs') \<Longrightarrow> io_fields eng' = io_fields eng"
  "timer_spawn rnd eng gs = Inr (eng', gs') \<Longrightarrow> io_fields eng' = io_fields eng"
  "reset_score eng gs = Inr (eng', gs') \<Longrightarrow> io_fields eng' = io_fields eng"
proof -
  show "layout_texts eng = Inr eng' \<Longrightarrow> io_fields eng' = io_fields eng"
    using layout_texts_Inr_D by fastforce
  show "drain_collisions eng gs = Inr (eng', gs') \<Longrightarrow> io_fields eng' = io_fields eng"
    using drain_events_Inr_D [of "collision_events eng" "eng\<lparr>collision_events := []\<rparr>" gs eng' gs']
    by (fastforce simp: drain_collisions_def)
  show "move_player eng = Inr eng' \<Longrightarrow> io_fields eng' = io_fields eng"
    using move_player_Inr_D by fastforce
  show "click_spawn eng gs = Inr (eng', gs') \<Longrightarrow> io_fields eng' = io_fields eng"
    using click_spawn_Inr_D by fastforce
  show "timer_spawn rnd eng gs = Inr (eng', gs') \<Longrightarrow> io_fields eng' = io_fields eng"
    using timer_spawn_Inr_D by fastforce
  show "reset_score eng gs = Inr (eng', gs') \<Longrightarrow> io_fields eng' = io_fields eng"
    using reset_score_Inr_D by fastforce
qed

lemma game_logic_Inr_D:
  assumes "game_logic rnd eng gs = Inr (eng', gs')"
  shows "io_fields eng' = io_fields (check_quit eng)
     \<and> high_score gs \<le> high_score gs'
     \<and> (KeyR \<in> keys_pressed eng \<longrightarrow> current_score gs' = 0)
     \<and> (KeyR \<notin> keys_pressed eng \<and> filter is_scoring (collision_events eng) = [] \<longrightarrow>
          current_score gs' = current_score gs)
     \<and> (filter is_scoring (collision_events eng) = [] \<longrightarrow> high_score gs' = high_score gs)
     \<and> unat (ferris_index gs) \<le> unat (ferris_index gs') \<and> unat (ferris_index gs') \<le> unat (ferris_index gs) + 2"
proof -
  from assms obtain eng1 eng2 gs2 eng3 eng4 gs4 eng5 gs5 where
    s1: "layout_texts (check_quit eng) = Inr eng1" and
    s2: "drain_collisions eng1 gs = Inr (eng2, gs2)" and
    s3: "move_player eng2 = Inr eng3" and
    s4: "click_spawn eng3 gs2 = Inr (eng4, gs4)" and
    s5: "timer_spawn rnd eng4 gs4 = Inr (eng5, gs5)" and
    s6: "reset_score eng5 gs5 = Inr (eng', gs')"
    by (rule game_logic_InrE)
  have io: "io_fields eng' = io_fields (check_quit eng)"
    using stages_io_fields(1) [OF s1] stages_io_fields(2) [OF s2] stages_io_fields(3) [OF s3]
      stages_io_fields(4) [OF s4] stages_io_fields(5) [OF s5] stages_io_fields(6) [OF s6] by simp
  have ev1: "collision_events eng1 = collision_events eng"
    using layout_texts_frame_inv [OF s1] by simp
  from s2 have "drain_events (collision_events eng1) (eng1\<lparr>collision_events := []\<rparr>) gs = Inr (eng2, gs2)"
    by (simp add: drain_collisions_def)
  from drain_events_Inr_D [OF this] ev1 have
    g2: "unat (current_score gs2) = unat (current_score gs) + length (filter is_scoring (collision_events eng))"
      "high_score gs \<le> high_score gs2" "ferris_index gs2 = ferris_index gs"
      "filter is_scoring (collision_events eng) = [] \<Longrightarrow> high_score gs2 = high_score gs"
    by auto
  have g4: "high_score gs4 = high_score gs2 \<and> current_score gs4 = current_score gs2
      \<and> unat (ferris_index gs4) \<le> unat (ferris_index gs2) + 1 \<and> unat (ferris_index gs2) \<le> unat (ferris_index gs4)"
    using click_spawn_Inr_D [OF s4] by (auto simp: unat_word_ariths)
  have g5: "high_score gs5 = high_score gs4 \<and> current_score gs5 = current_score gs4
      \<and> unat (ferris_index gs5) \<le> unat (ferris_index gs4) + 1 \<and> unat (ferris_index gs4) \<le> unat (ferris_index gs5)"
    using timer_spawn_Inr_D [OF s5] by (auto simp: unat_word_ariths)
  have k5: "keys_pressed eng5 = keys_pressed eng"
    using stages_io_fields(1) [OF s1] stages_io_fields(2) [OF s2] stages_io_fields(3) [OF s3]
      stages_io_fields(4) [OF s4] stages_io_fields(5) [OF s5] by (simp add: io_fields_def)
  have g6: "gs' = (if pressed KeyR eng5 then gs5\<lparr>current_score := 0\<rparr> else gs5)"
    using reset_score_Inr_D [OF s6] by blast
  have c2: "filter is_scoring (collision_events eng) = [] \<Longrightarrow> current_score gs2 = current_score gs"
    using g2(1) by (simp add: word_unat_eq_iff)
  show ?thesis
    using io g2(2,3,4) c2 g4 g5 k5 g6 by (auto simp: pressed_def)
qed

lemma layout_texts_Inl:
  "layout_texts eng = Inl e \<Longrightarrow> frame_inv eng gs \<Longrightarrow> False"
  by (auto simp: layout_texts_def Let_def frame_inv_def bindr_eq_Inl_iff update_text_def
      split: option.splits)

lemma drain_events_Inl:
  "drain_events evs eng gs = Inl e \<Longrightarrow> ''score'' \<in> dom (texts eng) \<Longrightarrow>
   ''high_score'' \<in> dom (texts eng) \<Longrightarrow> e = AddOverflow"
proof (induction evs arbitrary: eng gs)
  case Nil
  then show ?case by simp
next
  case (Cons ev evs)
  show ?case
  proof (cases "handle_event ev eng gs")
    case (Inl e')
    with Cons.prems show ?thesis by (auto dest: handle_event_Inl_overflow)
  next
    case (Inr r)
    obtain eng1 gs1 where r: "r = (eng1, gs1)" by (cases r)
    with Inr Cons.prems(1) have "drain_events evs eng1 gs1 = Inl e" by simp
    moreover have "dom (texts eng1) = dom (texts eng)"
      using handle_event_dom_texts [of ev eng gs eng1 gs1] Inr r by simp
    ultimately show ?thesis using Cons.IH Cons.prems(2,3) by simp
  qed
qed

lemma drain_collisions_Inl:
  "drain_collisions eng gs = Inl e \<Longrightarrow> frame_inv eng gs \<Longrightarrow> e = AddOverflow"
  by (auto simp: drain_collisions_def frame_inv_def dest: drain_events_Inl)

lemma move_player_Inl: "move_player eng = Inl e \<Longrightarrow> frame_inv eng gs \<Longrightarrow> False"
  by (auto simp: move_player_def frame_inv_def update_sprite_Inl_iff)

lemma click_spawn_Inl: "click_spawn eng gs = Inl e \<Longrightarrow> e = AddOverflow"
  by (auto simp: click_spawn_def Let_def bindr_eq_Inl_iff inc_u32_Inl_iff split: if_splits option.splits)

lemma timer_spawn_Inl: "timer_spawn rnd eng gs = Inl e \<Longrightarrow> e = AddOverflow"
  by (auto simp: timer_spawn_def Let_def bindr_eq_Inl_iff inc_u32_Inl_iff split: if_splits)

lemma reset_score_Inl: "reset_score eng gs = Inl e \<Longrightarrow> frame_inv eng gs \<Longrightarrow> False"
  by (auto simp: reset_score_def frame_inv_def bindr_eq_Inl_iff update_text_Inl_iff split: if_splits)

lemma game_logic_Inl:
  assumes "game_logic rnd eng gs = Inl e" and "frame_inv eng gs"
    and "small_tick (spawn_timer gs) (delta eng)"
  shows "e = AddOverflow"
proof -
  have i0: "frame_inv (check_quit eng) gs"
    using assms(2) frame_inv_cong [of "check_quit eng" eng gs] by simp
  consider (s1) "layout_texts (check_quit eng) = Inl e"
    | (s2) eng1 where "layout_texts (check_quit eng) = Inr eng1" "drain_collisions eng1 gs = Inl e"
    | (s3) eng1 eng2 gs2 where "layout_texts (check_quit eng) = Inr eng1"
        "drain_collisions eng1 gs = Inr (eng2, gs2)" "move_player eng2 = Inl e"
    | (s4) eng3 gs2 where "click_spawn eng3 gs2 = Inl e"
    | (s5) eng4 gs4 where "timer_spawn rnd eng4 gs4 = Inl e"
    | (s6) eng1 eng2 gs2 eng3 eng4 gs4 eng5 gs5 where "layout_texts (check_quit eng) = Inr eng1"
        "drain_collisions eng1 gs = Inr (eng2, gs2)" "move_player eng2 = Inr eng3"
        "click_spawn eng3 gs2 = Inr (eng4, gs4)" "timer_spawn rnd eng4 gs4 = Inr (eng5, gs5)"
        "reset_score eng5 gs5 = Inl e"
    using assms(1) by (auto simp: game_logic_def bindr_eq_Inl_iff split: prod.splits)
  then show ?thesis
  proof cases
    case s1
    then show ?thesis using layout_texts_Inl i0 by blast
  next
    case (s2 eng1)
    then show ?thesis using layout_texts_frame_inv [of _ eng1 gs] i0 drain_collisions_Inl by auto
  next
    case (s3 eng1 eng2 gs2)
    have "frame_inv eng1 gs" using s3(1) layout_texts_frame_inv [of _ eng1 gs] i0 by auto
    then have "frame_inv eng2 gs2" using drain_collisions_frame_inv [OF s3(2)] by simp
    then show ?thesis using s3(3) move_player_Inl by blast
  next
    case s4
    then show ?thesis by (rule click_spawn_Inl)
  next
    case s5
    then show ?thesis by (rule timer_spawn_Inl)
  next
    case (s6 eng1 eng2 gs2 eng3 eng4 gs4 eng5 gs5)
    have i1: "frame_inv eng1 gs" using s6(1) layout_texts_frame_inv [of _ eng1 gs] i0 by auto
    note r2 = drain_collisions_frame_inv [OF s6(2) i1]
    have i3: "frame_inv eng3 gs2" using r2 move_player_frame_inv [OF s6(3), of gs2] by simp
    note r4 = click_spawn_frame_inv [OF s6(4) i3]
    have sm: "small_tick (spawn_timer gs4) (delta eng4)"
      using assms(3) s6(1) r2 r4 layout_texts_frame_inv [OF s6(1), of gs]
        move_player_frame_inv [OF s6(3), of gs2]
        drain_events_Inr_D [of "collision_events eng1" "eng1\<lparr>collision_events := []\<rparr>" gs eng2 gs2] s6(2)
      by (auto simp: drain_collisions_def)
    have "frame_inv eng5 gs5" using timer_spawn_frame_inv [OF s6(5) _ sm] r4 by simp
    then show ?thesis using s6(6) reset_score_Inl by blast
  qed
qed

lemma timer_spawn_idle:
  "\<not> just_finished (tick (delta eng) (spawn_timer gs)) \<Longrightarrow>
   timer_spawn rnd eng gs = Inr (eng, gs\<lparr>spawn_timer := tick (delta eng) (spawn_timer gs)\<rparr>)"
  by (simp add: timer_spawn_def Let_def)

lemma spawn_stages_ok:
  assumes "unat (ferris_index gs)
      + (if MouseLeft \<in> mouse_just_pressed eng \<and> mouse_location eng \<noteq> None then 1 else 0)
      + (if just_finished (tick (delta eng) (spawn_timer gs)) then 1 else 0) < 2 ^ 32"
  shows "\<exists>eng4 gs4 eng5 gs5. click_spawn eng gs = Inr (eng4, gs4)
           \<and> timer_spawn rnd eng4 gs4 = Inr (eng5, gs5)"
proof -
  let ?j = "just_finished (tick (delta eng) (spawn_timer gs))"
  obtain eng4 gs4 where s4: "click_spawn eng gs = Inr (eng4, gs4)"
    and g4: "unat (ferris_index gs4) + (if ?j then 1 else 0) < 2 ^ 32"
    and d4: "delta eng4 = delta eng" "spawn_timer gs4 = spawn_timer gs"
  proof (cases "MouseLeft \<in> mouse_just_pressed eng \<and> mouse_location eng \<noteq> None")
    case True
    then have lt: "unat (ferris_index gs) < 2 ^ 32 - 1" using assms by (simp split: if_splits)
    then obtain eng4 gs4 where s4: "click_spawn eng gs = Inr (eng4, gs4)"
      using click_spawn_ok [OF lt, of eng] by auto
    have "gs4 = gs\<lparr>ferris_index := ferris_index gs + 1\<rparr>"
      using click_spawn_Inr_eq [OF s4] True by simp
    moreover have "delta eng4 = delta eng"
      using stages_io_fields(4) [OF s4] by (simp add: io_fields_def)
    moreover have "unat (ferris_index gs + 1) = unat (ferris_index gs) + 1"
      using lt by (simp add: unat_word_ariths)
    ultimately show ?thesis
      by (intro that [OF s4]) (use assms True in simp_all)
  next
    case False
    then have "click_spawn eng gs = Inr (eng, gs)" by (auto simp: click_spawn_def split: option.splits)
    then show ?thesis
      by (rule that) (use assms False in simp_all)
  qed
  show ?thesis
  proof (cases ?j)
    case True
    then have "unat (ferris_index gs4) < 2 ^ 32 - 1" using g4 by simp
    from timer_spawn_eq [OF this, of rnd eng4] s4 show ?thesis by (auto split: if_splits)
  next
    case False
    with s4 d4 show ?thesis using timer_spawn_idle [of eng4 gs4 rnd] by auto
  qed
qed

lemma game_logic_ok_exact:
  assumes "frame_inv eng gs" and "small_tick (spawn_timer gs) (delta eng)"
    and "unat (current_score gs) + length (filter is_scoring (collision_events eng)) < 2 ^ 32"
    and "unat (ferris_index gs)
      + (if MouseLeft \<in> mouse_just_pressed eng \<and> mouse_location eng \<noteq> None then 1 else 0)
      + (if just_finished (tick (delta eng) (spawn_timer gs)) then 1 else 0) < 2 ^ 32"
  shows "\<exists>eng' gs'. game_logic rnd eng gs = Inr (eng', gs')"
proof -
  have i0: "frame_inv (check_quit eng) gs"
    using assms(1) frame_inv_cong [of "check_quit eng" eng gs] by simp
  then obtain eng1 where s1: "layout_texts (check_quit eng) = Inr eng1"
    using layout_texts_ok [of "check_quit eng"] by (auto simp: frame_inv_def)
  note r1 = layout_texts_frame_inv [OF s1, of gs]
  have i1: "frame_inv eng1 gs" using r1 i0 by simp
  have b1: "unat (current_score gs) + length (filter is_scoring (collision_events eng1)) < 2 ^ 32"
    using assms(3) r1 by simp
  obtain tx where s2: "drain_collisions eng1 gs =
      Inr (batch_engine (collision_events eng1) tx eng1, batch_state (collision_events eng1) gs)"
    using drain_collisions_eq [OF _ _ b1] i1 by (auto simp: frame_inv_def)
  let ?eng2 = "batch_engine (collision_events eng1) tx eng1"
  let ?gs2 = "batch_state (collision_events eng1) gs"
  note r2 = drain_collisions_frame_inv [OF s2 i1]
  obtain s where "sprites ?eng2 player_label = Some s" using r2 by (auto simp: frame_inv_def)
  then have s3: "move_player ?eng2 = Inr (?eng2\<lparr>sprites := (sprites ?eng2)(player_label \<mapsto> move_by ?eng2 s)\<rparr>)"
    by (rule move_player_eq)
  let ?eng3 = "?eng2\<lparr>sprites := (sprites ?eng2)(player_label \<mapsto> move_by ?eng2 s)\<rparr>"
  have i3: "frame_inv ?eng3 ?gs2" using r2 move_player_frame_inv [OF s3, of ?gs2] by simp
  have "io_fields ?eng3 = io_fields (check_quit eng)"
    using stages_io_fields(1) [OF s1] stages_io_fields(2) [OF s2] stages_io_fields(3) [OF s3] by simp
  then have "mouse_just_pressed ?eng3 = mouse_just_pressed eng" "mouse_location ?eng3 = mouse_location eng"
      "delta ?eng3 = delta eng"
    by (simp_all add: io_fields_def check_quit_def Let_def)
  then obtain eng4 gs4 eng5 gs5 where s4: "click_spawn ?eng3 ?gs2 = Inr (eng4, gs4)"
    and s5: "timer_spawn rnd eng4 gs4 = Inr (eng5, gs5)"
    using spawn_stages_ok [of ?gs2 ?eng3 rnd] assms(4) by auto
  note r4 = click_spawn_frame_inv [OF s4 i3]
  have sm: "small_tick (spawn_timer gs4) (delta eng4)"
    using assms(2) r1 r2 r4 move_player_frame_inv [OF s3, of ?gs2] by simp
  have "frame_inv eng5 gs5" using timer_spawn_frame_inv [OF s5 _ sm] r4 by simp
  then obtain r where s6: "reset_score eng5 gs5 = Inr r"
    using reset_score_ok [of eng5 gs5] by (auto simp: frame_inv_def split: if_splits)
  show ?thesis
    using s1 s2 s3 s4 s5 s6 by (cases r) (simp add: game_logic_def)
qed

lemma game_logic_ok:
  assumes "frame_inv eng gs" and "small_tick (spawn_timer gs) (delta eng)"
    and "unat (current_score gs) + length (filter is_scoring (collision_events eng)) < 2 ^ 32"
    and "unat (ferris_index gs) + 2 < 2 ^ 32"
  shows "\<exists>eng' gs'. game_logic rnd eng gs = Inr (eng', gs')"
  using game_logic_ok_exact [OF assms(1-3)] assms(4) by (simp split: if_splits)

lemma frame_step_ok_exact:
  assumes "game_inv eng gs" and "input_ok inp"
    and "unat (current_score gs) + length (filter is_scoring (in_collisions inp)) < 2 ^ 32"
    and "unat (ferris_index gs)
      + (if MouseLeft \<in> in_mouse_just_pressed inp \<and> in_mouse_location inp \<noteq> None then 1 else 0)
      + (if just_finished (tick (in_delta inp) (spawn_timer gs)) then 1 else 0) < 2 ^ 32"
  shows "\<exists>eng' gs'. frame_step inp eng gs = Inr (eng', gs')"
  using game_logic_ok_exact [OF frame_start [OF assms(1,2)], of "in_random inp"] assms(1,3,4)
  by (simp add: frame_step_def game_inv_def)

lemma frame_step_ok:
  assumes "game_inv eng gs" and "input_ok inp"
    and "unat (current_score gs) + length (filter is_scoring (in_collisions inp)) < 2 ^ 32"
    and "unat (ferris_index gs) + 2 < 2 ^ 32"
  shows "\<exists>eng' gs'. frame_step inp eng gs = Inr (eng', gs')"
  using frame_step_ok_exact [OF assms(1-3)] assms(4) by (simp split: if_splits)

lemma frame_step_Inl:
  assumes "game_inv eng gs" and "input_ok inp" and "frame_step inp eng gs = Inl e"
  shows "e = AddOverflow"
  using game_logic_Inl [OF _ frame_start [OF assms(1,2)]] assms(3) by (simp add: frame_step_def)

lemma frame_step_ferris_index:
  assumes "frame_step inp eng gs = Inr (eng', gs')"
  shows "unat (ferris_index gs) \<le> unat (ferris_index gs') \<and> unat (ferris_index gs') \<le> unat (ferris_index gs) + 2"
  using game_logic_Inr_D [of "in_random inp" "begin_frame inp eng" gs eng' gs'] assms
  by (simp add: frame_step_def)

lemma idle_input_ok: "input_ok idle_input"
  by (simp add: idle_input_def input_ok_def)

text \<open>
  C2: in a reachable state, a frame never panics on a missing sprite or text: the only
  panic left is the overflow of a \<open>u32\<close> counter.
\<close>

theorem frame_no_unwrap_panic:
  assumes "reachable eng gs" and "input_ok inp" and "frame_step inp eng gs = Inl e"
  shows "e = AddOverflow"
  using frame_step_Inl [OF reachable_game_inv_lemma [OF assms(1)] assms(2,3)] .

theorem frame_no_unwrap_panic_witness:
  "frame_step (idle_input\<lparr>in_keys_pressed := {KeyR}\<rparr>) initial_engine default_game_state
     \<noteq> Inl (UnwrapNone ''score'')"
proof
  assume "frame_step (idle_input\<lparr>in_keys_pressed := {KeyR}\<rparr>) initial_engine default_game_state
     = Inl (UnwrapNone ''score'')"
  moreover have "input_ok (idle_input\<lparr>in_keys_pressed := {KeyR}\<rparr>)"
    by (simp add: idle_input_def input_ok_def)
  ultimately have "UnwrapNone ''score'' = AddOverflow"
    using frame_no_unwrap_panic [OF reachable.init] by blast
  then show False by simp
qed

text \<open>
  C14: from a reachable state every frame with host-produced input runs to completion
  as long as the current score and the spawn counter cannot overflow in it.
\<close>

theorem frame_step_completes:
  assumes "reachable eng gs" and "input_ok inp"
    and "unat (current_score gs) + length (filter is_scoring (in_collisions inp)) < 2 ^ 32"
    and "unat (ferris_index gs) + 2 < 2 ^ 32"
  shows "\<exists>eng' gs'. frame_step inp eng gs = Inr (eng', gs')"
  using frame_step_ok [OF reachable_game_inv_lemma [OF assms(1)] assms(2-4)] .

theorem frame_step_completes_witness:
  "\<exists>eng' gs'. frame_step idle_input initial_engine default_game_state = Inr (eng', gs')"
  using frame_step_completes [OF reachable.init idle_input_ok]
  by (simp add: idle_input_def default_game_state_def)

text \<open>
  C16: no frame ever lowers the high score, from any state.
\<close>

theorem frame_high_score_monotone:
  assumes "frame_step inp eng gs = Inr (eng', gs')"
  shows "high_score gs \<le> high_score gs'"
  using game_logic_Inr_D [of "in_random inp" "begin_frame inp eng" gs eng' gs'] assms
  by (simp add: frame_step_def)

theorem frame_high_score_monotone_witness:
  "\<exists>eng' gs'. frame_step idle_input initial_engine default_game_state = Inr (eng', gs')
     \<and> high_score default_game_state \<le> high_score gs'"
proof -
  obtain eng' gs' where f: "frame_step idle_input initial_engine default_game_state = Inr (eng', gs')"
    using frame_step_ok [OF game_inv_init idle_input_ok] by (auto simp: idle_input_def default_game_state_def)
  from f frame_high_score_monotone [OF f] show ?thesis by blast
qed

text \<open>
  C17: a frame in which R is held ends with current score 0, every frame it is held
  (the key is level-sensitive); when the frame brings no scoring collision the high
  score is left as it was.
\<close>

theorem frame_reset_held:
  assumes "KeyR \<in> in_keys_pressed inp" and "frame_step inp eng gs = Inr (eng', gs')"
  shows "current_score gs' = 0
     \<and> (filter is_scoring (collision_events eng @ in_collisions inp) = [] \<longrightarrow> high_score gs' = high_score gs)"
  using game_logic_Inr_D [of "in_random inp" "begin_frame inp eng" gs eng' gs'] assms
  by (simp add: frame_step_def)

theorem frame_reset_held_witness:
  "\<exists>eng1 gs1 eng2 gs2 eng3 gs3.
     frame_step (idle_input\<lparr>in_keys_pressed := {KeyR}\<rparr>) initial_engine (default_game_state\<lparr>current_score := 3, high_score := 5\<rparr>) = Inr (eng1, gs1)
   \<and> frame_step (idle_input\<lparr>in_keys_pressed := {KeyR}\<rparr>) eng1 gs1 = Inr (eng2, gs2)
   \<and> frame_step (idle_input\<lparr>in_keys_pressed := {KeyR}\<rparr>) eng2 gs2 = Inr (eng3, gs3)
   \<and> current_score gs1 = 0 \<and> current_score gs2 = 0 \<and> current_score gs3 = 0
   \<and> high_score gs3 = 5"
proof -
  let ?i = "idle_input\<lparr>in_keys_pressed := {KeyR}\<rparr>"
  let ?g = "default_game_state\<lparr>current_score := 3, high_score := 5\<rparr>"
  have ok: "input_ok ?i" by (simp add: idle_input_def input_ok_def)
  have k: "KeyR \<in> in_keys_pressed ?i" and nc: "in_collisions ?i = []" by (simp_all add: idle_input_def)
  have g0: "game_inv initial_engine ?g"
    using game_inv_init by (simp add: game_inv_def frame_inv_def default_game_state_def)
  obtain eng1 gs1 where f1: "frame_step ?i initial_engine ?g = Inr (eng1, gs1)"
    using frame_step_ok [OF g0 ok] nc by (auto simp: default_game_state_def)
  have g1: "game_inv eng1 gs1" using frame_step_game_inv [OF g0 ok f1] .
  have r1: "current_score gs1 = 0 \<and> high_score gs1 = 5"
    using frame_reset_held [OF k f1] nc by simp
  have x1: "unat (ferris_index gs1) \<le> 2"
    using frame_step_ferris_index [OF f1] by (simp add: default_game_state_def)
  obtain eng2 gs2 where f2: "frame_step ?i eng1 gs1 = Inr (eng2, gs2)"
    using frame_step_ok [OF g1 ok] nc r1 x1 by auto
  have g2: "game_inv eng2 gs2" using frame_step_game_inv [OF g1 ok f2] .
  have r2: "current_score gs2 = 0 \<and> high_score gs2 = 5"
    using frame_reset_held [OF k f2] nc r1 g1 by (simp add: game_inv_def)
  have x2: "unat (ferris_index gs2) \<le> 4"
    using frame_step_ferris_index [OF f2] x1 by simp
  obtain eng3 gs3 where f3: "frame_step ?i eng2 gs2 = Inr (eng3, gs3)"
    using frame_step_ok [OF g2 ok] nc r2 x2 by auto
  have r3: "current_score gs3 = 0 \<and> high_score gs3 = 5"
    using frame_reset_held [OF k f3] nc r2 g2 by (simp add: game_inv_def)
  show ?thesis using f1 f2 f3 r1 r2 r3 by blast
qed

lemma run_game_exit [simp]: "should_exit eng \<Longrightarrow> run_game inps eng gs = Inr (eng, gs)"
  by (cases inps) simp_all

lemma frame_step_should_exit:
  assumes "frame_step inp eng gs = Inr (eng', gs')"
  shows "should_exit eng' \<longleftrightarrow> should_exit eng \<or> KeyQ \<in> in_keys_just_pressed inp"
proof -
  have "io_fields eng' = io_fields (check_quit (begin_frame inp eng))"
    using game_logic_Inr_D [of "in_random inp" "begin_frame inp eng" gs eng' gs'] assms
    by (simp add: frame_step_def)
  then show ?thesis by (auto simp: io_fields_def check_quit_def key_just_pressed_def Let_def)
qed

text \<open>
  C18: quitting is cooperative: the frame in which Q is first pressed runs to its end,
  sets the exit flag, and no later frame of the session runs.
\<close>

theorem quit_ends_session:
  assumes "\<not> should_exit eng" and "KeyQ \<in> in_keys_just_pressed inp"
    and "frame_step inp eng gs = Inr (eng', gs')"
  shows "should_exit eng' \<and> run_game (inp # inps) eng gs = Inr (eng', gs')"
proof -
  have ex: "should_exit eng'" using frame_step_should_exit [OF assms(3)] assms(2) by simp
  with assms(1,3) show ?thesis by simp
qed

theorem quit_ends_session_witness:
  "\<exists>eng' gs'. should_exit eng'
     \<and> run_game [idle_input\<lparr>in_keys_just_pressed := {KeyQ}\<rparr>, idle_input, idle_input]
           initial_engine default_game_state = Inr (eng', gs')"
proof -
  let ?q = "idle_input\<lparr>in_keys_just_pressed := {KeyQ}\<rparr>"
  have ok: "input_ok ?q" by (simp add: idle_input_def input_ok_def)
  obtain eng' gs' where f: "frame_step ?q initial_engine default_game_state = Inr (eng', gs')"
    using frame_step_ok [OF game_inv_init ok] by (auto simp: idle_input_def default_game_state_def)
  have "\<not> should_exit initial_engine" and "KeyQ \<in> in_keys_just_pressed ?q" by simp_all
  from quit_ends_session [OF this f] show ?thesis by blast
qed

text \<open>
  C19: in every reachable state, no label the spawn counter will still mint is in
  use, so the engine's \<open>add_sprite\<close>, which silently replaces a sprite with the
  same label, never replaces one: the specification's \<open>DuplicateLabel\<close> cannot
  arise.
\<close>

theorem spawn_labels_fresh:
  assumes "reachable eng gs" and "ferris_index gs \<le> k"
  shows "click_label k \<notin> dom (sprites eng) \<and> timer_label k \<notin> dom (sprites eng)"
proof -
  have "labels_ok (dom (sprites eng)) (ferris_index gs)"
    using reachable_game_inv_lemma [OF assms(1)] by (simp add: game_inv_def frame_inv_def)
  then show ?thesis
    using assms(2) click_label_inj timer_label_inj click_timer_label_distinct
    unfolding labels_ok_def
    by (metis not_le spawn_labels_ne_player)
qed

theorem spawn_labels_fresh_witness:
  "click_label 0 \<notin> dom (sprites initial_engine) \<and> timer_label 0 \<notin> dom (sprites initial_engine)"
  using spawn_labels_fresh [OF reachable.init, of 0] by (simp add: default_game_state_def)

end
