(* ===== verification/Simulation.thy ===== *)
theory Simulation
  imports Frame
begin

text \<open>
  An abstract view of the game, as the specification describes it: the score tracker,
  the set of live cars (every sprite but the player), the number of cars spawned so far,
  the spawn timer and the player's position. \<open>abs_game\<close> reads it off a state of the program and
  \<open>abs_frame\<close> is what one frame of the specification does to it, given the frame's
  input: it counts one point per scoring event, removes the cars those events name,
  adds the clicked car and the timer's car with the next labels, and applies the reset
  key, and moves the player by \<open>displacement\<close>. The theorems of this theory are
  that every frame of \<open>game_logic\<close> from a reachable state refines \<open>abs_frame\<close>
  and that every run refines \<open>abs_run\<close>; a frame of zero length is read off the
  simulation as the boundary case.
\<close>

record game_abs =
  abs_scores :: score_spec
  live :: "label set"
  spawned :: nat
  abs_timer :: timer
  player_pos :: vec2

definition abs_game :: "engine \<Rightarrow> game_state \<Rightarrow> game_abs" where
  "abs_game eng gs =
     \<lparr>abs_scores = abs_score gs, live = dom (sprites eng) - {player_label},
      spawned = unat (ferris_index gs), abs_timer = spawn_timer gs,
      player_pos = translation (the (sprites eng player_label))\<rparr>"

text \<open>The player's displacement in a frame: \<open>speed * delta\<close> per held direction.\<close>

definition displacement :: "frame_input \<Rightarrow> vec2" where
  "displacement inp =
     (let d = 100 * (real (in_delta inp) / 1000000000);
          axis = (\<lambda>pos neg. (of_bool (list_ex (\<lambda>k. k \<in> in_keys_pressed inp) pos)
                   - of_bool (list_ex (\<lambda>k. k \<in> in_keys_pressed inp) neg) :: real))
      in (axis [KeyRight, KeyD] [KeyLeft, KeyA] * d, axis [KeyUp, KeyW] [KeyDown, KeyS] * d))"

definition abs_frame :: "frame_input \<Rightarrow> game_abs \<Rightarrow> game_abs" where
  "abs_frame inp a =
     (let n = length (filter is_scoring (in_collisions inp));
          s1 = (register_point ^^ n) (abs_scores a);
          l1 = live a - batch_victims (in_collisions inp);
          c = (MouseLeft \<in> in_mouse_just_pressed inp \<and> in_mouse_location inp \<noteq> None);
          k1 = spawned a + (if c then 1 else 0);
          l2 = (if c then insert (''ferris'' @ dec_string (spawned a)) l1 else l1);
          t = tick (in_delta inp) (abs_timer a);
          l3 = (if just_finished t then insert (''Ferris'' @ dec_string k1) l2 else l2);
          k2 = k1 + (if just_finished t then 1 else 0)
      in \<lparr>abs_scores = (if KeyR \<in> in_keys_pressed inp then reset_current s1 else s1),
          live = l3, spawned = k2, abs_timer = t,
          player_pos = (fst (player_pos a) + fst (displacement inp),
                        snd (player_pos a) + snd (displacement inp))\<rparr>)"

text \<open>A run of the abstract game: frames until the one in which Q is pressed.\<close>

fun abs_run :: "frame_input list \<Rightarrow> game_abs \<Rightarrow> game_abs" where
  "abs_run [] a = a"
| "abs_run (inp # inps) a =
     (if KeyQ \<in> in_keys_just_pressed inp then abs_frame inp a else abs_run inps (abs_frame inp a))"

text \<open>A frame whose input has a fresh left click with a cursor position.\<close>

definition is_click :: "frame_input \<Rightarrow> bool" where
  "is_click inp \<longleftrightarrow> MouseLeft \<in> in_mouse_just_pressed inp \<and> in_mouse_location inp \<noteq> None"

lemma spawn_stages_abs:
  assumes "click_spawn eng gs = Inr (eng1, gs1)" and "timer_spawn rnd eng1 gs1 = Inr (eng2, gs2)"
  shows "dom (sprites eng2) - {player_label} =
           (let c = (MouseLeft \<in> mouse_just_pressed eng \<and> mouse_location eng \<noteq> None);
                k1 = unat (ferris_index gs) + (if c then 1 else 0);
                l2 = (if c then insert (''ferris'' @ dec_string (unat (ferris_index gs)))
                                   (dom (sprites eng) - {player_label})
                      else dom (sprites eng) - {player_label})
            in if just_finished (tick (delta eng) (spawn_timer gs))
               then insert (''Ferris'' @ dec_string k1) l2 else l2)
     \<and> unat (ferris_index gs2) = unat (ferris_index gs)
           + (if MouseLeft \<in> mouse_just_pressed eng \<and> mouse_location eng \<noteq> None then 1 else 0)
           + (if just_finished (tick (delta eng) (spawn_timer gs)) then 1 else 0)
     \<and> spawn_timer gs2 = tick (delta eng) (spawn_timer gs)
     \<and> abs_score gs2 = abs_score gs \<and> io_fields eng2 = io_fields eng"
proof -
  note c = click_spawn_Inr_eq [OF assms(1)]
  note t = timer_spawn_Inr_eq [OF assms(2)]
  have io1: "io_fields eng1 = io_fields eng" using stages_io_fields(4) [OF assms(1)] .
  have io2: "io_fields eng2 = io_fields eng1" using stages_io_fields(5) [OF assms(2)] .
  have dl: "delta eng1 = delta eng" using io1 by (simp add: io_fields_def)
  have tm: "spawn_timer gs1 = spawn_timer gs" using c by (auto split: if_splits)
  have u: "\<And>i :: u32. unat i < 2 ^ 32 - 1 \<Longrightarrow> unat (i + 1) = unat i + 1"
    by (simp add: unat_word_ariths)
  have u2: "\<And>i :: u32. unat i < 2 ^ 32 - 2 \<Longrightarrow> unat (2 + i) = unat i + 2"
    by (simp add: unat_word_ariths)
  have lbl: "\<And>i. click_label i = ''ferris'' @ dec_string (unat i)"
    "\<And>i. timer_label i = ''Ferris'' @ dec_string (unat i)"
    by (simp_all add: click_label_def timer_label_def u32_string_def)
  have np: "\<And>i. click_label i \<noteq> player_label" "\<And>i. timer_label i \<noteq> player_label" by simp_all
  show ?thesis
    using c t dl tm io1 io2 u u2 lbl np
    by (auto simp: Let_def abs_score_def insert_Diff_if split: if_splits)
qed

lemma check_quit_io [simp]:
  "mouse_just_pressed (check_quit eng) = mouse_just_pressed eng"
  "mouse_location (check_quit eng) = mouse_location eng"
  by (simp_all add: check_quit_def Let_def)

lemma frame_step_player:
  assumes "frame_step inp eng gs = Inr (eng', gs')" and "sprites eng player_label = Some p"
  shows "\<exists>p'. sprites eng' player_label = Some p'
     \<and> translation p' = (fst (translation p) + fst (displacement inp),
                         snd (translation p) + snd (displacement inp))"
proof -
  let ?e0 = "check_quit (begin_frame inp eng)"
  from assms(1) [unfolded frame_step_def] obtain eng1 eng2 gs2 eng3 eng4 gs4 eng5 gs5 where
    s1: "layout_texts ?e0 = Inr eng1" and
    s2: "drain_collisions eng1 gs = Inr (eng2, gs2)" and
    s3: "move_player eng2 = Inr eng3" and
    s4: "click_spawn eng3 gs2 = Inr (eng4, gs4)" and
    s5: "timer_spawn (in_random inp) eng4 gs4 = Inr (eng5, gs5)" and
    s6: "reset_score eng5 gs5 = Inr (eng', gs')"
    by (rule game_logic_InrE)
  have p1: "sprites eng1 player_label = Some p"
    using layout_texts_Inr_D [OF s1] assms(2) by auto
  have p2: "sprites eng2 player_label = Some p"
    using drain_events_Inr_D [of "collision_events eng1" "eng1\<lparr>collision_events := []\<rparr>" gs eng2 gs2]
      s2 p1 player_not_batch_victim by (auto simp: drain_collisions_def)
  have e3: "eng3 = eng2\<lparr>sprites := (sprites eng2)(player_label \<mapsto> move_by eng2 p)\<rparr>"
    using move_player_Inr_D [OF s3] p2 by auto
  have "io_fields eng2 = io_fields ?e0"
    using stages_io_fields(1) [OF s1] stages_io_fields(2) [OF s2] by simp
  then have in2: "keys_pressed eng2 = in_keys_pressed inp"
      "delta_f32 eng2 = real (in_delta inp) / 1000000000"
    by (simp_all add: io_fields_def check_quit_def Let_def begin_frame_def)
  have p5: "sprites eng5 player_label = Some (move_by eng2 p)"
    using click_spawn_Inr_D [OF s4] timer_spawn_Inr_D [OF s5] e3 by auto
  have "sprites eng' player_label = Some (move_by eng2 p)"
    using reset_score_Inr_D [OF s6] p5 by auto
  moreover have "translation (move_by eng2 p) = (fst (translation p) + fst (displacement inp),
                         snd (translation p) + snd (displacement inp))"
    using in2 by (simp add: move_by_translation key_axis_def pressed_any_def displacement_def
        MOVEMENT_SPEED_def Let_def)
  ultimately show ?thesis by blast
qed

lemma frame_step_abs:
  assumes "reachable eng gs" and "frame_step inp eng gs = Inr (eng', gs')"
  shows "abs_game eng' gs' = abs_frame inp (abs_game eng gs)"
proof -
  have gi: "game_inv eng gs" using assms(1) by (rule reachable_game_inv_lemma)
  let ?e0 = "check_quit (begin_frame inp eng)"
  from assms(2) [unfolded frame_step_def] obtain eng1 eng2 gs2 eng3 eng4 gs4 eng5 gs5 where
    s1: "layout_texts ?e0 = Inr eng1" and
    s2: "drain_collisions eng1 gs = Inr (eng2, gs2)" and
    s3: "move_player eng2 = Inr eng3" and
    s4: "click_spawn eng3 gs2 = Inr (eng4, gs4)" and
    s5: "timer_spawn (in_random inp) eng4 gs4 = Inr (eng5, gs5)" and
    s6: "reset_score eng5 gs5 = Inr (eng', gs')"
    by (rule game_logic_InrE)
  have e1: "sprites eng1 = sprites eng" "collision_events eng1 = in_collisions inp"
    using layout_texts_frame_inv [OF s1, of gs] gi by (simp_all add: game_inv_def)
  have le: "current_score gs \<le> high_score gs" using gi by (simp add: game_inv_def frame_inv_def)
  note d = drain_collisions_abs [OF s2 le]
  obtain p where "sprites eng2 player_label = Some p"
    and e3: "eng3 = eng2\<lparr>sprites := (sprites eng2)(player_label \<mapsto> move_by eng2 p)\<rparr>"
    using move_player_Inr_D [OF s3] by blast
  then have d3: "dom (sprites eng3) = dom (sprites eng2)" by auto
  note sp = spawn_stages_abs [OF s4 s5]
  have io3: "io_fields eng3 = io_fields ?e0"
    using stages_io_fields(1) [OF s1] stages_io_fields(2) [OF s2] stages_io_fields(3) [OF s3] by simp
  then have in3: "mouse_just_pressed eng3 = in_mouse_just_pressed inp"
      "mouse_location eng3 = in_mouse_location inp" "delta eng3 = in_delta inp"
      "keys_pressed eng3 = in_keys_pressed inp"
    by (simp_all add: io_fields_def check_quit_def Let_def begin_frame_def)
  have k5: "keys_pressed eng5 = in_keys_pressed inp" using sp in3 by (simp add: io_fields_def)
  obtain tx where e6: "eng' = eng5\<lparr>texts := tx\<rparr>"
    and g6: "gs' = (if pressed KeyR eng5 then gs5\<lparr>current_score := 0\<rparr> else gs5)"
    using reset_score_Inr_D [OF s6] by blast
  have sc: "abs_score gs' = (if KeyR \<in> in_keys_pressed inp then reset_current (abs_score gs5) else abs_score gs5)"
    using g6 k5 by (simp add: pressed_def abs_score_def reset_current_def)
  have dd: "dom (sprites eng3) - {player_label} = (dom (sprites eng) - {player_label}) - batch_victims (in_collisions inp)"
    using d d3 e1 by auto
  have f6: "ferris_index gs' = ferris_index gs5" "spawn_timer gs' = spawn_timer gs5"
      "sprites eng' = sprites eng5"
    using g6 e6 by simp_all
  obtain p where p: "sprites eng player_label = Some p"
    using gi by (auto simp: game_inv_def frame_inv_def)
  obtain p' where p': "sprites eng' player_label = Some p'"
    and tp: "translation p' = (fst (translation p) + fst (displacement inp),
                              snd (translation p) + snd (displacement inp))"
    using frame_step_player [OF assms(2) p] by blast
  have pos: "translation (the (sprites eng5 player_label)) =
      (fst (translation (the (sprites eng player_label))) + fst (displacement inp),
       snd (translation (the (sprites eng player_label))) + snd (displacement inp))"
    using p p' tp f6 by simp
  show ?thesis
    using sp d e1 in3 f6 sc dd pos
    by (auto simp add: abs_game_def abs_frame_def Let_def)
qed

text \<open>
  C6: every frame that completes from a reachable state is simulated by one step of the
  abstract game: the scores follow the score tracker, one point per scoring event and the
  reset when R is held; the live cars lose the cars the scoring events name and gain a car
  labelled \<open>ferris<n>\<close> on a click and one labelled \<open>Ferris<n>\<close> when the timer
  completes, numbered by the spawn counter; the counter counts the spawns; the timer
  advances by the frame time; the player moves by the frame's displacement.
\<close>

theorem frame_refines_abs_frame:
  assumes "reachable eng gs" and "frame_step inp eng gs = Inr (eng', gs')"
  shows "abs_game eng' gs' = abs_frame inp (abs_game eng gs)"
  using frame_step_abs [OF assms] .

theorem frame_refines_abs_frame_witness:
  "\<exists>eng' gs'. frame_step (idle_input\<lparr>in_mouse_just_pressed := {MouseLeft}, in_mouse_location := Some (10, 20)\<rparr>)
        initial_engine default_game_state = Inr (eng', gs')
     \<and> live (abs_game eng' gs') = {''ferris0''} \<and> spawned (abs_game eng' gs') = 1
     \<and> abs_scores (abs_game eng' gs') = \<lparr>cur = 0, hi = 0\<rparr>"
proof -
  let ?i = "idle_input\<lparr>in_mouse_just_pressed := {MouseLeft}, in_mouse_location := Some (10, 20)\<rparr>"
  have ok: "input_ok ?i" by (simp add: idle_input_def input_ok_def)
  obtain eng' gs' where f: "frame_step ?i initial_engine default_game_state = Inr (eng', gs')"
    using frame_step_ok [OF game_inv_init ok] by (auto simp: idle_input_def default_game_state_def)
  have "abs_game eng' gs' = abs_frame ?i (abs_game initial_engine default_game_state)"
    using frame_refines_abs_frame [OF reachable.init f] .
  moreover have "\<not> just_finished (tick 16000000 (spawn_timer default_game_state))"
    by (simp add: default_game_state_def from_seconds_def tick_def just_finished_def)
  moreover have "char_of (48 :: nat) = CHR ''0''" by code_simp
  ultimately show ?thesis using f
    by (simp add: abs_frame_def abs_game_def idle_input_def Let_def abs_score_def default_game_state_def
        dec_string.simps)
qed

lemma frame_step_spawns:
  assumes "frame_step inp eng gs = Inr (eng', gs')"
  shows "unat (ferris_index gs') = unat (ferris_index gs) + (if is_click inp then 1 else 0)
           + (if just_finished (tick (in_delta inp) (spawn_timer gs)) then 1 else 0)
     \<and> spawn_timer gs' = tick (in_delta inp) (spawn_timer gs)"
proof -
  let ?e0 = "check_quit (begin_frame inp eng)"
  from assms [unfolded frame_step_def] obtain eng1 eng2 gs2 eng3 eng4 gs4 eng5 gs5 where
    s1: "layout_texts ?e0 = Inr eng1" and
    s2: "drain_collisions eng1 gs = Inr (eng2, gs2)" and
    s3: "move_player eng2 = Inr eng3" and
    s4: "click_spawn eng3 gs2 = Inr (eng4, gs4)" and
    s5: "timer_spawn (in_random inp) eng4 gs4 = Inr (eng5, gs5)" and
    s6: "reset_score eng5 gs5 = Inr (eng', gs')"
    by (rule game_logic_InrE)
  have g2: "ferris_index gs2 = ferris_index gs" "spawn_timer gs2 = spawn_timer gs"
    using drain_events_Inr_D [of "collision_events eng1" "eng1\<lparr>collision_events := []\<rparr>" gs eng2 gs2] s2
    by (auto simp: drain_collisions_def)
  have "io_fields eng3 = io_fields ?e0"
    using stages_io_fields(1) [OF s1] stages_io_fields(2) [OF s2] stages_io_fields(3) [OF s3] by simp
  then have in3: "mouse_just_pressed eng3 = in_mouse_just_pressed inp"
      "mouse_location eng3 = in_mouse_location inp" "delta eng3 = in_delta inp"
    by (simp_all add: io_fields_def check_quit_def Let_def begin_frame_def)
  have g6: "ferris_index gs' = ferris_index gs5" "spawn_timer gs' = spawn_timer gs5"
    using reset_score_Inr_D [OF s6] by auto
  show ?thesis
    using spawn_stages_abs [OF s4 s5] g2 in3 g6 by (simp add: is_click_def)
qed

lemma tick_zero:
  assumes "timer_wf t"
  shows "elapsed (tick 0 t) = elapsed t \<and> \<not> just_finished (tick 0 t)"
proof -
  have sm: "small_tick t 0" using assms by (auto simp: timer_wf_def small_tick_def)
  show ?thesis
    using tick_wf_step(1) [OF assms sm] tick_just_finished_iff [OF assms sm] assms
    by (simp add: timer_wf_def)
qed

text \<open>
  C26: a frame of zero length (the boundary of the host's frame times) neither moves the
  player, whatever keys are held, nor lets the timer spawn a car or advance; only a
  click can spawn.
\<close>

theorem zero_length_frame:
  assumes "reachable eng gs" and "frame_step inp eng gs = Inr (eng', gs')" and "in_delta inp = 0"
  shows "player_pos (abs_game eng' gs') = player_pos (abs_game eng gs)
     \<and> unat (ferris_index gs') = unat (ferris_index gs) + (if is_click inp then 1 else 0)
     \<and> elapsed (spawn_timer gs') = elapsed (spawn_timer gs)"
proof -
  have wf: "timer_wf (spawn_timer gs)"
    using reachable_game_inv_lemma [OF assms(1)] by (simp add: game_inv_def frame_inv_def)
  have "abs_game eng' gs' = abs_frame inp (abs_game eng gs)" using frame_step_abs [OF assms(1,2)] .
  then show ?thesis
    using tick_zero [OF wf] assms(3)
    by (simp add: abs_game_def abs_frame_def displacement_def is_click_def Let_def)
qed

theorem zero_length_frame_witness:
  "\<exists>eng' gs'. frame_step (idle_input\<lparr>in_delta := 0, in_keys_pressed := {KeyUp, KeyRight}\<rparr>)
        initial_engine default_game_state = Inr (eng', gs')
     \<and> player_pos (abs_game eng' gs') = player_pos (abs_game initial_engine default_game_state)
     \<and> unat (ferris_index gs') = 0"
proof -
  let ?i = "idle_input\<lparr>in_delta := 0, in_keys_pressed := {KeyUp, KeyRight}\<rparr>"
  have ok: "input_ok ?i" by (simp add: idle_input_def input_ok_def)
  obtain eng' gs' where f: "frame_step ?i initial_engine default_game_state = Inr (eng', gs')"
    using frame_step_ok [OF game_inv_init ok] by (auto simp: idle_input_def default_game_state_def)
  with zero_length_frame [OF reachable.init f] show ?thesis
    by (simp add: idle_input_def is_click_def default_game_state_def)
qed

text \<open>
  C7: every run of the session from a reachable state that has not quit, with
  host-produced inputs, is simulated by the abstract run: the abstract game after the
  run is the one obtained by stepping \<open>abs_frame\<close> through the inputs up to and
  including the frame in which Q is pressed, and no further.
\<close>

theorem run_refines_abs_run:
  assumes "reachable eng gs" and "\<not> should_exit eng" and "list_all input_ok inps"
    and "run_game inps eng gs = Inr (eng', gs')"
  shows "abs_game eng' gs' = abs_run inps (abs_game eng gs)"
  using assms
proof (induction inps arbitrary: eng gs)
  case Nil
  then show ?case by simp
next
  case (Cons inp inps)
  from Cons.prems(2,4) obtain eng1 gs1 where f: "frame_step inp eng gs = Inr (eng1, gs1)"
    and r: "run_game inps eng1 gs1 = Inr (eng', gs')"
    by (auto simp: bindr_eq_Inr_iff)
  have a1: "abs_game eng1 gs1 = abs_frame inp (abs_game eng gs)"
    using frame_step_abs [OF Cons.prems(1) f] .
  have q: "should_exit eng1 \<longleftrightarrow> KeyQ \<in> in_keys_just_pressed inp"
    using frame_step_should_exit [OF f] Cons.prems(2) by simp
  show ?case
  proof (cases "KeyQ \<in> in_keys_just_pressed inp")
    case True
    with q r a1 show ?thesis by simp
  next
    case False
    have "reachable eng1 gs1"
      using reachable.step [OF Cons.prems(1,2) _ f] Cons.prems(3) by simp
    with Cons.IH [OF _ _ _ r] False q a1 Cons.prems(3) show ?thesis by simp
  qed
qed

theorem run_refines_abs_run_witness:
  "\<exists>eng' gs'. run_game [idle_input\<lparr>in_keys_just_pressed := {KeyQ}\<rparr>,
        idle_input\<lparr>in_mouse_just_pressed := {MouseLeft}, in_mouse_location := Some (0, 0)\<rparr>]
        initial_engine default_game_state = Inr (eng', gs')
     \<and> spawned (abs_game eng' gs') = 0 \<and> live (abs_game eng' gs') = {}"
proof -
  let ?q = "idle_input\<lparr>in_keys_just_pressed := {KeyQ}\<rparr>"
  let ?c = "idle_input\<lparr>in_mouse_just_pressed := {MouseLeft}, in_mouse_location := Some (0, 0)\<rparr>"
  have ok: "input_ok ?q" "input_ok ?c" by (simp_all add: idle_input_def input_ok_def)
  obtain eng' gs' where f: "frame_step ?q initial_engine default_game_state = Inr (eng', gs')"
    using frame_step_ok [OF game_inv_init ok(1)] by (auto simp: idle_input_def default_game_state_def)
  have "should_exit eng'" using frame_step_should_exit [OF f] by simp
  with f have r: "run_game [?q, ?c] initial_engine default_game_state = Inr (eng', gs')" by simp
  have "abs_game eng' gs' = abs_run [?q, ?c] (abs_game initial_engine default_game_state)"
    using run_refines_abs_run [OF reachable.init _ _ r] ok by simp
  moreover have "\<not> just_finished (tick 16000000 (spawn_timer default_game_state))"
    by (simp add: default_game_state_def from_seconds_def tick_def just_finished_def)
  ultimately have "spawned (abs_game eng' gs') = 0 \<and> live (abs_game eng' gs') = {}"
    by (simp add: abs_frame_def abs_game_def idle_input_def Let_def default_game_state_def)
  with r show ?thesis by blast
qed

end
