(* ===== verification/Runs.thy ===== *)
theory Runs
  imports Simulation
begin

text \<open>
  Runs of the session loop \<open>run_game\<close> (lines 38 and 39 of \<open>main\<close>: the engine
  calls \<open>game_logic\<close> once per frame until the exit flag is set). A run from a
  reachable state returns as long as its counters cannot overflow; the spawn counter
  grows by the run's clicks plus the completions the spawn timer signals, so it is
  bounded by the run's time, and over any stretch of frames long enough for the timer
  to complete, the timer does spawn a car.
\<close>

lemma run_game_spawns:
  "run_game inps eng gs = Inr (eng', gs') \<Longrightarrow>
   unat (ferris_index gs') \<le> unat (ferris_index gs) + length (filter is_click inps)
     + signals (spawn_timer gs) (map in_delta inps)"
proof (induction inps arbitrary: eng gs)
  case Nil
  then show ?case by simp
next
  case (Cons inp inps)
  show ?case
  proof (cases "should_exit eng")
    case True
    with Cons.prems show ?thesis by simp
  next
    case False
    with Cons.prems obtain eng1 gs1 where f: "frame_step inp eng gs = Inr (eng1, gs1)"
      and r: "run_game inps eng1 gs1 = Inr (eng', gs')"
      by (auto simp: bindr_eq_Inr_iff)
    show ?thesis using Cons.IH [OF r] frame_step_spawns [OF f] by (simp split: if_splits)
  qed
qed

lemma frame_step_current_le:
  assumes "reachable eng gs" and "frame_step inp eng gs = Inr (eng', gs')"
  shows "unat (current_score gs') \<le> unat (current_score gs) + length (filter is_scoring (in_collisions inp))"
proof -
  have le: "cur (abs_score gs) \<le> hi (abs_score gs)"
    using reachable_game_inv_lemma [OF assms(1)]
    by (simp add: game_inv_def frame_inv_def abs_score_def word_le_nat_alt)
  have "abs_score gs' = (if KeyR \<in> in_keys_pressed inp
        then reset_current ((register_point ^^ length (filter is_scoring (in_collisions inp))) (abs_score gs))
        else (register_point ^^ length (filter is_scoring (in_collisions inp))) (abs_score gs))"
    using frame_step_abs [OF assms] by (simp add: abs_game_def abs_frame_def Let_def)
  then show ?thesis
    using funpow_register_point [OF le] by (simp add: abs_score_def reset_current_def split: if_splits)
qed

lemma run_game_ok:
  assumes "reachable eng gs" and "list_all input_ok inps"
    and "unat (current_score gs) + length (filter is_scoring (concat (map in_collisions inps))) < 2 ^ 32"
    and "unat (ferris_index gs) + 2 * length inps < 2 ^ 32"
  shows "\<exists>eng' gs'. run_game inps eng gs = Inr (eng', gs')"
  using assms
proof (induction inps arbitrary: eng gs)
  case Nil
  then show ?case by simp
next
  case (Cons inp inps)
  show ?case
  proof (cases "should_exit eng")
    case True
    then show ?thesis by simp
  next
    case False
    have gi: "game_inv eng gs" using reachable_game_inv_lemma [OF Cons.prems(1)] .
    obtain eng1 gs1 where f: "frame_step inp eng gs = Inr (eng1, gs1)"
      using frame_step_ok [OF gi] Cons.prems(2-4) by fastforce
    have r1: "reachable eng1 gs1"
      using reachable.step [OF Cons.prems(1) False _ f] Cons.prems(2) by simp
    have "unat (current_score gs1) + length (filter is_scoring (concat (map in_collisions inps))) < 2 ^ 32"
      using frame_step_current_le [OF Cons.prems(1) f] Cons.prems(3) by simp
    moreover have "unat (ferris_index gs1) + 2 * length inps < 2 ^ 32"
      using frame_step_ferris_index [OF f] Cons.prems(4) by simp
    ultimately obtain eng' gs' where "run_game inps eng1 gs1 = Inr (eng', gs')"
      using Cons.IH [OF r1] Cons.prems(2) by auto
    with f False show ?thesis by simp
  qed
qed

text \<open>
  C15: every run of the session loop from a reachable state, on host-produced inputs of
  any length, returns a final state, as long as the run's scoring events and spawns
  cannot take a counter past \<open>u32::MAX\<close>: the loop terminates and no frame panics.
\<close>

theorem run_game_completes:
  assumes "reachable eng gs" and "list_all input_ok inps"
    and "unat (current_score gs) + length (filter is_scoring (concat (map in_collisions inps))) < 2 ^ 32"
    and "unat (ferris_index gs) + 2 * length inps < 2 ^ 32"
  shows "\<exists>eng' gs'. run_game inps eng gs = Inr (eng', gs')"
  using run_game_ok [OF assms] .

theorem run_game_completes_witness:
  "\<exists>eng' gs'. run_game (replicate 3 (idle_input\<lparr>in_keys_pressed := {KeyR}\<rparr>))
      initial_engine default_game_state = Inr (eng', gs')"
proof -
  have a: "list_all input_ok (replicate 3 (idle_input\<lparr>in_keys_pressed := {KeyR}\<rparr>))"
    by (simp add: list_all_iff idle_input_def input_ok_def)
  show ?thesis
    using run_game_completes [OF reachable.init a]
    by (simp add: idle_input_def default_game_state_def)
qed

lemma run_game_spawns_eq:
  "run_game inps eng gs = Inr (eng', gs') \<Longrightarrow> \<not> should_exit eng \<Longrightarrow>
   list_all (\<lambda>i. KeyQ \<notin> in_keys_just_pressed i) inps \<Longrightarrow>
   unat (ferris_index gs') = unat (ferris_index gs) + length (filter is_click inps)
     + signals (spawn_timer gs) (map in_delta inps)"
proof (induction inps arbitrary: eng gs)
  case Nil
  then show ?case by simp
next
  case (Cons inp inps)
  from Cons.prems(1,2) obtain eng1 gs1 where f: "frame_step inp eng gs = Inr (eng1, gs1)"
    and r: "run_game inps eng1 gs1 = Inr (eng', gs')"
    by (auto simp: bindr_eq_Inr_iff)
  have "\<not> should_exit eng1" using frame_step_should_exit [OF f] Cons.prems(2,3) by simp
  then show ?case
    using Cons.IH [OF r] Cons.prems(3) frame_step_spawns [OF f] by (simp split: if_splits)
qed

text \<open>
  C23: over any run of the session from a reachable state, the spawn counter grows by
  at most the number of frames with a fresh click plus the number of whole two-second
  periods in the timer's elapsed time and the run's total frame time: the timer spawns
  at most one car per completed period.
\<close>

theorem run_game_spawn_bound:
  assumes "reachable eng gs" and "list_all input_ok inps"
    and "run_game inps eng gs = Inr (eng', gs')"
  shows "unat (ferris_index gs') \<le> unat (ferris_index gs) + length (filter is_click inps)
           + (elapsed (spawn_timer gs) + sum_list (map in_delta inps)) div 2000000000"
proof -
  have fi: "timer_wf (spawn_timer gs)" "duration (spawn_timer gs) = 2000000000"
    using reachable_game_inv_lemma [OF assms(1)] by (simp_all add: game_inv_def frame_inv_def)
  have "\<forall>d \<in> set (map in_delta inps). d < duration (spawn_timer gs) * (2 ^ 32 - 1)"
    using assms(2) fi(2) by (auto simp: list_all_iff input_ok_def)
  then have "completions (spawn_timer gs) (map in_delta inps)
      = (elapsed (spawn_timer gs) + sum_list (map in_delta inps)) div 2000000000"
    using ticks_no_drift [OF fi(1)] fi(2) by simp
  then show ?thesis
    using run_game_spawns [OF assms(3)] signals_le_completions [of "spawn_timer gs" "map in_delta inps"]
    by linarith
qed

theorem run_game_spawn_bound_witness:
  "\<exists>eng' gs'. run_game [idle_input\<lparr>in_mouse_just_pressed := {MouseLeft}, in_mouse_location := Some (0, 0)\<rparr>]
        initial_engine default_game_state = Inr (eng', gs')
     \<and> unat (ferris_index gs') \<le> 1"
proof -
  let ?i = "idle_input\<lparr>in_mouse_just_pressed := {MouseLeft}, in_mouse_location := Some (0, 0)\<rparr>"
  have ok: "input_ok ?i" by (simp add: idle_input_def input_ok_def)
  obtain eng' gs' where f: "frame_step ?i initial_engine default_game_state = Inr (eng', gs')"
    using frame_step_ok [OF game_inv_init ok] by (auto simp: idle_input_def default_game_state_def)
  then have r: "run_game [?i] initial_engine default_game_state = Inr (eng', gs')" by simp
  have "unat (ferris_index gs') \<le> 1"
    using run_game_spawn_bound [OF reachable.init _ r] ok
    by (simp add: is_click_def idle_input_def default_game_state_def from_seconds_def)
  with r show ?thesis by blast
qed

text \<open>
  C24: the spawn timer does fire: from a reachable state that has not quit, a run of
  frames without Q whose frame times reach the timer's remaining time, and whose
  counters cannot overflow, returns, and the spawn counter ends above its start plus
  the run's clicks, that is, the timer spawned at least one car.
\<close>

theorem timer_spawns_eventually:
  assumes "reachable eng gs" and "\<not> should_exit eng" and "list_all input_ok inps"
    and "list_all (\<lambda>i. KeyQ \<notin> in_keys_just_pressed i) inps"
    and "2000000000 \<le> elapsed (spawn_timer gs) + sum_list (map in_delta inps)"
    and "unat (current_score gs) + length (filter is_scoring (concat (map in_collisions inps))) < 2 ^ 32"
    and "unat (ferris_index gs) + 2 * length inps < 2 ^ 32"
  shows "\<exists>eng' gs'. run_game inps eng gs = Inr (eng', gs')
           \<and> unat (ferris_index gs) + length (filter is_click inps) < unat (ferris_index gs')"
proof -
  obtain eng' gs' where r: "run_game inps eng gs = Inr (eng', gs')"
    using run_game_ok [OF assms(1,3,6,7)] by blast
  have fi: "timer_wf (spawn_timer gs)" "duration (spawn_timer gs) = 2000000000"
    using reachable_game_inv_lemma [OF assms(1)] by (simp_all add: game_inv_def frame_inv_def)
  have "\<forall>d \<in> set (map in_delta inps). d < duration (spawn_timer gs) * (2 ^ 32 - 1)"
    using assms(3) fi(2) by (auto simp: list_all_iff input_ok_def)
  then have "0 < signals (spawn_timer gs) (map in_delta inps)"
    using signals_pos [OF fi(1)] assms(5) fi(2) by simp
  then show ?thesis
    using r run_game_spawns_eq [OF r assms(2,4)] by auto
qed

theorem timer_spawns_eventually_witness:
  "\<exists>eng' gs'. run_game (replicate 125 idle_input) initial_engine default_game_state = Inr (eng', gs')
     \<and> 0 < unat (ferris_index gs')"
proof -
  let ?r = "replicate 125 idle_input"
  have a: "list_all input_ok ?r" by (simp add: list_all_iff idle_input_ok)
  have b: "list_all (\<lambda>i. KeyQ \<notin> in_keys_just_pressed i) ?r"
    by (simp add: list_all_iff idle_input_def)
  have c: "2000000000 \<le> elapsed (spawn_timer default_game_state) + sum_list (map in_delta ?r)"
    by (simp add: idle_input_def sum_list_replicate)
  have d: "unat (current_score default_game_state)
      + length (filter is_scoring (concat (map in_collisions ?r))) < 2 ^ 32"
    by (simp add: idle_input_def default_game_state_def)
  have e: "unat (ferris_index default_game_state) + 2 * length ?r < 2 ^ 32"
    by (simp add: default_game_state_def)
  have q: "\<not> should_exit initial_engine" by simp
  from timer_spawns_eventually [OF reachable.init q a b c d e] obtain eng' gs' where
    "run_game ?r initial_engine default_game_state = Inr (eng', gs')"
    and "unat (ferris_index default_game_state) + length (filter is_click ?r) < unat (ferris_index gs')"
    by blast
  then show ?thesis by auto
qed

end
