(* ===== verification/Overflow.thy ===== *)
theory Overflow
  imports Runs
begin

text \<open>
  The counters at their width. \<open>current_score\<close> and \<open>ferris_index\<close> are \<open>u32\<close>
  and \<open>+= 1\<close> panics on overflow in a debug build (\<open>inc_u32\<close>). This theory
  states exactly when a frame panics: when the frame's scoring events would take the
  current score past \<open>u32::MAX\<close>, or its spawns would take the spawn counter past it.
  A release build compiles the same \<open>+= 1\<close> without the check, as a wrapping
  addition; \<open>score_point_release\<close> is the scoring block of lines 68 to 80 in that
  build, and it agrees with the debug build except at \<open>u32::MAX\<close>, where the
  point wraps the current score to 0 and leaves the high score alone.
  \<open>click_spawn_release\<close> is the click spawn of lines 116 to 125 in that build: at
  \<open>u32::MAX\<close> the counter wraps to 0, so the labels start over and the next click
  replaces the car \<open>ferris0\<close> if it is still on the field. \<open>timer_spawn_release\<close>
  is the timer spawn of lines 127 to 134 in that build.
\<close>

definition score_point_release :: "engine \<Rightarrow> game_state \<Rightarrow> (engine \<times> game_state) result" where
  "score_point_release eng gs =
     (let c = current_score gs + 1 in
     bindr (update_text ''score'' (\<lambda>t. t\<lparr>txt_value := score_string c\<rparr>) eng) (\<lambda>eng1.
     bindr (if high_score gs < c
            then bindr (update_text ''high_score'' (\<lambda>t. t\<lparr>txt_value := high_score_string c\<rparr>) eng1)
                   (\<lambda>eng2. Inr (eng2, gs\<lparr>current_score := c, high_score := c\<rparr>))
            else Inr (eng1, gs\<lparr>current_score := c\<rparr>))
     (\<lambda>(eng3, gs3). Inr (play_sfx Minimize1 0.3 eng3, gs3))))"

definition click_spawn_release :: "engine \<Rightarrow> game_state \<Rightarrow> (engine \<times> game_state) result" where
  "click_spawn_release eng gs =
     (if MouseLeft \<in> mouse_just_pressed eng then
        (case mouse_location eng of
           None \<Rightarrow> Inr (eng, gs)
         | Some loc \<Rightarrow>
             (let l = click_label (ferris_index gs)
              in Inr (add_sprite l RacingCarYellow
                        (\<lambda>s. s\<lparr>translation := loc, rotation := SOUTH_EAST, collision := True\<rparr>) eng,
                      gs\<lparr>ferris_index := ferris_index gs + 1\<rparr>)))
      else Inr (eng, gs))"

definition timer_spawn_release :: "vec2 \<Rightarrow> engine \<Rightarrow> game_state \<Rightarrow> (engine \<times> game_state) result" where
  "timer_spawn_release rnd eng gs =
     (let t = tick (delta eng) (spawn_timer gs); gs1 = gs\<lparr>spawn_timer := t\<rparr>
      in if just_finished t then
           (let l = timer_label (ferris_index gs1)
            in Inr (add_sprite l RacingCarYellow
                      (\<lambda>s. s\<lparr>translation := rnd, collision := True\<rparr>) eng,
                    gs1\<lparr>ferris_index := ferris_index gs1 + 1\<rparr>))
         else Inr (eng, gs1))"

lemma frame_step_Inr_bounds:
  assumes "reachable eng gs" and "frame_step inp eng gs = Inr (eng', gs')"
  shows "unat (current_score gs) + length (filter is_scoring (in_collisions inp)) < 2 ^ 32
     \<and> unat (ferris_index gs) + (if is_click inp then 1 else 0)
         + (if just_finished (tick (in_delta inp) (spawn_timer gs)) then 1 else 0) < 2 ^ 32"
proof -
  have ev: "collision_events eng = []"
    using reachable_game_inv_lemma [OF assms(1)] by (simp add: game_inv_def)
  let ?e0 = "check_quit (begin_frame inp eng)"
  from assms(2) [unfolded frame_step_def] obtain eng1 eng2 gs2 eng3 eng4 gs4 eng5 gs5 where
    s1: "layout_texts ?e0 = Inr eng1" and
    s2: "drain_collisions eng1 gs = Inr (eng2, gs2)" and
    s3: "move_player eng2 = Inr eng3" and
    s4: "click_spawn eng3 gs2 = Inr (eng4, gs4)" and
    s5: "timer_spawn (in_random inp) eng4 gs4 = Inr (eng5, gs5)" and
    s6: "reset_score eng5 gs5 = Inr (eng', gs')"
    by (rule game_logic_InrE)
  have "collision_events eng1 = in_collisions inp"
    using layout_texts_frame_inv [OF s1, of gs] ev by simp
  then have "unat (current_score gs2) = unat (current_score gs) + length (filter is_scoring (in_collisions inp))"
    using drain_events_Inr_D [of "collision_events eng1" "eng1\<lparr>collision_events := []\<rparr>" gs eng2 gs2] s2
    by (auto simp: drain_collisions_def)
  then have "unat (current_score gs) + length (filter is_scoring (in_collisions inp)) < 2 ^ 32"
    using unat_u32_less [of "current_score gs2"] by simp
  moreover have "unat (ferris_index gs) + (if is_click inp then 1 else 0)
         + (if just_finished (tick (in_delta inp) (spawn_timer gs)) then 1 else 0) < 2 ^ 32"
    using frame_step_spawns [OF assms(2)] unat_u32_less [of "ferris_index gs'"] by simp
  ultimately show ?thesis by blast
qed

text \<open>
  C8: from a reachable state, with host-produced input, a frame panics with
  \<open>AddOverflow\<close> exactly when its scoring events would take the current score past
  \<open>u32::MAX\<close> or its spawns (a click and a timer completion, one each at most)
  would take the spawn counter past it; otherwise it returns.
\<close>

theorem frame_overflow_boundary:
  assumes "reachable eng gs" and "input_ok inp"
  shows "frame_step inp eng gs = Inl AddOverflow \<longleftrightarrow>
           2 ^ 32 \<le> unat (current_score gs) + length (filter is_scoring (in_collisions inp))
         \<or> 2 ^ 32 \<le> unat (ferris_index gs) + (if is_click inp then 1 else 0)
                     + (if just_finished (tick (in_delta inp) (spawn_timer gs)) then 1 else 0)"
proof
  assume l: "frame_step inp eng gs = Inl AddOverflow"
  have gi: "game_inv eng gs" using reachable_game_inv_lemma [OF assms(1)] .
  show "2 ^ 32 \<le> unat (current_score gs) + length (filter is_scoring (in_collisions inp))
         \<or> 2 ^ 32 \<le> unat (ferris_index gs) + (if is_click inp then 1 else 0)
                     + (if just_finished (tick (in_delta inp) (spawn_timer gs)) then 1 else 0)"
  proof (rule ccontr)
    assume "\<not> ?thesis"
    then have "unat (current_score gs) + length (filter is_scoring (in_collisions inp)) < 2 ^ 32"
      and "unat (ferris_index gs)
      + (if MouseLeft \<in> in_mouse_just_pressed inp \<and> in_mouse_location inp \<noteq> None then 1 else 0)
      + (if just_finished (tick (in_delta inp) (spawn_timer gs)) then 1 else 0) < 2 ^ 32"
      by (simp_all add: is_click_def not_le)
    from frame_step_ok_exact [OF gi assms(2) this] l show False by auto
  qed
next
  assume b: "2 ^ 32 \<le> unat (current_score gs) + length (filter is_scoring (in_collisions inp))
         \<or> 2 ^ 32 \<le> unat (ferris_index gs) + (if is_click inp then 1 else 0)
                     + (if just_finished (tick (in_delta inp) (spawn_timer gs)) then 1 else 0)"
  show "frame_step inp eng gs = Inl AddOverflow"
  proof (cases "frame_step inp eng gs")
    case (Inl e)
    with frame_step_Inl [OF reachable_game_inv_lemma [OF assms(1)] assms(2)] show ?thesis by simp
  next
    case (Inr r)
    then show ?thesis using frame_step_Inr_bounds [OF assms(1), of inp] b by (cases r) auto
  qed
qed

theorem frame_overflow_boundary_witness:
  "frame_step (idle_input\<lparr>in_collisions := [\<lparr>ev_state = Begin, ev_pair = (player_label, ''ferris0'')\<rparr>]\<rparr>)
     initial_engine default_game_state \<noteq> Inl AddOverflow"
proof -
  let ?i = "idle_input\<lparr>in_collisions := [\<lparr>ev_state = Begin, ev_pair = (player_label, ''ferris0'')\<rparr>]\<rparr>"
  have ok: "input_ok ?i" by (simp add: idle_input_def input_ok_def)
  have "\<not> just_finished (tick 16000000 (spawn_timer default_game_state))"
    by (simp add: default_game_state_def from_seconds_def tick_def just_finished_def)
  then show ?thesis
    using frame_overflow_boundary [OF reachable.init ok]
    by (simp add: idle_input_def is_click_def default_game_state_def)
qed

lemma u32_max_succ: "\<not> unat (w :: u32) < 2 ^ 32 - 1 \<Longrightarrow> w + 1 = 0"
proof -
  assume "\<not> unat w < 2 ^ 32 - 1"
  then have "unat w = 2 ^ 32 - 1" using unat_u32_less [of w] by simp
  then have "unat (w + 1) = 0" by (simp add: unat_word_ariths)
  then show "w + 1 = 0" by (simp add: unat_eq_zero)
qed

text \<open>
  C9: the release build of the scoring block agrees with the debug build as long as the
  current score is below \<open>u32::MAX\<close>; at \<open>u32::MAX\<close>, where the debug build
  panics, the release build wraps the current score to 0, shows \<open>"Score 0"\<close>, plays
  the sound and leaves the high score as it was: the point is lost.
\<close>

theorem score_point_release_eq:
  "score_point_release eng gs =
     (if unat (current_score gs) < 2 ^ 32 - 1 then score_point eng gs
      else bindr (update_text ''score'' (\<lambda>t. t\<lparr>txt_value := ''Score 0''\<rparr>) eng)
             (\<lambda>eng1. Inr (play_sfx Minimize1 0.3 eng1, gs\<lparr>current_score := 0\<rparr>)))"
proof (cases "unat (current_score gs) < 2 ^ 32 - 1")
  case True
  then show ?thesis
    by (simp add: score_point_release_def score_point_def inc_u32_ok Let_def)
next
  case False
  then have "current_score gs + 1 = 0" by (rule u32_max_succ)
  with False show ?thesis
    by (cases "texts eng ''score''")
      (simp_all add: score_point_release_def Let_def update_text_def score_string_zero)
qed

text \<open>
  C10: in a release build the spawn counter wraps: a click with the counter at
  \<open>u32::MAX\<close> sets it to 0, and the click after that mints \<open>ferris0\<close> again, which
  silently replaces the car of that label with a new one at the cursor; the debug build
  panics at the first of the two clicks instead.
\<close>

theorem release_click_label_reuse:
  assumes "ferris_index gs = - 1" and "MouseLeft \<in> mouse_just_pressed eng"
    and "mouse_location eng = Some p"
  shows "click_spawn eng gs = Inl AddOverflow
     \<and> (\<exists>eng1 gs1. click_spawn_release eng gs = Inr (eng1, gs1) \<and> ferris_index gs1 = 0
          \<and> click_spawn_release eng1 gs1 =
               Inr (eng1\<lparr>sprites := (sprites eng1)(click_label 0 \<mapsto>
                      \<lparr>label = click_label 0, preset = RacingCarYellow, translation = p,
                       rotation = SOUTH_EAST, collision = True\<rparr>)\<rparr>, gs1\<lparr>ferris_index := 1\<rparr>))"
proof -
  have "\<not> unat (ferris_index gs) < 2 ^ 32 - 1"
    using assms(1) by (simp add: unsigned_minus_1_eq_mask mask_eq_exp_minus_1)
  then have "click_spawn eng gs = Inl AddOverflow"
    using assms(2,3) by (simp add: click_spawn_def Let_def inc_u32_def)
  moreover have "ferris_index gs + 1 = 0" using assms(1) by simp
  ultimately show ?thesis
    using assms(2,3) by (simp add: click_spawn_release_def Let_def add_sprite_def new_sprite_def)
qed

theorem release_click_label_reuse_witness:
  "click_spawn (initial_engine\<lparr>mouse_just_pressed := {MouseLeft}, mouse_location := Some (3, 4)\<rparr>)
      (default_game_state\<lparr>ferris_index := - 1\<rparr>) = Inl AddOverflow
   \<and> (\<exists>eng1 gs1. click_spawn_release (initial_engine\<lparr>mouse_just_pressed := {MouseLeft},
        mouse_location := Some (3, 4)\<rparr>) (default_game_state\<lparr>ferris_index := - 1\<rparr>) = Inr (eng1, gs1)
        \<and> ferris_index gs1 = 0
        \<and> click_spawn_release eng1 gs1 =
             Inr (eng1\<lparr>sprites := (sprites eng1)(click_label 0 \<mapsto>
                    \<lparr>label = click_label 0, preset = RacingCarYellow, translation = (3, 4),
                     rotation = SOUTH_EAST, collision = True\<rparr>)\<rparr>, gs1\<lparr>ferris_index := 1\<rparr>))"
  using release_click_label_reuse [of "default_game_state\<lparr>ferris_index := - 1\<rparr>"
      "initial_engine\<lparr>mouse_just_pressed := {MouseLeft}, mouse_location := Some (3, 4)\<rparr>" "(3, 4)"]
  by simp

lemma timer_spawn_at_max:
  assumes "ferris_index gs = - 1" and "just_finished (tick (delta eng) (spawn_timer gs))"
  shows "timer_spawn rnd eng gs = Inl AddOverflow
     \<and> timer_spawn_release rnd eng gs =
          Inr (add_sprite (timer_label (- 1)) RacingCarYellow (\<lambda>s. s\<lparr>translation := rnd, collision := True\<rparr>) eng,
               gs\<lparr>spawn_timer := tick (delta eng) (spawn_timer gs), ferris_index := 0\<rparr>)"
proof -
  have "\<not> unat (ferris_index gs) < 2 ^ 32 - 1"
    using assms(1) by (simp add: unsigned_minus_1_eq_mask mask_eq_exp_minus_1)
  then show ?thesis
    using assms by (simp add: timer_spawn_def timer_spawn_release_def Let_def inc_u32_def)
qed

text \<open>
  C11: the release build of the timer spawn agrees with the debug build while the spawn
  counter is below \<open>u32::MAX\<close>; at \<open>u32::MAX\<close> a timer completion panics in the
  debug build, while the release build spawns the car under the last label and wraps
  the counter to 0.
\<close>

theorem timer_spawn_release_eq:
  "(unat (ferris_index gs) < 2 ^ 32 - 1 \<or> \<not> just_finished (tick (delta eng) (spawn_timer gs)) \<longrightarrow>
      timer_spawn_release rnd eng gs = timer_spawn rnd eng gs)
   \<and> (ferris_index gs = - 1 \<and> just_finished (tick (delta eng) (spawn_timer gs)) \<longrightarrow>
      timer_spawn rnd eng gs = Inl AddOverflow
      \<and> timer_spawn_release rnd eng gs =
          Inr (add_sprite (timer_label (- 1)) RacingCarYellow (\<lambda>s. s\<lparr>translation := rnd, collision := True\<rparr>) eng,
               gs\<lparr>spawn_timer := tick (delta eng) (spawn_timer gs), ferris_index := 0\<rparr>))"
  using timer_spawn_at_max [of gs eng rnd]
  by (auto simp: timer_spawn_release_def timer_spawn_def Let_def inc_u32_ok)

theorem timer_spawn_release_eq_witness:
  "timer_spawn_release (5, 5) (initial_engine\<lparr>delta := 16000000\<rparr>) default_game_state
     = timer_spawn (5, 5) (initial_engine\<lparr>delta := 16000000\<rparr>) default_game_state"
  using timer_spawn_release_eq [of default_game_state "initial_engine\<lparr>delta := 16000000\<rparr>" "(5, 5)"]
  by (simp add: default_game_state_def)

end
