(* ===== verification/Display.thy ===== *)
theory Display
  imports Frame
begin

text \<open>
  The score texts on the screen. \<open>main\<close> creates them as \<open>"Score: 0"\<close> and
  \<open>"High Score: 0"\<close> (lines 29 and 32), the collision resolver rewrites them as
  \<open>"Score {}"\<close> and \<open>"High Score {}"\<close> (lines 72 and 77) and the reset key as
  \<open>"Score 0"\<close> (line 140). \<open>display_ok\<close> says that each text shows its score,
  in the format of \<open>game_logic\<close>, or is still the initial text of \<open>main\<close> while its
  score is 0; it holds in every reachable state, and a reader of the texts gets both
  scores back from the digits after their last space (\<open>score_of_text\<close>). The texts'
  positions (\<open>text_pos\<close>) are those the layout block of lines 48 to 56 sets.
\<close>

definition text_value :: "engine \<Rightarrow> label \<Rightarrow> string option" where
  "text_value eng l = map_option txt_value (texts eng l)"

definition text_pos :: "engine \<Rightarrow> label \<Rightarrow> vec2 option" where
  "text_pos eng l = map_option txt_translation (texts eng l)"

text \<open>How a reader of a score text gets the number back: the digits after its last
  space.\<close>

definition score_of_text :: "string \<Rightarrow> nat" where
  "score_of_text v = parse_dec (rev (takeWhile (\<lambda>c. c \<noteq> CHR '' '') (rev v)))"

definition display_ok :: "engine \<Rightarrow> game_state \<Rightarrow> bool" where
  "display_ok eng gs \<longleftrightarrow>
     (text_value eng ''score'' = Some (score_string (current_score gs))
      \<or> text_value eng ''score'' = Some ''Score: 0'' \<and> current_score gs = 0)
   \<and> (text_value eng ''high_score'' = Some (high_score_string (high_score gs))
      \<or> text_value eng ''high_score'' = Some ''High Score: 0'' \<and> high_score gs = 0)"

lemma display_ok_cong:
  "text_value eng' ''score'' = text_value eng ''score'' \<Longrightarrow>
   text_value eng' ''high_score'' = text_value eng ''high_score'' \<Longrightarrow>
   current_score gs' = current_score gs \<Longrightarrow> high_score gs' = high_score gs \<Longrightarrow>
   display_ok eng' gs' = display_ok eng gs"
  by (simp add: display_ok_def)

lemma text_value_update [simp]:
  "text_value (eng\<lparr>sprites := s\<rparr>) l = text_value eng l"
  "text_value (eng\<lparr>collision_events := evs\<rparr>) l = text_value eng l"
  "text_value (eng\<lparr>sfx_queue := q\<rparr>) l = text_value eng l"
  "text_value (check_quit eng) l = text_value eng l"
  "text_value (begin_frame inp eng) l = text_value eng l"
  by (simp_all add: text_value_def)

lemma layout_texts_values:
  assumes "layout_texts eng = Inr eng'"
  shows "text_value eng' l = text_value eng l"
  using assms
  by (auto simp: layout_texts_def Let_def bindr_eq_Inr_iff update_text_Inr_iff text_value_def)

lemma score_point_values:
  assumes "score_point eng gs = Inr (eng', gs')"
  shows "text_value eng' ''score'' = Some (score_string (current_score gs'))
     \<and> text_value eng' ''high_score'' =
         (if high_score gs < current_score gs' then Some (high_score_string (current_score gs'))
          else text_value eng ''high_score'')"
  using assms unfolding score_point_def
  by (cases "high_score gs < current_score gs + 1")
    (auto simp: bindr_eq_Inr_iff update_text_Inr_iff inc_u32_Inr_iff text_value_def play_sfx_def)

lemma handle_event_display:
  assumes "handle_event ev eng gs = Inr (eng', gs')" and "display_ok eng gs"
  shows "display_ok eng' gs'"
proof (cases "is_scoring ev")
  case True
  with assms(1) have sp: "score_point (remove_pair (ev_pair ev) eng) gs = Inr (eng', gs')"
    by (simp add: handle_event_def)
  note v = score_point_values [OF sp]
  have g: "high_score gs' = max (high_score gs) (current_score gs')"
    using score_point_Inr_D [OF sp] by simp
  show ?thesis
    using v g assms(2) by (auto simp: display_ok_def remove_pair_eq max_def split: if_splits)
next
  case False
  with assms show ?thesis by (simp add: handle_event_def)
qed

lemma drain_events_display:
  "drain_events evs eng gs = Inr (eng', gs') \<Longrightarrow> display_ok eng gs \<Longrightarrow> display_ok eng' gs'"
proof (induction evs arbitrary: eng gs)
  case Nil
  then show ?case by simp
next
  case (Cons ev evs)
  from Cons.prems(1) obtain eng1 gs1 where h: "handle_event ev eng gs = Inr (eng1, gs1)"
    and r: "drain_events evs eng1 gs1 = Inr (eng', gs')"
    by (auto simp: bindr_eq_Inr_iff)
  show ?case using Cons.IH [OF r handle_event_display [OF h Cons.prems(2)]] .
qed

lemma drain_collisions_display:
  "drain_collisions eng gs = Inr (eng', gs') \<Longrightarrow> display_ok eng gs \<Longrightarrow> display_ok eng' gs'"
  unfolding drain_collisions_def by (erule drain_events_display) (simp add: display_ok_def)

lemma stages_display:
  "move_player eng = Inr eng' \<Longrightarrow> display_ok eng' gs = display_ok eng gs"
  "click_spawn eng gs = Inr (eng', gs') \<Longrightarrow> display_ok eng' gs' = display_ok eng gs"
  "timer_spawn rnd eng gs = Inr (eng', gs') \<Longrightarrow> display_ok eng' gs' = display_ok eng gs"
proof -
  show "move_player eng = Inr eng' \<Longrightarrow> display_ok eng' gs = display_ok eng gs"
    using move_player_Inr_D by (fastforce simp: display_ok_def)
  show "click_spawn eng gs = Inr (eng', gs') \<Longrightarrow> display_ok eng' gs' = display_ok eng gs"
    using click_spawn_Inr_D by (fastforce simp: display_ok_def)
  show "timer_spawn rnd eng gs = Inr (eng', gs') \<Longrightarrow> display_ok eng' gs' = display_ok eng gs"
    using timer_spawn_Inr_D by (fastforce simp: display_ok_def)
qed

lemma reset_score_display:
  "reset_score eng gs = Inr (eng', gs') \<Longrightarrow> display_ok eng gs \<Longrightarrow> display_ok eng' gs'"
  by (auto simp: reset_score_def bindr_eq_Inr_iff update_text_Inr_iff display_ok_def text_value_def
      score_string_zero split: if_splits)

lemma game_logic_display:
  assumes "game_logic rnd eng gs = Inr (eng', gs')" and "display_ok eng gs"
  shows "display_ok eng' gs'"
proof -
  from assms(1) obtain eng1 eng2 gs2 eng3 eng4 gs4 eng5 gs5 where
    s1: "layout_texts (check_quit eng) = Inr eng1" and
    s2: "drain_collisions eng1 gs = Inr (eng2, gs2)" and
    s3: "move_player eng2 = Inr eng3" and
    s4: "click_spawn eng3 gs2 = Inr (eng4, gs4)" and
    s5: "timer_spawn rnd eng4 gs4 = Inr (eng5, gs5)" and
    s6: "reset_score eng5 gs5 = Inr (eng', gs')"
    by (rule game_logic_InrE)
  have "display_ok eng1 gs"
    using assms(2) layout_texts_values [OF s1] by (simp add: display_ok_def)
  then have "display_ok eng2 gs2" by (rule drain_collisions_display [OF s2])
  then have "display_ok eng5 gs5"
    using stages_display(1) [OF s3] stages_display(2) [OF s4] stages_display(3) [OF s5] by simp
  then show ?thesis by (rule reset_score_display [OF s6])
qed

lemma display_ok_init: "display_ok initial_engine default_game_state"
  by (simp add: display_ok_def text_value_def default_game_state_def initial_engine_def
      empty_engine_def add_text_def add_sprite_def play_music_def)

lemma reachable_display:
  assumes "reachable eng gs"
  shows "display_ok eng gs"
  using assms
proof (induction rule: reachable.induct)
  case init
  show ?case by (rule display_ok_init)
next
  case (step eng gs inp eng' gs')
  have "display_ok (begin_frame inp eng) gs" using step.IH by (simp add: display_ok_def)
  with step.hyps(4) show ?case by (auto simp: frame_step_def intro: game_logic_display)
qed

text \<open>
  C20: in every reachable state each score text shows its score in the format of
  \<open>game_logic\<close> (\<open>"Score n"\<close>, \<open>"High Score n"\<close>), or is still the text
  \<open>main\<close> created while that score is 0.
\<close>

theorem reachable_display_ok:
  assumes "reachable eng gs"
  shows "display_ok eng gs"
  using reachable_display [OF assms] .

theorem reachable_display_ok_witness:
  "display_ok initial_engine default_game_state"
  using reachable_display_ok [OF reachable.init] .

lemma score_point_pos:
  "score_point eng gs = Inr (eng', gs') \<Longrightarrow> text_pos eng' l = text_pos eng l"
  unfolding score_point_def
  by (cases "high_score gs < current_score gs + 1")
    (auto simp: bindr_eq_Inr_iff update_text_Inr_iff inc_u32_Inr_iff text_pos_def play_sfx_def)

lemma drain_events_pos:
  "drain_events evs eng gs = Inr (eng', gs') \<Longrightarrow> text_pos eng' l = text_pos eng l"
proof (induction evs arbitrary: eng gs)
  case Nil
  then show ?case by simp
next
  case (Cons ev evs)
  from Cons.prems obtain eng1 gs1 where h: "handle_event ev eng gs = Inr (eng1, gs1)"
    and r: "drain_events evs eng1 gs1 = Inr (eng', gs')"
    by (auto simp: bindr_eq_Inr_iff)
  have "text_pos eng1 l = text_pos eng l"
    using h score_point_pos [of "remove_pair (ev_pair ev) eng" gs eng1 gs1]
    by (auto simp: handle_event_def remove_pair_eq text_pos_def split: if_splits)
  with Cons.IH [OF r] show ?case by simp
qed

lemma stages_pos:
  "drain_collisions eng gs = Inr (eng', gs') \<Longrightarrow> text_pos eng' l = text_pos eng l"
  "move_player eng = Inr eng' \<Longrightarrow> text_pos eng' l = text_pos eng l"
  "click_spawn eng gs = Inr (eng', gs') \<Longrightarrow> text_pos eng' l = text_pos eng l"
  "timer_spawn rnd eng gs = Inr (eng', gs') \<Longrightarrow> text_pos eng' l = text_pos eng l"
  "reset_score eng gs = Inr (eng', gs') \<Longrightarrow> text_pos eng' l = text_pos eng l"
proof -
  show "drain_collisions eng gs = Inr (eng', gs') \<Longrightarrow> text_pos eng' l = text_pos eng l"
    using drain_events_pos [of "collision_events eng" "eng\<lparr>collision_events := []\<rparr>" gs eng' gs' l]
    by (simp add: drain_collisions_def text_pos_def)
  show "move_player eng = Inr eng' \<Longrightarrow> text_pos eng' l = text_pos eng l"
    using move_player_Inr_D by (fastforce simp: text_pos_def)
  show "click_spawn eng gs = Inr (eng', gs') \<Longrightarrow> text_pos eng' l = text_pos eng l"
    using click_spawn_Inr_D by (fastforce simp: text_pos_def)
  show "timer_spawn rnd eng gs = Inr (eng', gs') \<Longrightarrow> text_pos eng' l = text_pos eng l"
    using timer_spawn_Inr_D by (fastforce simp: text_pos_def)
  show "reset_score eng gs = Inr (eng', gs') \<Longrightarrow> text_pos eng' l = text_pos eng l"
    by (auto simp: reset_score_def bindr_eq_Inr_iff update_text_Inr_iff text_pos_def split: if_splits)
qed

lemma layout_texts_pos:
  assumes "layout_texts eng = Inr eng'"
  shows "text_pos eng' ''score'' = Some (fst (window_dimensions eng) / 2 - 80,
           snd (window_dimensions eng) / 2 - 30 + cos (time_since_startup_f64 eng * 4) * 5)
     \<and> text_pos eng' ''high_score'' = Some (- fst (window_dimensions eng) / 2 + 110,
           snd (window_dimensions eng) / 2 - 30)"
  using assms
  by (auto simp: layout_texts_def Let_def bindr_eq_Inr_iff update_text_Inr_iff text_pos_def)

text \<open>
  C27: after every frame the score text is at \<open>(w / 2 - 80, h / 2 - 30 + offset)\<close> and
  the high-score text at \<open>(- w / 2 + 110, h / 2 - 30)\<close> for the frame's window
  \<open>(w, h)\<close>, where the offset \<open>5 cos (4 t)\<close> of the time since startup keeps the
  score text within 5 of its base line: the later blocks rewrite the texts' values,
  never their positions.
\<close>

theorem frame_text_layout:
  assumes "frame_step inp eng gs = Inr (eng', gs')"
  shows "text_pos eng' ''high_score'' = Some (- fst (in_window inp) / 2 + 110, snd (in_window inp) / 2 - 30)
     \<and> (\<exists>y. text_pos eng' ''score'' = Some (fst (in_window inp) / 2 - 80, y)
           \<and> y = snd (in_window inp) / 2 - 30
                 + cos ((time_since_startup_f64 eng + real (in_delta inp) / 1000000000) * 4) * 5
           \<and> \<bar>y - (snd (in_window inp) / 2 - 30)\<bar> \<le> 5)"
proof -
  let ?e0 = "check_quit (begin_frame inp eng)"
  from assms [unfolded frame_step_def] obtain eng1 eng2 gs2 eng3 eng4 gs4 eng5 gs5 where
    s1: "layout_texts ?e0 = Inr eng1" and
    s2: "drain_collisions eng1 gs = Inr (eng2, gs2)" and
    s3: "move_player eng2 = Inr eng3" and
    s4: "click_spawn eng3 gs2 = Inr (eng4, gs4)" and
    s5: "timer_spawn (in_random inp) eng4 gs4 = Inr (eng5, gs5)" and
    s6: "reset_score eng5 gs5 = Inr (eng', gs')"
    by (rule game_logic_InrE)
  have same: "text_pos eng' l = text_pos eng1 l" for l
    using stages_pos(1) [OF s2] stages_pos(2) [OF s3] stages_pos(3) [OF s4] stages_pos(4) [OF s5]
      stages_pos(5) [OF s6] by simp
  have c: "\<bar>cos ((time_since_startup_f64 eng + real (in_delta inp) / 1000000000) * 4) * 5\<bar> \<le> 5"
    by (simp add: abs_mult)
  show ?thesis
    using layout_texts_pos [OF s1] same [of "''score''"] same [of "''high_score''"] c
    by (simp add: check_quit_def Let_def begin_frame_def)
qed

theorem frame_text_layout_witness:
  "\<exists>eng' gs'. frame_step idle_input initial_engine default_game_state = Inr (eng', gs')
     \<and> text_pos eng' ''high_score'' = Some (-530, 330)"
proof -
  obtain eng' gs' where f: "frame_step idle_input initial_engine default_game_state = Inr (eng', gs')"
    using frame_step_ok [OF game_inv_init idle_input_ok] by (auto simp: idle_input_def default_game_state_def)
  with frame_text_layout [OF f] show ?thesis by (simp add: idle_input_def)
qed

lemma score_of_text_prefix:
  assumes "p = [] \<or> last p = CHR '' ''"
  shows "score_of_text (p @ dec_string n) = n"
proof -
  have "\<forall>c \<in> set (dec_string n). c \<noteq> CHR '' ''"
    using dec_string_digits [of n] by (auto simp: list_all_iff is_digit_def)
  then have "takeWhile (\<lambda>c. c \<noteq> CHR '' '') (rev (dec_string n) @ rev p)
      = rev (dec_string n) @ takeWhile (\<lambda>c. c \<noteq> CHR '' '') (rev p)"
    by (intro takeWhile_append2) auto
  moreover have "takeWhile (\<lambda>c. c \<noteq> CHR '' '') (rev p) = []"
    using assms by (cases p rule: rev_cases) simp_all
  ultimately have "takeWhile (\<lambda>c. c \<noteq> CHR '' '') (rev (dec_string n) @ rev p) = rev (dec_string n)"
    by simp
  then show ?thesis by (simp add: score_of_text_def parse_dec_dec_string)
qed

lemma score_texts_read_back:
  "score_of_text (score_string c) = unat c" "score_of_text (high_score_string c) = unat c"
  "score_of_text ''Score: 0'' = 0" "score_of_text ''High Score: 0'' = 0"
proof -
  show "score_of_text (score_string c) = unat c"
    using score_of_text_prefix [of "''Score ''" "unat c"] by (simp add: score_string_def u32_string_def)
  show "score_of_text (high_score_string c) = unat c"
    using score_of_text_prefix [of "''High Score ''" "unat c"]
    by (simp add: high_score_string_def u32_string_def)
  show "score_of_text ''Score: 0'' = 0" "score_of_text ''High Score: 0'' = 0"
    by code_simp+
qed

text \<open>
  C25: in every reachable state a reader of the two score texts gets the current and the
  high score back (the digits after the last space), whichever format the text is in,
  the initial one of \<open>main\<close> or the one \<open>game_logic\<close> writes.
\<close>

theorem display_roundtrip:
  assumes "reachable eng gs"
  shows "(\<exists>v. text_value eng ''score'' = Some v \<and> score_of_text v = unat (current_score gs))
     \<and> (\<exists>v. text_value eng ''high_score'' = Some v \<and> score_of_text v = unat (high_score gs))"
  using reachable_display [OF assms] by (auto simp: display_ok_def score_texts_read_back)

theorem display_roundtrip_witness:
  "\<exists>v. text_value initial_engine ''score'' = Some v \<and> score_of_text v = 0"
  using display_roundtrip [OF reachable.init] by (simp add: default_game_state_def)

end
