(* ===== verification/Sprites.thy ===== *)
theory Sprites
  imports Frame
begin

text \<open>
  The attributes of the cars in the registry. \<open>main\<close> creates the player's car blue,
  facing south-west, with collision on (lines 24 to 27); a click creates a yellow car
  at the cursor facing south-east with collision on (lines 120 to 123); the timer
  creates a yellow car at the random position with collision on and the default
  rotation (lines 130 to 133). The movement block changes only the player's position.
  \<open>sprites_ok\<close> collects these facts for every sprite in the registry; it holds in
  every reachable state, so in particular every car can be collected and every car
  the timer placed lies in the play area of \<open>gen_range\<close>.
\<close>

definition in_play_area :: "vec2 \<Rightarrow> bool" where
  "in_play_area p \<longleftrightarrow> -550 \<le> fst p \<and> fst p < 550 \<and> -325 \<le> snd p \<and> snd p < 325"

definition sprite_ok :: "label \<Rightarrow> sprite \<Rightarrow> bool" where
  "sprite_ok l s \<longleftrightarrow> label s = l \<and> collision s
     \<and> (l = player_label \<longrightarrow> preset s = RacingCarBlue \<and> rotation s = SOUTH_WEST)
     \<and> (l \<noteq> player_label \<longrightarrow> preset s = RacingCarYellow)
     \<and> (\<forall>k. l = click_label k \<longrightarrow> rotation s = SOUTH_EAST)
     \<and> (\<forall>k. l = timer_label k \<longrightarrow> in_play_area (translation s) \<and> rotation s = 0)"

definition sprites_ok :: "engine \<Rightarrow> bool" where
  "sprites_ok eng \<longleftrightarrow> (\<forall>l s. sprites eng l = Some s \<longrightarrow> sprite_ok l s)"

lemma sprites_ok_cong: "sprites eng' = sprites eng \<Longrightarrow> sprites_ok eng' = sprites_ok eng"
  by (simp add: sprites_ok_def)

lemma sprites_ok_restrict: "sprites_ok eng \<Longrightarrow> sprites_ok (eng\<lparr>sprites := restrict_map (sprites eng) A\<rparr>)"
  by (simp add: sprites_ok_def restrict_map_def)

lemma sprites_ok_upd:
  "sprites_ok eng \<Longrightarrow> sprite_ok l s \<Longrightarrow> sprites_ok (eng\<lparr>sprites := (sprites eng)(l \<mapsto> s)\<rparr>)"
  by (simp add: sprites_ok_def)

lemma drain_collisions_sprites_ok:
  assumes "drain_collisions eng gs = Inr (eng', gs')" and "sprites_ok eng"
  shows "sprites_ok eng'"
proof -
  obtain tx sq where "eng' = eng\<lparr>collision_events := [],
      sprites := restrict_map (sprites eng) (- batch_victims (collision_events eng)),
      texts := tx, sfx_queue := sq\<rparr>"
    using drain_events_Inr_D [of "collision_events eng" "eng\<lparr>collision_events := []\<rparr>" gs eng' gs']
      assms(1) by (auto simp: drain_collisions_def)
  with assms(2) show ?thesis by (simp add: sprites_ok_def restrict_map_def)
qed

lemma move_player_sprites_ok:
  assumes "move_player eng = Inr eng'" and "sprites_ok eng"
  shows "sprites_ok eng'"
proof -
  obtain s where s: "sprites eng player_label = Some s"
    and e: "eng' = eng\<lparr>sprites := (sprites eng)(player_label \<mapsto> move_by eng s)\<rparr>"
    using move_player_Inr_D [OF assms(1)] by blast
  have "sprite_ok player_label (move_by eng s)"
    using assms(2) s by (simp add: sprites_ok_def sprite_ok_def)
  with assms(2) e show ?thesis by (simp add: sprites_ok_upd)
qed

lemma click_spawn_sprites_ok:
  assumes "click_spawn eng gs = Inr (eng', gs')" and "sprites_ok eng"
  shows "sprites_ok eng'"
  using assms
  by (auto simp: click_spawn_def Let_def bindr_eq_Inr_iff add_sprite_def new_sprite_def
      sprite_ok_def click_timer_label_distinct click_label_inj
      intro!: sprites_ok_upd split: if_splits option.splits)

lemma timer_spawn_sprites_ok:
  assumes "timer_spawn rnd eng gs = Inr (eng', gs')" and "sprites_ok eng" and "in_play_area rnd"
  shows "sprites_ok eng'"
  using assms
  by (auto simp: timer_spawn_def Let_def bindr_eq_Inr_iff add_sprite_def new_sprite_def
      sprite_ok_def click_timer_label_distinct [symmetric]
      intro!: sprites_ok_upd split: if_splits)

lemma texts_stages_sprites:
  "layout_texts eng = Inr eng' \<Longrightarrow> sprites eng' = sprites eng"
  "reset_score eng gs = Inr (eng', gs') \<Longrightarrow> sprites eng' = sprites eng"
  using layout_texts_Inr_D [of eng eng'] reset_score_Inr_D [of eng gs eng' gs'] by auto

lemma game_logic_sprites_ok:
  assumes "game_logic rnd eng gs = Inr (eng', gs')" and "sprites_ok eng" and "in_play_area rnd"
  shows "sprites_ok eng'"
proof -
  from assms(1) obtain eng1 eng2 gs2 eng3 eng4 gs4 eng5 gs5 where
    s1: "layout_texts (check_quit eng) = Inr eng1" and
    s2: "drain_collisions eng1 gs = Inr (eng2, gs2)" and
    s3: "move_player eng2 = Inr eng3" and
    s4: "click_spawn eng3 gs2 = Inr (eng4, gs4)" and
    s5: "timer_spawn rnd eng4 gs4 = Inr (eng5, gs5)" and
    s6: "reset_score eng5 gs5 = Inr (eng', gs')"
    by (rule game_logic_InrE)
  have "sprites_ok eng1"
    using assms(2) texts_stages_sprites(1) [OF s1] by (simp add: sprites_ok_def)
  then have "sprites_ok eng5"
    by (meson drain_collisions_sprites_ok [OF s2] move_player_sprites_ok [OF s3]
        click_spawn_sprites_ok [OF s4] timer_spawn_sprites_ok [OF s5 _ assms(3)])
  then show ?thesis using texts_stages_sprites(2) [OF s6] by (simp add: sprites_ok_def)
qed

lemma sprites_ok_init: "sprites_ok initial_engine"
  by (auto simp: sprites_ok_def sprite_ok_def initial_engine_def empty_engine_def add_text_def
      add_sprite_def new_sprite_def play_music_def)

lemma input_ok_play_area: "input_ok inp \<Longrightarrow> in_play_area (in_random inp)"
  by (simp add: input_ok_def in_play_area_def)

text \<open>
  C21: in every reachable state every car in the registry carries its own label and has
  collision on; the player's car is the blue one facing south-west; every other car is
  yellow; a car spawned by a click faces south-east; a car spawned by the timer faces
  the default direction and lies in the play area \<open>[-550, 550) \<times> [-325, 325)\<close>.
\<close>

theorem reachable_sprites_ok:
  assumes "reachable eng gs"
  shows "sprites_ok eng"
  using assms
proof (induction rule: reachable.induct)
  case init
  show ?case by (rule sprites_ok_init)
next
  case (step eng gs inp eng' gs')
  have "sprites_ok (begin_frame inp eng)" using step.IH by (simp add: sprites_ok_def)
  with step.hyps(3,4) show ?case
    by (auto simp: frame_step_def intro: game_logic_sprites_ok input_ok_play_area)
qed

theorem reachable_sprites_ok_witness:
  "\<exists>eng' gs'. frame_step (idle_input\<lparr>in_mouse_just_pressed := {MouseLeft},
        in_mouse_location := Some (200, 150)\<rparr>) initial_engine default_game_state = Inr (eng', gs')
     \<and> sprites_ok eng'"
proof -
  let ?i = "idle_input\<lparr>in_mouse_just_pressed := {MouseLeft}, in_mouse_location := Some (200, 150)\<rparr>"
  have ok: "input_ok ?i" by (simp add: idle_input_def input_ok_def)
  obtain eng' gs' where f: "frame_step ?i initial_engine default_game_state = Inr (eng', gs')"
    using frame_step_ok [OF game_inv_init ok] by (auto simp: idle_input_def default_game_state_def)
  have "reachable eng' gs'" using reachable.step [OF reachable.init _ ok f] by simp
  with f show ?thesis using reachable_sprites_ok by blast
qed

end
