(* ===== verification/Outputs.thy ===== *)
theory Outputs
  imports Frame
begin

text \<open>
  What a frame hands back to the host besides the registry and the texts: the sound
  requests. \<open>begin_frame\<close> starts each frame with an empty queue, and the only call
  that adds to it is \<open>play_sfx(SfxPreset::Minimize1, 0.3)\<close> at line 80, once per
  scoring event. The specification's collection example is evaluated on the model.
\<close>

text \<open>The collection example: a car \<open>"c1"\<close> at the player's position and one
  \<open>Begin\<close> event between the two.\<close>

definition example_engine :: engine where
  "example_engine = add_sprite ''c1'' RacingCarYellow
     (\<lambda>s. s\<lparr>translation := (0, 0), collision := True\<rparr>) initial_engine"

definition example_input :: frame_input where
  "example_input = idle_input\<lparr>in_collisions := [\<lparr>ev_state = Begin, ev_pair = (player_label, ''c1'')\<rparr>]\<rparr>"

lemma handle_event_sfx:
  assumes "handle_event ev eng gs = Inr (eng', gs')"
  shows "sfx_queue eng' = sfx_queue eng @ (if is_scoring ev then [(Minimize1, 3 / 10)] else [])"
proof (cases "is_scoring ev")
  case True
  with assms have "score_point (remove_pair (ev_pair ev) eng) gs = Inr (eng', gs')"
    by (simp add: handle_event_def)
  from score_point_Inr_engine [OF this] True show ?thesis by (auto simp: remove_pair_eq)
next
  case False
  with assms show ?thesis by (simp add: handle_event_def)
qed

lemma drain_events_sfx:
  "drain_events evs eng gs = Inr (eng', gs') \<Longrightarrow>
   sfx_queue eng' = sfx_queue eng @ replicate (length (filter is_scoring evs)) (Minimize1, 3 / 10)"
proof (induction evs arbitrary: eng gs)
  case Nil
  then show ?case by simp
next
  case (Cons ev evs)
  from Cons.prems obtain eng1 gs1 where h: "handle_event ev eng gs = Inr (eng1, gs1)"
    and r: "drain_events evs eng1 gs1 = Inr (eng', gs')"
    by (auto simp: bindr_eq_Inr_iff)
  show ?case using Cons.IH [OF r] handle_event_sfx [OF h] by (simp add: replicate_append_same)
qed

lemma stages_sfx:
  "layout_texts eng = Inr eng' \<Longrightarrow> sfx_queue eng' = sfx_queue eng"
  "move_player eng = Inr eng' \<Longrightarrow> sfx_queue eng' = sfx_queue eng"
  "click_spawn eng gs = Inr (eng', gs') \<Longrightarrow> sfx_queue eng' = sfx_queue eng"
  "timer_spawn rnd eng gs = Inr (eng', gs') \<Longrightarrow> sfx_queue eng' = sfx_queue eng"
  "reset_score eng gs = Inr (eng', gs') \<Longrightarrow> sfx_queue eng' = sfx_queue eng"
  using layout_texts_Inr_D [of eng eng'] move_player_Inr_D [of eng eng']
    click_spawn_Inr_D [of eng gs eng' gs'] timer_spawn_Inr_D [of rnd eng gs eng' gs']
    reset_score_Inr_D [of eng gs eng' gs']
  by auto

text \<open>
  C22: the sound requests of a frame are one \<open>Minimize1\<close> at volume 0.3 per scoring
  event of the frame's batch, and nothing else; requests of earlier frames are not
  repeated.
\<close>

theorem frame_sounds:
  assumes "frame_step inp eng gs = Inr (eng', gs')"
  shows "sfx_queue eng' =
           replicate (length (filter is_scoring (collision_events eng @ in_collisions inp))) (Minimize1, 3 / 10)"
proof -
  let ?e0 = "check_quit (begin_frame inp eng)"
  from assms [unfolded frame_step_def] obtain eng1 eng2 gs2 eng3 eng4 gs4 eng5 gs5 where
    s1: "layout_texts ?e0 = Inr eng1" and
    s2: "drain_collisions eng1 gs = Inr (eng2, gs2)" and
    s3: "move_player eng2 = Inr eng3" and
    s4: "click_spawn eng3 gs2 = Inr (eng4, gs4)" and
    s5: "timer_spawn (in_random inp) eng4 gs4 = Inr (eng5, gs5)" and
    s6: "reset_score eng5 gs5 = Inr (eng', gs')"
    by (rule game_logic_InrE)
  have e1: "sfx_queue eng1 = []" "collision_events eng1 = collision_events eng @ in_collisions inp"
    using stages_sfx(1) [OF s1] layout_texts_Inr_D [OF s1]
    by (auto simp: begin_frame_def check_quit_def Let_def)
  have "sfx_queue eng2 = replicate (length (filter is_scoring (collision_events eng @ in_collisions inp))) (Minimize1, 3 / 10)"
    using drain_events_sfx [of "collision_events eng1" "eng1\<lparr>collision_events := []\<rparr>" gs eng2 gs2] s2 e1
    by (simp add: drain_collisions_def)
  then show ?thesis
    using stages_sfx(2) [OF s3] stages_sfx(3) [OF s4] stages_sfx(4) [OF s5] stages_sfx(5) [OF s6] by simp
qed

lemma example_frame:
  "\<exists>eng' gs'. frame_step example_input example_engine default_game_state = Inr (eng', gs')
     \<and> ''c1'' \<notin> dom (sprites eng') \<and> current_score gs' = 1 \<and> high_score gs' = 1"
  by (simp add: frame_step_def game_logic_def example_input_def example_engine_def idle_input_def
      begin_frame_def check_quit_def layout_texts_def Let_def update_text_def drain_collisions_def
      handle_event_def is_scoring_def one_starts_with_def starts_with_def player_label_def
      score_point_def remove_pair_def remove_sprite_def inc_u32_def default_game_state_def
      move_player_def update_sprite_def click_spawn_def timer_spawn_def reset_score_def pressed_def
      initial_engine_def empty_engine_def add_text_def add_sprite_def play_music_def play_sfx_def
      from_seconds_def tick_def just_finished_def)

theorem frame_sounds_witness:
  "\<exists>eng' gs'. frame_step example_input example_engine default_game_state = Inr (eng', gs')
     \<and> ''c1'' \<notin> dom (sprites eng') \<and> current_score gs' = 1 \<and> high_score gs' = 1
     \<and> sfx_queue eng' = [(Minimize1, 3 / 10)]"
proof -
  obtain eng' gs' where f: "frame_step example_input example_engine default_game_state = Inr (eng', gs')"
    and r: "''c1'' \<notin> dom (sprites eng') \<and> current_score gs' = 1 \<and> high_score gs' = 1"
    using example_frame by blast
  have "sfx_queue eng' = [(Minimize1, 3 / 10)]"
    using frame_sounds [OF f]
    by (simp add: example_input_def example_engine_def idle_input_def add_sprite_def is_scoring_def
        one_starts_with_def starts_with_def player_label_def)
  with f r show ?thesis by blast
qed

end
