(* ===== verification/Spec2Isabelle.thy ===== *)
theory Spec2Isabelle
  imports Overflow Display Sprites Outputs
begin

text \<open>
  \<^bold>\<open>A verification development of the arcade game in \<^verbatim>\<open>src/src/main.rs\<close>.\<close>

  \<^bold>\<open>The program.\<close> One Rust file built on the rusty_engine library. \<open>main\<close>
  (lines 22 to 40) sets up the engine: the player's car under the label
  \<open>"player"\<close>, two texts \<open>"score"\<close> and \<open>"high_score"\<close>, the music, and hands
  the engine a \<open>GameState\<close> (lines 4 to 20: high score, current score and spawn
  counter as \<open>u32\<close>, and a repeating two-second \<open>Timer\<close>). The engine then calls
  \<open>game_logic\<close> (lines 42 to 142) once per frame, after filling in the frame's input
  (keyboard, mouse, frame time, window size) and the collision events of the frame.
  \<open>game_logic\<close> runs, in this order: the collider switch and the quit key Q, the
  placement of the score texts, the collision resolver (a \<open>Begin\<close> event with a
  label starting with \<open>"player"\<close> removes the other car, adds a point, raises the
  high score, rewrites the texts and queues a sound), the movement of the player
  (arrow keys and WASD, opposite keys adding up), a spawn at the cursor on a fresh
  left click, a spawn at a random place when the timer completes, and the level-
  sensitive reset key R.

  \<^bold>\<open>The theories.\<close>
  \<^item> \<open>Prelude\<close>: the types \<open>u32\<close>, \<open>label\<close>, \<open>vec2\<close>; the panics of the program
    as the datatype \<open>error\<close> (\<open>UnwrapNone\<close> for an \<open>unwrap()\<close> of a missing
    entry, \<open>AddOverflow\<close> for \<open>+= 1\<close> on \<open>u32::MAX\<close> in a debug build); results
    \<open>error + 'a\<close> sequenced by \<open>bindr\<close>; \<open>inc_u32\<close>; shared word lemmas.
  \<^item> \<open>Timer\<close>: the library's \<open>Timer\<close> (\<open>from_seconds\<close>, \<open>tick\<close>,
    \<open>just_finished\<close>) with durations in nanoseconds, and runs of ticks; lemmas that a
    repeating timer carries the remainder (\<open>ticks_no_drift\<close>), that one long tick
    equals many short ones (\<open>ticks_equiv_single_tick\<close>), that it signals at most
    once per tick (\<open>signals_le_completions\<close>), and that a one-shot timer stays
    finished.
  \<^item> \<open>Engine\<close>: the part of rusty_engine's \<open>Engine\<close> the logic touches (sprite
    and text maps, events, exit flag, sound queue, input state) and its operations
    \<open>add_sprite\<close> (insert, replacing), \<open>remove_sprite\<close>, \<open>update_sprite\<close> and
    \<open>update_text\<close> (\<open>get_mut(..).unwrap()\<close> with the writes that follow),
    \<open>one_starts_with\<close> (exactly one of the two labels starts with the text, as
    in the library), \<open>pressed_any\<close>.
  \<^item> \<open>Labels\<close>: \<open>format!\<close> of \<open>u32\<close> values (\<open>dec_string\<close>), the labels
    \<open>click_label\<close> (\<open>"ferris{}"\<close>) and \<open>timer_label\<close> (\<open>"Ferris{}"\<close>) and the
    score strings, with the parse/print round trip of \<open>dec_string\<close> and the
    injectivity of labels that the freshness of spawn labels rests on.
  \<^item> \<open>GameState\<close>: \<open>GameState\<close> and its default, and the specification's abstract
    score tracker (\<open>register_point\<close>, \<open>reset_current\<close>) with \<open>abs_score\<close>.
  \<^item> \<open>Setup\<close>: the engine \<open>main\<close> builds (\<open>initial_engine\<close>).
  \<^item> \<open>Collision\<close>: lines 58 to 82, \<open>is_scoring\<close>, \<open>remove_pair\<close>,
    \<open>score_point\<close>, \<open>handle_event\<close>, \<open>drain_events\<close>, \<open>drain_collisions\<close>;
    the effect of a whole batch, the refinement of \<open>register_point\<close>, the exact
    error cases, the no-deduplication policy for repeated events, and the equivalence
    with the pass over the scoring events alone.
  \<^item> \<open>Input\<close>: lines 43 to 56 and 84 to 141, \<open>check_quit\<close>, \<open>layout_texts\<close>,
    \<open>move_player\<close>, \<open>click_spawn\<close>, \<open>timer_spawn\<close>, \<open>reset_score\<close>, each with
    its functional behaviour and its inversion lemma.
  \<^item> \<open>Frame\<close>: \<open>game_logic\<close> as the composition of the blocks, \<open>begin_frame\<close>
    (the engine storing the frame's input), \<open>frame_step\<close>, the loop \<open>run_game\<close>
    that stops at the first frame boundary after the exit flag is set, the inductive
    set of \<open>reachable\<close> states and the invariant \<open>game_inv\<close> proved for all of
    them by rule induction, one preservation lemma per block.
  \<^item> \<open>Simulation\<close>: the abstract game of the specification (\<open>game_abs\<close>: score
    tracker, set of live cars, number of spawns, timer, player position),
    \<open>abs_game\<close> reading it off a state, \<open>abs_frame\<close> stepping it on a frame's
    input and \<open>abs_run\<close> on a run, and the spawns of one frame.
  \<^item> \<open>Runs\<close>: runs of \<open>run_game\<close>: they return while the counters cannot
    overflow (\<open>run_game_ok\<close>), the spawn count of a run, and the timer's liveness.
  \<^item> \<open>Overflow\<close>: the counters at their width: the exact overflow boundary of a
    frame, and the release build of the three blocks with a \<open>+= 1\<close>
    (\<open>score_point_release\<close>, \<open>click_spawn_release\<close>, \<open>timer_spawn_release\<close>).
  \<^item> \<open>Display\<close>: the values (\<open>display_ok\<close>) and positions (\<open>text_pos\<close>)
    of the two score texts, and reading a score back from its text
    (\<open>score_of_text\<close>).
  \<^item> \<open>Sprites\<close>: the attributes of every car in the registry (\<open>sprites_ok\<close>).
  \<^item> \<open>Outputs\<close>: the sound requests of a frame, and the specification's collection
    example evaluated on the model.

  \<^bold>\<open>What is proved\<close> (claims C1 to C32 in the theories): the invariant of every
  reachable state (C1); a frame never panics on a missing entry, always completes
  while the counters cannot overflow, and panics exactly when one would (C2, C14, C8);
  a whole run returns under the same bound (C15); the collision pass, its refinement
  of the score tracker, its error cases, its handling of repeated events, and its
  equivalence with the pass over the scoring events alone (C3 to C5, C12, C13); every
  frame, and every run up to the quit key, refines the abstract game (C6, C7); in a
  release build the score wraps and the point is lost, spawn labels start over and
  replace live cars, and the timer spawn wraps the counter (C9 to C11); the high score
  never decreases and the reset key (C16, C17, C32); cooperative quitting (C18); spawn
  labels are always fresh in the debug build (C19); the score texts show the scores,
  or the initial text of \<open>main\<close> while a score is 0 (C20), the scores can be read
  back from them (C25), and they sit where the layout block puts them (C27); every
  car keeps the attributes it was spawned with and timer cars lie in the play area
  (C21); one sound per point (C22); the spawns of a run are bounded by its clicks and
  its time (C23), and the timer does spawn within any stretch of frames as long as its
  period (C24); a frame of zero length moves nothing and spawns only on a click (C26);
  the spawn timer does not drift and a long frame spawns once (C28, C31); movement and
  the click spawn (C29, C30).

  \<^bold>\<open>Bounds and assumptions.\<close> Counters are \<open>32 word\<close>. The session is the
  debug build, where \<open>+= 1\<close> panics at \<open>u32::MAX\<close> (\<open>inc_u32\<close>); the release
  build, where it wraps, is modelled for the scoring block and both spawns in
  \<open>Overflow\<close> and compared with the debug build there. Frames are shorter than
  \<open>2 * 10^9 * (2^32 - 1)\<close> nanoseconds (\<open>input_ok\<close>, about 272 years), which is
  what keeps the timer's \<open>u32\<close> completion count exact; the random spawn position
  is an input of the frame in the ranges of \<open>gen_range\<close>.

  \<^bold>\<open>Plan.\<close> Done: every block of \<open>game_logic\<close>, \<open>main\<close>, the engine loop,
  the timer, the invariants of the session (scores, labels, texts, cars), the
  simulation of the abstract game by frames and by runs, the sound requests, the
  run-level spawn bound and timer liveness, the overflow boundary and the release
  build of every block with a \<open>+= 1\<close>, the read-back of the score texts and the
  zero-length frame. Left: a whole release-build session
  (threading the build profile through \<open>game_logic\<close>), which would restate every
  frame-level theorem for a second increment.

  \<^bold>\<open>Not modelled.\<close> Rendering, sound playback, \<open>println!\<close> logging and the
  physics that detects collisions (the events are an input). Positions are
  \<open>real\<close> where the code has \<open>f32\<close>: rounding is not modelled, so the
  movement theorems (C29, and the player's position in C6) describe exact arithmetic;
  in \<open>f32\<close> opposite moves need not cancel exactly. The library's pausing of timers is not used by the program. Of the engine,
  only the state and operations the program touches are modelled.
\<close>

end
